(* ===== verification/Runtime_Prelude.thy ===== *)
theory Runtime_Prelude
  imports
    Complex_Main
    "HOL-Library.Word"
    "HOL-Library.Char_ord"
    "HOL-Library.List_Lexorder"
    "HOL-Library.Product_Lexorder"
begin

text \<open>
  Shared vocabulary of the development. It holds the exception values every Python \<open>raise\<close> of
  the runtime becomes, the result type \<open>'a res\<close> of code that may raise, a combinator that runs
  a fallible action over a list, and the lemmas on tables kept as lists of rows (lookup by key,
  update in place, insertion at the end) that all database components use.
\<close>

section \<open>Exceptions and results\<close>

text \<open>
  One constructor per exception class the sources raise or catch. The constructors carry the
  message the source gives where it is a literal. \<open>ForeignError\<close> stands for an exception of a
  third-party class: its class name and the value of its \<open>status_code\<close> attribute, if it has one.
\<close>

datatype exn =
    ValueError string
  | TypeError string
  | KeyError string
  | IndexError
  | OverflowError
  | RuntimeError string
  | TimeoutError
  | IntegrityError
  | RunNotFoundError string
  | RunNotSucceededError string
  | InvalidCursorError string
  | QuotaExceededError string
  | IdempotencyConflictError string
  | EvaluationConfigurationError string
  | KeyDestroyedError string
  | RetentionDisabledError string
  | RateLimitUnavailable string
  | PublishNotConfirmedError
  | ProviderConfigurationError string
  | ProviderHttpError int
  | ForeignError string "int option"

type_synonym 'a res = "exn + 'a"

text \<open>The classes that derive from \<open>ValueError\<close>, so that \<open>except ValueError\<close> catches them.\<close>

fun is_ValueError :: "exn \<Rightarrow> bool" where
  "is_ValueError (ValueError _) = True"
| "is_ValueError (RunNotSucceededError _) = True"
| "is_ValueError (InvalidCursorError _) = True"
| "is_ValueError (QuotaExceededError _) = True"
| "is_ValueError (IdempotencyConflictError _) = True"
| "is_ValueError (EvaluationConfigurationError _) = True"
| "is_ValueError (KeyDestroyedError _) = True"
| "is_ValueError _ = False"

text \<open>\<open>type(exc).__name__\<close>.\<close>

fun exn_name :: "exn \<Rightarrow> string" where
  "exn_name (ValueError _) = ''ValueError''"
| "exn_name (TypeError _) = ''TypeError''"
| "exn_name (KeyError _) = ''KeyError''"
| "exn_name IndexError = ''IndexError''"
| "exn_name OverflowError = ''OverflowError''"
| "exn_name (RuntimeError _) = ''RuntimeError''"
| "exn_name TimeoutError = ''TimeoutError''"
| "exn_name IntegrityError = ''IntegrityError''"
| "exn_name (RunNotFoundError _) = ''RunNotFoundError''"
| "exn_name (RunNotSucceededError _) = ''RunNotSucceededError''"
| "exn_name (InvalidCursorError _) = ''InvalidCursorError''"
| "exn_name (QuotaExceededError _) = ''QuotaExceededError''"
| "exn_name (IdempotencyConflictError _) = ''IdempotencyConflictError''"
| "exn_name (EvaluationConfigurationError _) = ''EvaluationConfigurationError''"
| "exn_name (KeyDestroyedError _) = ''KeyDestroyedError''"
| "exn_name (RetentionDisabledError _) = ''RetentionDisabledError''"
| "exn_name (RateLimitUnavailable _) = ''RateLimitUnavailable''"
| "exn_name PublishNotConfirmedError = ''PublishNotConfirmedError''"
| "exn_name (ProviderConfigurationError _) = ''ProviderConfigurationError''"
| "exn_name (ProviderHttpError _) = ''ProviderHttpError''"
| "exn_name (ForeignError n _) = n"

definition res_bind :: "'a res \<Rightarrow> ('a \<Rightarrow> 'b res) \<Rightarrow> 'b res" where
  "res_bind m f = (case m of Inl e \<Rightarrow> Inl e | Inr x \<Rightarrow> f x)"

definition guard_that :: "bool \<Rightarrow> exn \<Rightarrow> unit res" where
  "guard_that b e = (if b then Inr () else Inl e)"

lemma res_bind_simps [simp]:
  "res_bind (Inl e) f = Inl e"
  "res_bind (Inr x) f = f x"
  by (simp_all add: res_bind_def)

lemma res_bind_Inr_iff:
  "res_bind m f = Inr y \<longleftrightarrow> (\<exists>x. m = Inr x \<and> f x = Inr y)"
  by (cases m) simp_all

lemma res_bind_InrE [elim!]:
  assumes "res_bind m f = Inr y"
  obtains x where "m = Inr x" and "f x = Inr y"
  using assms by (auto simp: res_bind_Inr_iff)

lemma res_bind_cong [fundef_cong]:
  assumes "m = m'" and "\<And>x. m' = Inr x \<Longrightarrow> f x = f' x"
  shows "res_bind m f = res_bind m' f'"
  using assms by (cases m') simp_all

lemma guard_that_simps [simp]:
  "guard_that True e = Inr ()"
  "guard_that False e = Inl e"
  by (simp_all add: guard_that_def)

lemma guard_that_Inr_iff [simp]: "guard_that b e = Inr u \<longleftrightarrow> b"
  by (simp add: guard_that_def)

text \<open>A \<open>for\<close> loop whose body may raise: the state is threaded, the first exception leaves the loop.\<close>

fun res_fold :: "('a \<Rightarrow> 's \<Rightarrow> 's res) \<Rightarrow> 'a list \<Rightarrow> 's \<Rightarrow> 's res" where
  "res_fold f [] s = Inr s"
| "res_fold f (x # xs) s = res_bind (f x s) (res_fold f xs)"

lemma res_fold_invariant:
  assumes "res_fold f xs s = Inr t" and "P s"
    and "\<And>x s t. x \<in> set xs \<Longrightarrow> P s \<Longrightarrow> f x s = Inr t \<Longrightarrow> P t"
  shows "P t"
  using assms
proof (induction xs arbitrary: s)
  case Nil
  then show ?case by simp
next
  case (Cons x xs)
  from Cons.prems(1) obtain u where u: "f x s = Inr u" and rest: "res_fold f xs u = Inr t"
    by auto
  from Cons.prems(2,3) u have "P u" by (meson list.set_intros(1))
  with rest show ?case
    by (rule Cons.IH) (use Cons.prems(3) in \<open>meson list.set_intros(2)\<close>)
qed

section \<open>Tables as lists of rows\<close>

text \<open>
  A database table is the list of its rows in insertion order. \<open>row_with\<close> is
  \<open>select(T).where(key == k)\<close> read with \<open>session.scalar\<close> (the first match or None), \<open>rewrite\<close> is the
  UPDATE of the rows a condition selects.
\<close>

definition row_with :: "('r \<Rightarrow> 'k) \<Rightarrow> 'k \<Rightarrow> 'r list \<Rightarrow> 'r option" where
  "row_with key k rows = find (\<lambda>r. key r = k) rows"

definition rewrite :: "('r \<Rightarrow> bool) \<Rightarrow> ('r \<Rightarrow> 'r) \<Rightarrow> 'r list \<Rightarrow> 'r list" where
  "rewrite p f rows = map (\<lambda>r. if p r then f r else r) rows"

lemma row_with_Nil [simp]: "row_with key k [] = None"
  by (simp add: row_with_def)

lemma row_with_Cons [simp]:
  "row_with key k (r # rows) = (if key r = k then Some r else row_with key k rows)"
  by (simp add: row_with_def)

lemma row_with_append:
  "row_with key k (rows @ more) =
     (case row_with key k rows of None \<Rightarrow> row_with key k more | Some r \<Rightarrow> Some r)"
  by (induction rows) simp_all

lemma row_with_None: "row_with key k rows = None \<longleftrightarrow> k \<notin> key ` set rows"
  by (induction rows) auto

lemma row_with_SomeD: "row_with key k rows = Some r \<Longrightarrow> r \<in> set rows \<and> key r = k"
  by (induction rows) (auto split: if_splits)

lemma distinct_keyD: "distinct (map key rows) \<Longrightarrow> r \<in> set rows \<Longrightarrow> r' \<in> set rows \<Longrightarrow> key r = key r' \<Longrightarrow> r = r'"
  by (auto simp: distinct_map dest: inj_onD)

lemma row_with_distinct:
  "distinct (map key rows) \<Longrightarrow> r \<in> set rows \<Longrightarrow> row_with key (key r) rows = Some r"
  by (induction rows) force+

lemma row_with_rewrite:
  assumes "\<And>r. key (f r) = key r"
  shows "row_with key k (rewrite p f rows) =
     map_option (\<lambda>r. if p r then f r else r) (row_with key k rows)"
  by (induction rows) (simp_all add: rewrite_def assms)

lemma map_key_rewrite:
  assumes "\<And>r. p r \<Longrightarrow> key (f r) = key r"
  shows "map key (rewrite p f rows) = map key rows"
  using assms by (simp add: rewrite_def)

lemma set_rewrite: "set (rewrite p f rows) = (\<lambda>r. if p r then f r else r) ` set rows"
  by (simp add: rewrite_def)

lemma length_rewrite [simp]: "length (rewrite p f rows) = length rows"
  by (simp add: rewrite_def)

lemma filter_rewrite_keep:
  assumes "\<And>r. p r \<Longrightarrow> q (f r) = q r"
  shows "filter q (rewrite p f rows) = rewrite p f (filter q rows)"
  using assms by (induction rows) (auto simp: rewrite_def)

lemma rewrite_none: "(\<And>r. r \<in> set rows \<Longrightarrow> \<not> p r) \<Longrightarrow> rewrite p f rows = rows"
  by (induction rows) (auto simp: rewrite_def)

lemma rewrite_Nil [simp]: "rewrite p f [] = []"
  by (simp add: rewrite_def)

lemma rewrite_Cons [simp]: "rewrite p f (r # rows) = (if p r then f r else r) # rewrite p f rows"
  by (simp add: rewrite_def)

lemma rewrite_append [simp]: "rewrite p f (xs @ ys) = rewrite p f xs @ rewrite p f ys"
  by (simp add: rewrite_def)

text \<open>Truthiness of an optional string: \<open>p or c\<close> keeps \<open>p\<close> unless it is None or empty.\<close>

fun str_or :: "string option \<Rightarrow> string \<Rightarrow> string" where
  "str_or None c = c"
| "str_or (Some p) c = (if p = [] then c else p)"

end
