(* ===== verification/Py_Float.thy ===== *)
theory Py_Float
  imports Runtime_Prelude "HOL-Library.Log_Nat"
begin

text \<open>
  Python floats. A finite float is the rational number it denotes; \<open>fl\<close> rounds a rational to the
  nearest IEEE binary64 value (53 significant bits, ties to even), so a float operation of the
  source is the exact operation followed by \<open>fl\<close>. Overflow to infinity and subnormal results
  are outside the model: the runtime's quantities (seconds, milliseconds, rates, micro-USD) stay
  far inside the normal range.
\<close>

section \<open>Rounding\<close>

text \<open>Round half to even, the rounding of Python's \<open>round\<close> and of IEEE arithmetic.\<close>

definition rhe :: "rat \<Rightarrow> int" where
  "rhe x = (let f = \<lfloor>x\<rfloor>; d = x - of_int f in
     if d < 1/2 then f else if 1/2 < d then f + 1 else if even f then f else f + 1)"

text \<open>The binary exponent: \<open>2 ^ e \<le> x < 2 ^ (e + 1)\<close> for positive \<open>x\<close>.\<close>

definition bin_exp :: "rat \<Rightarrow> int" where
  "bin_exp x = (let (n, d) = quotient_of x; k = bitlen n - bitlen d in
     if 2 powi k \<le> x then k else k - 1)"

definition fl :: "rat \<Rightarrow> rat" where
  "fl x = (if x = 0 then 0
     else let e = bin_exp \<bar>x\<bar> - 52 in of_int (rhe (x / 2 powi e)) * 2 powi e)"

datatype pyfloat = Fin rat | PosInf | NegInf | NaN

fun isfinite :: "pyfloat \<Rightarrow> bool" where
  "isfinite (Fin _) = True"
| "isfinite _ = False"

text \<open>
  \<open>round(x, n)\<close> on a float: CPython rounds the exact binary value to \<open>n\<close> decimal places, ties to
  even, and reads the decimal back as the nearest float.
\<close>

definition py_round :: "nat \<Rightarrow> rat \<Rightarrow> rat" where
  "py_round n x = fl (of_int (rhe (x * 10 ^ n)) / 10 ^ n)"

text \<open>\<open>int(x)\<close> truncates towards zero.\<close>

definition py_trunc :: "rat \<Rightarrow> int" where
  "py_trunc x = (if 0 \<le> x then \<lfloor>x\<rfloor> else \<lceil>x\<rceil>)"

section \<open>Facts about rounding\<close>

lemma rhe_bounds: "\<lfloor>x\<rfloor> \<le> rhe x \<and> rhe x \<le> \<lfloor>x\<rfloor> + 1"
  by (simp add: rhe_def Let_def)

lemma rhe_of_int [simp]: "rhe (of_int i) = i"
  by (simp add: rhe_def)

lemma rhe_near: "\<bar>of_int (rhe x) - x\<bar> \<le> 1/2"
proof -
  have "of_int \<lfloor>x\<rfloor> \<le> x" "x < of_int \<lfloor>x\<rfloor> + 1"
    by linarith+
  then show ?thesis by (auto simp: rhe_def Let_def)
qed

lemma rhe_mono: "x \<le> y \<Longrightarrow> rhe x \<le> rhe y"
proof -
  assume le: "x \<le> y"
  show ?thesis
  proof (cases "\<lfloor>x\<rfloor> = \<lfloor>y\<rfloor>")
    case True
    with le show ?thesis by (auto simp: rhe_def Let_def)
  next
    case False
    with le have "\<lfloor>x\<rfloor> + 1 \<le> \<lfloor>y\<rfloor>" using floor_mono [OF le] by linarith
    then show ?thesis using rhe_bounds [of x] rhe_bounds [of y] by linarith
  qed
qed

lemma rhe_numeral [simp]: "rhe (numeral n) = numeral n" "rhe 0 = 0" "rhe 1 = 1"
  using rhe_of_int [of "numeral n"] rhe_of_int [of 0] rhe_of_int [of 1] by simp_all

section \<open>The binary exponent and the float grid\<close>

lemma bitlen_pow_bounds:
  assumes "0 < n"
  shows "2 powi (bitlen n - 1) \<le> (of_int n :: rat)" and "(of_int n :: rat) < 2 powi bitlen n"
proof -
  have pos: "1 \<le> bitlen n" using bitlen_ge_iff_power [of 1 n] assms by simp
  have "(2::int) ^ nat (bitlen n - 1) \<le> n" and "n < 2 ^ nat (bitlen n)"
    using bitlen_bounds [OF assms] by simp_all
  then have "(of_int (2 ^ nat (bitlen n - 1)) :: rat) \<le> of_int n"
    and "(of_int n :: rat) < of_int (2 ^ nat (bitlen n))"
    by (simp_all only: of_int_le_iff of_int_less_iff)
  then show "2 powi (bitlen n - 1) \<le> (of_int n :: rat)" and "(of_int n :: rat) < 2 powi bitlen n"
    using pos by (simp_all add: power_int_def)
qed

lemma bin_exp_bounds:
  assumes "0 < x"
  shows "2 powi bin_exp x \<le> x" and "x < 2 powi (bin_exp x + 1)"
proof -
  obtain n d where q: "quotient_of x = (n, d)" by (cases "quotient_of x")
  have d: "0 < d" using quotient_of_denom_pos [OF q] .
  have x: "x = of_int n / of_int d" using quotient_of_div [OF q] .
  with assms d have n: "0 < n" by (simp add: zero_less_divide_iff)
  let ?k = "bitlen n - bitlen d"
  have two: "(2::rat) \<noteq> 0" by simp
  have lo: "2 powi (?k - 1) \<le> x"
  proof -
    have "2 powi (?k - 1) = 2 powi (bitlen n - 1) / (2 powi bitlen d :: rat)"
      by (simp add: power_int_diff)
    also have "\<dots> \<le> of_int n / of_int d"
      using bitlen_pow_bounds [OF n] bitlen_pow_bounds [OF d] d n
      by (intro frac_le) (simp_all add: less_imp_le)
    finally show ?thesis by (simp add: x)
  qed
  have hi: "x < 2 powi (?k + 1)"
  proof -
    have "of_int n / of_int d < (2 powi bitlen n / 2 powi (bitlen d - 1) :: rat)"
      using bitlen_pow_bounds [OF n] bitlen_pow_bounds [OF d] d n
      by (intro frac_less) simp_all
    also have "\<dots> = 2 powi (?k + 1)"
      by (simp add: power_int_diff power_int_add algebra_simps)
    finally show ?thesis by (simp add: x)
  qed
  show "2 powi bin_exp x \<le> x" and "x < 2 powi (bin_exp x + 1)"
    using lo hi by (auto simp: bin_exp_def q Let_def)
qed

lemma powi_2_mono: "a \<le> b \<Longrightarrow> 2 powi a \<le> (2 powi b :: rat)"
  by (rule power_int_increasing) simp_all

lemma powi_2_less_cancel: "2 powi a < (2 powi b :: rat) \<Longrightarrow> a < b"
  by (meson linorder_not_less powi_2_mono)

lemma bin_exp_unique:
  assumes "2 powi e \<le> x" and "x < 2 powi (e + 1)"
  shows "bin_exp x = e"
proof -
  have "0 < x" using assms(1) zero_less_power_int [of "2::rat" e] by linarith
  note b = bin_exp_bounds [OF this]
  from assms b have "2 powi e < (2 powi (bin_exp x + 1) :: rat)"
    and "2 powi bin_exp x < (2 powi (e + 1) :: rat)" by linarith+
  then show ?thesis by (auto dest!: powi_2_less_cancel)
qed

lemma bin_exp_mono:
  assumes "0 < x" and "x \<le> y"
  shows "bin_exp x \<le> bin_exp y"
proof -
  have "2 powi bin_exp x < (2 powi (bin_exp y + 1) :: rat)"
    using bin_exp_bounds [of x] bin_exp_bounds [of y] assms by linarith
  then show ?thesis by (auto dest!: powi_2_less_cancel)
qed

lemma bin_exp_scale: "0 < x \<Longrightarrow> bin_exp (x * 2 ^ k) = bin_exp x + int k"
  using bin_exp_bounds [of x]
  by (intro bin_exp_unique) (simp_all add: power_int_add field_simps)

lemma fl_0 [simp]: "fl 0 = 0"
  by (simp add: fl_def)

lemma fl_pos:
  "0 < x \<Longrightarrow> fl x = of_int (rhe (x / 2 powi (bin_exp x - 52))) * 2 powi (bin_exp x - 52)"
  by (simp add: fl_def Let_def)

lemma fl_binade:
  assumes "0 < x"
  shows "2 powi bin_exp x \<le> fl x" and "fl x \<le> 2 powi (bin_exp x + 1)"
proof -
  let ?e = "bin_exp x - 52"
  have e: "(2::rat) powi bin_exp x = of_int (2 ^ 52) * 2 powi ?e"
      "(2::rat) powi (bin_exp x + 1) = of_int (2 ^ 53) * 2 powi ?e"
    by (simp_all add: power_int_diff power_int_add)
  have pos: "0 < (2::rat) powi ?e" by simp
  have "of_int (2 ^ 52) \<le> x / 2 powi ?e" "x / 2 powi ?e \<le> of_int (2 ^ 53)"
    using bin_exp_bounds [OF assms] pos unfolding e by (simp_all add: field_simps)
  then have "rhe (of_int (2 ^ 52)) \<le> rhe (x / 2 powi ?e)" "rhe (x / 2 powi ?e) \<le> rhe (of_int (2 ^ 53))"
    by (simp_all only: rhe_mono)
  then have "2 ^ 52 \<le> rhe (x / 2 powi ?e)" "rhe (x / 2 powi ?e) \<le> 2 ^ 53"
    by (simp_all only: rhe_of_int)
  then have "of_int (2 ^ 52) \<le> (of_int (rhe (x / 2 powi ?e)) :: rat)"
    "(of_int (rhe (x / 2 powi ?e)) :: rat) \<le> of_int (2 ^ 53)"
    by (simp_all only: of_int_le_iff)
  then show "2 powi bin_exp x \<le> fl x" and "fl x \<le> 2 powi (bin_exp x + 1)"
    unfolding fl_pos [OF assms] e using pos by (simp_all only: mult_right_mono less_imp_le)
qed

lemma fl_mono_pos:
  assumes "0 < x" and "x \<le> y"
  shows "fl x \<le> fl y"
proof (cases "bin_exp x = bin_exp y")
  case True
  have y: "0 < y" using assms by simp
  show ?thesis unfolding fl_pos [OF assms(1)] fl_pos [OF y] True
    using assms(2) by (intro mult_right_mono) (simp_all add: rhe_mono divide_right_mono)
next
  case False
  have y: "0 < y" using assms by simp
  have "bin_exp x + 1 \<le> bin_exp y" using bin_exp_mono [OF assms] False by simp
  then have "2 powi (bin_exp x + 1) \<le> (2 powi bin_exp y :: rat)" by (rule powi_2_mono)
  with fl_binade(2) [OF assms(1)] fl_binade(1) [OF y] show ?thesis by linarith
qed

lemma fl_nonneg:
  assumes "0 \<le> x"
  shows "0 \<le> fl x"
proof (cases "x = 0")
  case False
  with assms have "0 < x" by simp
  then have "2 powi bin_exp x \<le> fl x" by (rule fl_binade)
  moreover have "0 < (2::rat) powi bin_exp x" by simp
  ultimately show ?thesis by linarith
qed simp

lemma fl_mono_nonneg: "0 \<le> x \<Longrightarrow> x \<le> y \<Longrightarrow> fl x \<le> fl y"
  using fl_mono_pos [of x y] fl_nonneg [of y] by (cases "x = 0") simp_all

lemma fl_scale:
  assumes "0 < x"
  shows "fl (x * 2 ^ k) = fl x * 2 ^ k"
proof -
  have pos: "0 < x * 2 ^ k" using assms by simp
  show ?thesis unfolding fl_pos [OF pos] fl_pos [OF assms] bin_exp_scale [OF assms]
    by (simp add: power_int_diff power_int_add field_simps)
qed

text \<open>A rational that is a float value.\<close>

definition is_double :: "rat \<Rightarrow> bool" where
  "is_double x \<longleftrightarrow> fl x = x"

lemma fl_small_int:
  assumes "0 < i" and "i \<le> 2 ^ 53"
  shows "fl (of_int i) = of_int i"
proof -
  let ?x = "of_int i :: rat"
  have x: "0 < ?x" using assms by simp
  have "?x \<le> of_int (2 ^ 53)" using assms(2) by (simp only: of_int_le_iff)
  then have "2 powi bin_exp ?x < (2 powi 54 :: rat)" using bin_exp_bounds(1) [OF x] by simp
  then have le: "bin_exp ?x \<le> 53" using powi_2_less_cancel [of "bin_exp ?x" 54] by linarith
  show ?thesis
  proof (cases "bin_exp ?x = 53")
    case True
    then have "of_int (2 ^ 53) \<le> ?x" using bin_exp_bounds(1) [OF x] by simp
    then have "i = 2 ^ 53" using assms(2) by (simp only: of_int_le_iff)
    then show ?thesis using fl_pos [OF x] rhe_of_int [of "2 ^ 52"] True by (simp add: power_int_def)
  next
    case False
    define k where "k = nat (52 - bin_exp ?x)"
    have e: "bin_exp ?x - 52 = - int k" using le False by (simp add: k_def)
    have "?x / 2 powi (bin_exp ?x - 52) = of_int (i * 2 ^ k)"
      unfolding e by (simp add: power_int_minus field_simps)
    then show ?thesis unfolding fl_pos [OF x] using e
      by (simp only: rhe_of_int) (simp add: power_int_minus field_simps)
  qed
qed

end
