(* ===== verification/Py_Value.thy ===== *)
theory Py_Value
  imports Py_Float Py_Text "HOL-Library.AList"
begin

text \<open>
  The JSON-like Python values the runtime stores and inspects (\<open>dict[str, Any]\<close> columns, request
  payloads, policy snapshots). A dictionary is the list of its items in insertion order, written
  with \<open>AList.update\<close>, which replaces an item in place and appends a new one, as \<open>d[k] = v\<close> does.
\<close>

datatype json =
    JNull
  | JBool bool
  | JInt int
  | JFloat pyfloat
  | JStr string
  | JList "json list"
  | JDict "(string \<times> json) list"

type_synonym dict = "(string \<times> json) list"

section \<open>Dictionaries\<close>

definition dget :: "dict \<Rightarrow> string \<Rightarrow> json option" where
  "dget d k = map_of d k"

definition dget_or :: "dict \<Rightarrow> string \<Rightarrow> json \<Rightarrow> json" where
  "dget_or d k v = (case dget d k of None \<Rightarrow> v | Some w \<Rightarrow> w)"

definition dset :: "string \<Rightarrow> json \<Rightarrow> dict \<Rightarrow> dict" where
  "dset k v d = AList.update k v d"

definition setdefault :: "string \<Rightarrow> json \<Rightarrow> dict \<Rightarrow> dict" where
  "setdefault k v d = (case dget d k of None \<Rightarrow> dset k v d | Some _ \<Rightarrow> d)"

text \<open>\<open>d | e\<close> and \<open>{**d, **e}\<close>: the items of \<open>e\<close> are stored over those of \<open>d\<close> in turn.\<close>

definition dmerge :: "dict \<Rightarrow> dict \<Rightarrow> dict" where
  "dmerge d e = foldl (\<lambda>acc kv. dset (fst kv) (snd kv) acc) d e"

definition ddel :: "string \<Rightarrow> dict \<Rightarrow> dict" where
  "ddel k d = AList.delete k d"

definition dkeys :: "dict \<Rightarrow> string list" where
  "dkeys d = map fst d"

definition jstr_opt :: "string option \<Rightarrow> json" where
  "jstr_opt s = (case s of None \<Rightarrow> JNull | Some t \<Rightarrow> JStr t)"

definition jopt :: "json option \<Rightarrow> json" where
  "jopt v = (case v of None \<Rightarrow> JNull | Some w \<Rightarrow> w)"

section \<open>Types, truth and comparison\<close>

fun is_str :: "json \<Rightarrow> bool" where
  "is_str (JStr _) = True"
| "is_str _ = False"

fun is_dict :: "json \<Rightarrow> bool" where
  "is_dict (JDict _) = True"
| "is_dict _ = False"

fun is_list :: "json \<Rightarrow> bool" where
  "is_list (JList _) = True"
| "is_list _ = False"

fun f_eq :: "pyfloat \<Rightarrow> pyfloat \<Rightarrow> bool" where
  "f_eq (Fin a) (Fin b) = (a = b)"
| "f_eq PosInf PosInf = True"
| "f_eq NegInf NegInf = True"
| "f_eq _ _ = False"

fun f_lt :: "pyfloat \<Rightarrow> pyfloat \<Rightarrow> bool" where
  "f_lt (Fin a) (Fin b) = (a < b)"
| "f_lt (Fin _) PosInf = True"
| "f_lt NegInf (Fin _) = True"
| "f_lt NegInf PosInf = True"
| "f_lt _ _ = False"

text \<open>The number a value denotes: \<open>bool\<close> is a subclass of \<open>int\<close>, and Python compares ints and floats exactly.\<close>

fun num_of :: "json \<Rightarrow> pyfloat option" where
  "num_of (JBool b) = Some (Fin (if b then 1 else 0))"
| "num_of (JInt i) = Some (Fin (of_int i))"
| "num_of (JFloat f) = Some f"
| "num_of _ = None"

fun truthy :: "json \<Rightarrow> bool" where
  "truthy JNull = False"
| "truthy (JBool b) = b"
| "truthy (JInt i) = (i \<noteq> 0)"
| "truthy (JFloat f) = (\<not> f_eq f (Fin 0))"
| "truthy (JStr s) = (s \<noteq> [])"
| "truthy (JList xs) = (xs \<noteq> [])"
| "truthy (JDict d) = (d \<noteq> [])"

function py_eq :: "json \<Rightarrow> json \<Rightarrow> bool" where
  "py_eq a b =
     (case (num_of a, num_of b) of
        (Some x, Some y) \<Rightarrow> f_eq x y
      | (None, None) \<Rightarrow>
          (case (a, b) of
             (JNull, JNull) \<Rightarrow> True
           | (JStr s, JStr t) \<Rightarrow> s = t
           | (JList xs, JList ys) \<Rightarrow>
               length xs = length ys \<and> (\<forall>p \<in> set (zip xs ys). py_eq (fst p) (snd p))
           | (JDict d, JDict e) \<Rightarrow>
               length d = length e \<and>
               (\<forall>p \<in> set d. case map_of e (fst p) of None \<Rightarrow> False | Some w \<Rightarrow> py_eq (snd p) w)
           | _ \<Rightarrow> False)
      | _ \<Rightarrow> False)"
  by pat_completeness auto

lemma size_in_list: "x \<in> set xs \<Longrightarrow> size x < Suc (size_list size xs)" for x :: json
  by (induction xs) auto

lemma size_in_dict: "p \<in> set d \<Longrightarrow> size (snd p) < Suc (size_list (size_prod (\<lambda>_. 0) size) d)"
  for d :: dict
proof -
  assume "p \<in> set d"
  moreover have "size (snd p) \<le> size_prod (\<lambda>_. 0) size p" by (simp add: size_prod_simp)
  ultimately have "size (snd p) \<le> size_list (size_prod (\<lambda>_. 0) size) d"
    by (rule size_list_estimation')
  then show ?thesis by simp
qed

termination py_eq
  by (relation "measure (\<lambda>(a, b). size a)")
    (auto simp: size_in_list set_zip_leftD dest!: size_in_dict set_zip_leftD)

declare py_eq.simps [simp del]

section \<open>Facts\<close>

lemma dget_dset: "dget (dset k v d) k' = (if k' = k then Some v else dget d k')"
  by (simp add: dget_def dset_def update_conv')

lemma dget_Nil [simp]: "dget [] k = None"
  by (simp add: dget_def)

lemma dget_Cons [simp]: "dget ((k', v) # d) k = (if k = k' then Some v else dget d k)"
  by (simp add: dget_def)

lemma dget_setdefault:
  "dget (setdefault k v d) k' = (if k' = k \<and> dget d k = None then Some v else dget d k')"
  by (auto simp: setdefault_def dget_dset split: option.splits)

lemma dget_dmerge:
  "distinct (map fst e) \<Longrightarrow>
   dget (dmerge d e) k = (case dget e k of None \<Rightarrow> dget d k | Some v \<Rightarrow> Some v)"
proof (induction e arbitrary: d)
  case Nil
  then show ?case by (simp add: dmerge_def)
next
  case (Cons kv e)
  obtain k' v where kv: "kv = (k', v)" by (cases kv)
  have "dmerge d (kv # e) = dmerge (dset k' v d) e" by (simp add: dmerge_def kv)
  moreover have "k = k' \<Longrightarrow> dget e k = None"
    using Cons.prems by (simp add: kv dget_def map_of_eq_None_iff)
  ultimately show ?case
    using Cons by (auto simp: kv dget_dset split: option.splits)
qed

lemma distinct_dset: "distinct (map fst d) \<Longrightarrow> distinct (map fst (dset k v d))"
  by (simp add: dset_def distinct_update)

end
