(* ===== verification/Py_Float_Text.thy ===== *)
theory Py_Float_Text
  imports Py_Float Py_Text
begin

text \<open>
  The text of a float: \<open>repr\<close> (the shortest decimal that reads back as the same float, found by
  trying one to seventeen significant digits) and the fixed-point format \<open>:.nf\<close>.
\<close>

text \<open>
  The decimal exponent: \<open>10 ^ e \<le> x < 10 ^ (e + 1)\<close>. Below one it is found by scaling up; a
  positive float is at least \<open>2 ^ -1074\<close>, so 330 steps are enough.
\<close>

fun scale_up :: "nat \<Rightarrow> rat \<Rightarrow> nat" where
  "scale_up 0 x = 0"
| "scale_up (Suc n) x = (if 1 \<le> x then 0 else Suc (scale_up n (x * 10)))"

definition dec_exp :: "rat \<Rightarrow> int" where
  "dec_exp x = (if 1 \<le> x then int (length (show_int \<lfloor>x\<rfloor>)) - 1 else - int (scale_up 330 x))"

text \<open>The best decimal with \<open>n\<close> significant digits, as digits and the power of ten of the last one.\<close>

definition sig_digits :: "nat \<Rightarrow> rat \<Rightarrow> int \<times> int" where
  "sig_digits n x = (let e = dec_exp x - int n + 1; m = rhe (x / 10 powi e) in
     if m = 10 ^ n then (m div 10, e + 1) else (m, e))"

definition reads_back :: "rat \<Rightarrow> int \<times> int \<Rightarrow> bool" where
  "reads_back x me \<longleftrightarrow> fl (of_int (fst me) * 10 powi snd me) = x"

fun first_exact :: "nat list \<Rightarrow> rat \<Rightarrow> int \<times> int" where
  "first_exact [] x = sig_digits 17 x"
| "first_exact (n # ns) x =
     (if reads_back x (sig_digits n x) then sig_digits n x else first_exact ns x)"

definition shortest_digits :: "rat \<Rightarrow> int \<times> int" where
  "shortest_digits x = first_exact [1..<18] x"

definition place_point :: "string \<Rightarrow> int \<Rightarrow> string" where
  "place_point ds decpt =
     (if decpt \<le> 0 then ''0.'' @ replicate (nat (- decpt)) (CHR ''0'') @ ds
      else if int (length ds) \<le> decpt
      then ds @ replicate (nat decpt - length ds) (CHR ''0'') @ ''.0''
      else take (nat decpt) ds @ ''.'' @ drop (nat decpt) ds)"

definition exponent_form :: "string \<Rightarrow> int \<Rightarrow> string" where
  "exponent_form ds ex =
     (case ds of [] \<Rightarrow> [] | d # rest \<Rightarrow>
        d # (if rest = [] then [] else CHR ''.'' # rest) @
        (if ex < 0 then ''e-'' else ''e+'') @
        (let t = show_int \<bar>ex\<bar> in if length t = 1 then CHR ''0'' # t else t))"

definition float_repr_pos :: "rat \<Rightarrow> string" where
  "float_repr_pos x =
     (let (m, e) = shortest_digits x; ds = show_int m; decpt = int (length ds) + e in
        if -4 < decpt \<and> decpt \<le> 16 then place_point ds decpt else exponent_form ds (decpt - 1))"

definition float_repr :: "rat \<Rightarrow> string" where
  "float_repr x = (if x = 0 then ''0.0''
     else if x < 0 then CHR ''-'' # float_repr_pos (- x) else float_repr_pos x)"

definition float_fixed :: "nat \<Rightarrow> rat \<Rightarrow> string" where
  "float_fixed n x =
     (let ds = show_int \<bar>rhe (x * 10 ^ n)\<bar>;
          padded = replicate (n + 1 - length ds) (CHR ''0'') @ ds;
          k = length padded - n in
        (if x < 0 then ''-'' else '''') @ take k padded @
        (if n = 0 then '''' else CHR ''.'' # drop k padded))"

text \<open>Samples against the interpreter's own output.\<close>

lemma float_repr_samples:
  "float_repr (fl (1/10)) = ''0.1''"
  "float_repr (fl (515/10000)) = ''0.0515''"
  "float_repr 60 = ''60.0''"
  by code_simp+

lemma float_fixed_samples:
  "float_fixed 3 (fl (96/100)) = ''0.960''"
  "float_fixed 3 1 = ''1.000''"
  by code_simp+

end
