(* ===== verification/Py_Uuid.thy ===== *)
theory Py_Uuid
  imports Py_Text
begin

text \<open>
  \<open>uuid.UUID\<close>: a 128-bit word, its canonical text \<open>str(u)\<close>, and the constructor from a string as
  the standard library has it, including what \<open>int(s, 16)\<close> tolerates.
\<close>

type_synonym uuid = "128 word"

section \<open>Printing\<close>

definition hex_char :: "int \<Rightarrow> char" where
  "hex_char d = (if d < 10 then char_of (48 + nat d) else char_of (87 + nat d))"

text \<open>\<open>'%0<k>x' % n\<close> for \<open>0 \<le> n < 16 ^ k\<close>.\<close>

fun hex_fixed :: "nat \<Rightarrow> int \<Rightarrow> string" where
  "hex_fixed 0 n = []"
| "hex_fixed (Suc k) n = hex_fixed k (n div 16) @ [hex_char (n mod 16)]"

definition uuid_hex :: "uuid \<Rightarrow> string" where
  "uuid_hex u = hex_fixed 32 (uint u)"

definition dashed :: "string \<Rightarrow> string" where
  "dashed h = take 8 h @ ''-'' @ take 4 (drop 8 h) @ ''-'' @ take 4 (drop 12 h) @ ''-'' @
     take 4 (drop 16 h) @ ''-'' @ drop 20 h"

definition uuid_str :: "uuid \<Rightarrow> string" where
  "uuid_str u = dashed (uuid_hex u)"

section \<open>Parsing\<close>

definition hex_value :: "char \<Rightarrow> int option" where
  "hex_value c =
    (if is_ascii_digit c then Some (int (code c) - 48)
     else if 97 \<le> code c \<and> code c \<le> 102 then Some (int (code c) - 87)
     else if 65 \<le> code c \<and> code c \<le> 70 then Some (int (code c) - 55)
     else None)"

text \<open>The digits of an integer literal: one or more, single underscores between them.\<close>

fun hex_literal :: "int \<Rightarrow> string \<Rightarrow> int option" where
  "hex_literal acc [] = Some acc"
| "hex_literal acc (c # cs) =
    (if c = CHR ''_''
     then (case cs of
             [] \<Rightarrow> None
           | d # ds \<Rightarrow> (case hex_value d of None \<Rightarrow> None | Some v \<Rightarrow> hex_literal (16 * acc + v) ds))
     else (case hex_value c of None \<Rightarrow> None | Some v \<Rightarrow> hex_literal (16 * acc + v) cs))"

definition hex_digits :: "string \<Rightarrow> int option" where
  "hex_digits s = (case s of
     [] \<Rightarrow> None
   | c # cs \<Rightarrow> (case hex_value c of None \<Rightarrow> None | Some v \<Rightarrow> hex_literal v cs))"

text \<open>After the sign: an optional prefix \<open>0x\<close>, which one underscore may follow.\<close>

definition hex_unsigned :: "string \<Rightarrow> int option" where
  "hex_unsigned s = (case s of
     a # b # rest \<Rightarrow>
       if a = CHR ''0'' \<and> (b = CHR ''x'' \<or> b = CHR ''X'')
       then (case rest of c # cs \<Rightarrow> hex_digits (if c = CHR ''_'' then cs else rest) | [] \<Rightarrow> None)
       else hex_digits s
   | _ \<Rightarrow> hex_digits s)"

definition int16 :: "string \<Rightarrow> int option" where
  "int16 s = (case strip s of
     [] \<Rightarrow> None
   | c # cs \<Rightarrow>
       if c = CHR ''-'' then map_option uminus (hex_unsigned cs)
       else if c = CHR ''+'' then hex_unsigned cs
       else hex_unsigned (c # cs))"

text \<open>\<open>s.replace(sub, '''')\<close> for a non-empty \<open>sub\<close>: the occurrences from the left, not overlapping.\<close>

function remove_sub :: "string \<Rightarrow> string \<Rightarrow> string" where
  "remove_sub sub s = (case s of
     [] \<Rightarrow> []
   | c # cs \<Rightarrow> if sub \<noteq> [] \<and> take (length sub) s = sub then remove_sub sub (drop (length sub) s)
              else c # remove_sub sub cs)"
  by pat_completeness auto
termination
  by (relation "measure (\<lambda>(_, s). length s)") auto

declare remove_sub.simps [simp del]

definition UUID :: "string \<Rightarrow> uuid res" where
  "UUID s =
    (let hex = filter (\<lambda>c. c \<noteq> CHR ''-'')
                 (strip_chars ''{}'' (remove_sub ''uuid:'' (remove_sub ''urn:'' s)))
     in if length hex \<noteq> 32 then Inl (ValueError ''badly formed hexadecimal UUID string'')
        else (case int16 hex of
                None \<Rightarrow> Inl (ValueError ''invalid literal for int() with base 16'')
              | Some n \<Rightarrow> if 0 \<le> n \<and> n < 2 ^ 128 then Inr (word_of_int n)
                         else Inl (ValueError ''int is out of range (need a 128-bit value)'')))"

section \<open>Round trip\<close>

lemma hex_char_code: "0 \<le> d \<Longrightarrow> d < 16 \<Longrightarrow> code (hex_char d) = (if d < 10 then 48 + nat d else 87 + nat d)"
  by (auto simp: hex_char_def code_def)

lemma hex_value_hex_char [simp]: "0 \<le> d \<Longrightarrow> d < 16 \<Longrightarrow> hex_value (hex_char d) = Some d"
  by (auto simp: hex_value_def is_ascii_digit_def hex_char_code split: if_splits)

definition is_hex :: "char \<Rightarrow> bool" where
  "is_hex c \<longleftrightarrow> (\<exists>d. 0 \<le> d \<and> d < 16 \<and> c = hex_char d)"

lemma is_hex_code:
  assumes "is_hex c"
  shows "48 \<le> code c \<and> code c \<le> 57 \<or> 97 \<le> code c \<and> code c \<le> 102"
proof -
  obtain d where "0 \<le> d" "d < 16" "c = hex_char d" using assms by (auto simp: is_hex_def)
  then show ?thesis by (cases "d < 10") (simp_all add: hex_char_code nat_le_iff)
qed

lemma is_hex_not:
  "\<not> is_hex (CHR ''-'')" "\<not> is_hex (CHR ''u'')" "\<not> is_hex (CHR ''_'')" "\<not> is_hex (CHR ''x'')"
  "\<not> is_hex (CHR ''X'')" "\<not> is_hex (CHR ''+'')" "\<not> is_hex (CHR ''{'')" "\<not> is_hex (CHR ''}'')"
  by (auto dest!: is_hex_code simp: code_def)

lemma is_hex_not_space: "is_hex c \<Longrightarrow> \<not> is_space c"
  by (auto dest!: is_hex_code simp: is_space_def)

lemma is_hex_mod: "is_hex (hex_char (n mod 16))"
  unfolding is_hex_def by (rule exI [of _ "n mod 16"]) simp

lemma hex_fixed_is_hex: "c \<in> set (hex_fixed k n) \<Longrightarrow> is_hex c"
  by (induction k arbitrary: n) (auto simp: is_hex_mod)

lemma length_hex_fixed [simp]: "length (hex_fixed k n) = k"
  by (induction k arbitrary: n) auto

lemma hex_literal_append:
  "(\<forall>c \<in> set s. is_hex c) \<Longrightarrow> 0 \<le> d \<Longrightarrow> d < 16 \<Longrightarrow>
    hex_literal acc (s @ [hex_char d]) = map_option (\<lambda>v. 16 * v + d) (hex_literal acc s)"
proof (induction s arbitrary: acc)
  case Nil
  then have "hex_char d \<noteq> CHR ''_''" using is_hex_not(3) by (auto simp: is_hex_def)
  with Nil show ?case by simp
next
  case (Cons c s)
  then have "c \<noteq> CHR ''_''" using is_hex_not(3) by auto
  with Cons show ?case by (auto split: option.splits)
qed

lemma hex_literal_hex_fixed:
  "0 \<le> n \<Longrightarrow> n < 16 ^ k \<Longrightarrow> hex_literal acc (hex_fixed k n) = Some (16 ^ k * acc + n)"
proof (induction k arbitrary: n)
  case (Suc k)
  have "n div 16 < 16 ^ k" using Suc.prems by (simp add: div_less_iff_less_mult mult.commute)
  moreover have "\<forall>c \<in> set (hex_fixed k (n div 16)). is_hex c" by (auto dest: hex_fixed_is_hex)
  ultimately show ?case
    using Suc by (simp add: hex_literal_append algebra_simps)
qed simp

lemma hex_digits_eq_literal: "s \<noteq> [] \<Longrightarrow> (\<forall>c \<in> set s. is_hex c) \<Longrightarrow> hex_digits s = hex_literal 0 s"
  using is_hex_not(3) by (cases s) (auto simp: hex_digits_def split: option.splits)

lemma strip_hex: "(\<forall>c \<in> set s. is_hex c) \<Longrightarrow> strip s = s"
proof -
  assume h: "\<forall>c \<in> set s. is_hex c"
  have "dropWhile is_space xs = xs" if "\<forall>c \<in> set xs. is_hex c" for xs
    using that is_hex_not_space by (cases xs) auto
  with h show "strip s = s" by (simp add: strip_def lstrip_def rstrip_def)
qed

lemma int16_hex: "s \<noteq> [] \<Longrightarrow> (\<forall>c \<in> set s. is_hex c) \<Longrightarrow> int16 s = hex_literal 0 s"
proof -
  assume s: "s \<noteq> []" and h: "\<forall>c \<in> set s. is_hex c"
  have "hex_unsigned s = hex_digits s"
    using h is_hex_not(4,5) by (auto simp: hex_unsigned_def split: list.splits)
  then show "int16 s = hex_literal 0 s"
    using s h is_hex_not(1,6) hex_digits_eq_literal [OF s h]
    by (auto simp: int16_def strip_hex split: list.splits)
qed

lemma remove_sub_absent: "sub \<noteq> [] \<Longrightarrow> hd sub \<notin> set s \<Longrightarrow> remove_sub sub s = s"
proof (induction s)
  case (Cons c s)
  then have "take (length sub) (c # s) \<noteq> sub"
    by (metis hd_in_set in_set_takeD)
  with Cons show ?case by (simp add: remove_sub.simps [of sub "c # s"])
qed (simp add: remove_sub.simps)

lemma set_dashed: "set (dashed h) \<subseteq> set h \<union> {CHR ''-''}"
  unfolding dashed_def by (auto dest!: in_set_takeD in_set_dropD)

lemma filter_dashed:
  assumes "CHR ''-'' \<notin> set h"
  shows "filter (\<lambda>c. c \<noteq> CHR ''-'') (dashed h) = h"
proof -
  have f: "filter (\<lambda>c. c \<noteq> CHR ''-'') (take n (drop m h)) = take n (drop m h)"
    "filter (\<lambda>c. c \<noteq> CHR ''-'') (take n h) = take n h"
    "filter (\<lambda>c. c \<noteq> CHR ''-'') (drop n h) = drop n h" for n m
    using assms by (auto simp: filter_id_conv dest!: in_set_takeD in_set_dropD)
  have j: "take 4 (drop n h) @ drop (n + 4) h = drop n h" for n
    by (metis append_take_drop_id drop_drop add.commute)
  have "take 8 h @ take 4 (drop 8 h) @ take 4 (drop 12 h) @ take 4 (drop 16 h) @ drop 20 h = h"
    using j [of 16] j [of 12] j [of 8] by simp
  then show ?thesis unfolding dashed_def by (simp add: f)
qed

lemma strip_chars_absent: "set s \<inter> set cs = {} \<Longrightarrow> strip_chars cs s = s"
proof -
  assume a: "set s \<inter> set cs = {}"
  have "dropWhile (\<lambda>c. c \<in> set cs) xs = xs" if "set xs \<inter> set cs = {}" for xs
    using that by (cases xs) auto
  with a show ?thesis by (simp add: strip_chars_def)
qed

text \<open>The text of a UUID parses back to it.\<close>

lemma UUID_uuid_str: "UUID (uuid_str u) = Inr u"
proof -
  let ?h = "uuid_hex u"
  have hex: "\<forall>c \<in> set ?h. is_hex c" by (auto simp: uuid_hex_def dest: hex_fixed_is_hex)
  have len: "length ?h = 32" by (simp add: uuid_hex_def)
  then have ne: "?h \<noteq> []" by auto
  have chars: "set (uuid_str u) \<subseteq> set ?h \<union> {CHR ''-''}" using set_dashed by (simp only: uuid_str_def)
  have "remove_sub ''urn:'' (uuid_str u) = uuid_str u"
    by (rule remove_sub_absent) (use chars hex is_hex_not(2) in auto)
  moreover have "remove_sub ''uuid:'' (uuid_str u) = uuid_str u"
    by (rule remove_sub_absent) (use chars hex is_hex_not(2) in auto)
  moreover have "strip_chars ''{}'' (uuid_str u) = uuid_str u"
    by (rule strip_chars_absent) (use chars hex is_hex_not(7,8) in auto)
  moreover have "filter (\<lambda>c. c \<noteq> CHR ''-'') (uuid_str u) = ?h"
    using hex is_hex_not(1) by (auto simp: uuid_str_def intro: filter_dashed)
  moreover have "uint u < 16 ^ 32" using uint_lt2p [of u] by simp
  then have "int16 ?h = Some (uint u)"
    using hex_literal_hex_fixed [of "uint u" 32 0] int16_hex [OF ne hex] by (simp add: uuid_hex_def)
  moreover have "0 \<le> uint u \<and> uint u < 2 ^ 128" using uint_lt2p [of u] by simp
  ultimately show ?thesis by (simp add: UUID_def Let_def len)
qed

lemma uuid_str_inject: "uuid_str u = uuid_str v \<longleftrightarrow> u = v"
  by (metis UUID_uuid_str Inr_inject)

lemma UUID_ValueError: "UUID s = Inl e \<Longrightarrow> is_ValueError e"
  by (auto simp: UUID_def Let_def split: if_splits option.splits)

end
