(* ===== verification/Sha256.thy ===== *)
theory Sha256
  imports Py_Uuid
begin

text \<open>
  \<open>hashlib.sha256(data).hexdigest()\<close> on a list of bytes, following FIPS 180-4
  on 32-bit words, and \<open>str.encode(''utf-8'')\<close> for the model's code points.
\<close>

unbundle bit_operations_syntax

type_synonym w32 = "32 word"

text \<open>
  The standard takes its constants from the fractional parts of roots of the first primes: the
  integer root of \<open>p * 2 ^ (32 * e)\<close>, cut to 32 bits, is the first 32 bits of the fraction.
\<close>

fun root_from :: "nat \<Rightarrow> nat \<Rightarrow> nat \<Rightarrow> nat \<Rightarrow> nat" where
  "root_from e n 0 r = r"
| "root_from e n (Suc b) r = root_from e n b (if (r + 2 ^ b) ^ e \<le> n then r + 2 ^ b else r)"

definition root_fraction :: "nat \<Rightarrow> nat \<Rightarrow> w32" where
  "root_fraction e p = of_nat (root_from e (p * 2 ^ (32 * e)) 40 0)"

definition primes_below :: "nat \<Rightarrow> nat list" where
  "primes_below n = filter (\<lambda>p. list_all (\<lambda>q. p mod q \<noteq> 0) [2..<p]) [2..<n]"

definition sha_k :: "w32 list" where
  "sha_k = map (root_fraction 3) (primes_below 312)"

definition sha_init :: "w32 list" where
  "sha_init = map (root_fraction 2) (primes_below 20)"

definition rotr :: "nat \<Rightarrow> w32 \<Rightarrow> w32" where
  "rotr n x = drop_bit n x OR push_bit (32 - n) x"

definition big_sigma0 :: "w32 \<Rightarrow> w32" where
  "big_sigma0 x = rotr 2 x XOR rotr 13 x XOR rotr 22 x"

definition big_sigma1 :: "w32 \<Rightarrow> w32" where
  "big_sigma1 x = rotr 6 x XOR rotr 11 x XOR rotr 25 x"

definition small_sigma0 :: "w32 \<Rightarrow> w32" where
  "small_sigma0 x = rotr 7 x XOR rotr 18 x XOR drop_bit 3 x"

definition small_sigma1 :: "w32 \<Rightarrow> w32" where
  "small_sigma1 x = rotr 17 x XOR rotr 19 x XOR drop_bit 10 x"

text \<open>The message schedule, latest word first.\<close>

fun extend_schedule :: "nat \<Rightarrow> w32 list \<Rightarrow> w32 list" where
  "extend_schedule 0 ws = ws"
| "extend_schedule (Suc n) ws =
     extend_schedule n ((small_sigma1 (ws ! 1) + ws ! 6 + small_sigma0 (ws ! 14) + ws ! 15) # ws)"

definition sha_round :: "w32 list \<Rightarrow> w32 \<times> w32 \<Rightarrow> w32 list" where
  "sha_round st kw = (case st of
     [a, b, c, d, e, f, g, h] \<Rightarrow>
       (let t1 = h + big_sigma1 e + ((e AND f) XOR (NOT e AND g)) + fst kw + snd kw;
            t2 = big_sigma0 a + ((a AND b) XOR (a AND c) XOR (b AND c))
        in [t1 + t2, a, b, c, d + t1, e, f, g])
   | _ \<Rightarrow> st)"

definition sha_block :: "w32 list \<Rightarrow> w32 list \<Rightarrow> w32 list" where
  "sha_block st block =
     map (\<lambda>(x, y). x + y) (zip st (foldl sha_round st
       (zip sha_k (rev (extend_schedule 48 (rev block))))))"

fun words_of :: "int list \<Rightarrow> w32 list" where
  "words_of (a # b # c # d # rest) =
     word_of_int (((a * 256 + b) * 256 + c) * 256 + d) # words_of rest"
| "words_of _ = []"

fun blocks_of :: "w32 list \<Rightarrow> w32 list list" where
  "blocks_of [] = []"
| "blocks_of (w # ws) = take 16 (w # ws) # blocks_of (drop 15 ws)"

fun big_endian :: "nat \<Rightarrow> int \<Rightarrow> int list" where
  "big_endian 0 n = []"
| "big_endian (Suc k) n = big_endian k (n div 256) @ [n mod 256]"

definition sha_pad :: "int list \<Rightarrow> int list" where
  "sha_pad bytes = bytes @ 128 # replicate (nat ((55 - int (length bytes)) mod 64)) 0
     @ big_endian 8 (8 * int (length bytes))"

definition sha256_hexdigest :: "int list \<Rightarrow> string" where
  "sha256_hexdigest bytes =
     concat (map (\<lambda>w. hex_fixed 8 (uint w))
       (foldl sha_block sha_init (blocks_of (words_of (sha_pad bytes)))))"

definition utf8_encode :: "string \<Rightarrow> int list" where
  "utf8_encode s = concat (map (\<lambda>c. if code c < 128 then [int (code c)]
     else [192 + int (code c) div 64, 128 + int (code c) mod 64]) s)"

section \<open>Facts\<close>

lemma primes_below_20: "primes_below 20 = [2, 3, 5, 7, 11, 13, 17, 19]"
  by code_simp

lemma length_utf8_encode: "length (utf8_encode s) = utf8_length s"
  by (induction s) (auto simp: utf8_encode_def utf8_length_def)

lemma length_sha_round [simp]: "length (sha_round st kw) = length st"
  by (auto simp: sha_round_def Let_def split: list.splits)

lemma length_sha_rounds [simp]: "length (foldl sha_round st kws) = length st"
  by (induction kws arbitrary: st) simp_all

lemma length_sha_blocks [simp]: "length (foldl sha_block st bs) = length st"
  by (induction bs arbitrary: st) (simp_all add: sha_block_def)

lemma length_hexdigest: "length (sha256_hexdigest bytes) = 64"
proof -
  have "length (concat (map (\<lambda>w. hex_fixed 8 (uint w)) ws)) = 8 * length ws" for ws :: "w32 list"
    by (induction ws) simp_all
  then show ?thesis by (simp add: sha256_hexdigest_def primes_below_20 sha_init_def)
qed

lemma hexdigest_is_hex: "c \<in> set (sha256_hexdigest bytes) \<Longrightarrow> is_hex c"
  by (auto simp: sha256_hexdigest_def dest: hex_fixed_is_hex)

end
