(* ===== verification/Py_Json.thy ===== *)
theory Py_Json
  imports Py_Value Py_Float_Text Sha256 "HOL-Library.Multiset"
begin

text \<open>
  \<open>json.dumps(v, separators=('','', '':''))\<close> with either setting of \<open>sort_keys\<close> and of \<open>ensure_ascii\<close>, and the
  request hash of \<open>application/runs.py\<close> over it.
\<close>

section \<open>Printing\<close>

definition escape_char :: "bool \<Rightarrow> char \<Rightarrow> string" where
  "escape_char ascii c =
    (if c = CHR 0x22 then [CHR 0x5c, CHR 0x22]
     else if c = CHR 0x5c then [CHR 0x5c, CHR 0x5c]
     else if c = CHR 0x08 then [CHR 0x5c, CHR ''b'']
     else if c = CHR 0x0c then [CHR 0x5c, CHR ''f'']
     else if c = CHR 0x0a then [CHR 0x5c, CHR ''n'']
     else if c = CHR 0x0d then [CHR 0x5c, CHR ''r'']
     else if c = CHR 0x09 then [CHR 0x5c, CHR ''t'']
     else if code c < 32 \<or> ascii \<and> 126 < code c
     then CHR 0x5c # CHR ''u'' # hex_fixed 4 (int (code c))
     else [c])"

definition dump_str :: "bool \<Rightarrow> string \<Rightarrow> string" where
  "dump_str ascii s = CHR 0x22 # concat (map (escape_char ascii) s) @ [CHR 0x22]"

fun dump_float :: "pyfloat \<Rightarrow> string" where
  "dump_float (Fin q) = float_repr q"
| "dump_float PosInf = ''Infinity''"
| "dump_float NegInf = ''-Infinity''"
| "dump_float NaN = ''NaN''"

text \<open>The items of an object in the order they are written: by key under \<open>sort_keys=True\<close>, else as they are.\<close>

definition order_keys :: "bool \<Rightarrow> (string \<times> 'a) list \<Rightarrow> (string \<times> 'a) list" where
  "order_keys sorting d = (if sorting then sort_key fst d else d)"

lemma set_order_keys [simp]: "set (order_keys so d) = set d" "length (order_keys so d) = length d" "order_keys so [] = []"
  "order_keys True d = sort_key fst d" "order_keys False d = d"
  by (simp_all add: order_keys_def)

function json_dump :: "bool \<Rightarrow> bool \<Rightarrow> json \<Rightarrow> string" where
  "json_dump so ascii JNull = ''null''"
| "json_dump so ascii (JBool b) = (if b then ''true'' else ''false'')"
| "json_dump so ascii (JInt i) = show_int i"
| "json_dump so ascii (JFloat f) = dump_float f"
| "json_dump so ascii (JStr s) = dump_str ascii s"
| "json_dump so ascii (JList xs) = CHR ''['' # join '','' (map (json_dump so ascii) xs) @ '']''"
| "json_dump so ascii (JDict d) = CHR ''{'' #
     join '','' (map snd (order_keys so
       (map (\<lambda>kv. (fst kv, dump_str ascii (fst kv) @ '':'' @ json_dump so ascii (snd kv))) d))) @ ''}''"
  by pat_completeness auto
termination
  by (relation "measure (\<lambda>(_, _, v). size v)") (auto simp: size_in_list dest!: size_in_dict)

declare json_dump.simps(6,7) [simp del]

abbreviation dumps :: "bool \<Rightarrow> json \<Rightarrow> string" where
  "dumps \<equiv> json_dump True"

section \<open>The request hash\<close>

definition canonical_request_hash :: "dict \<Rightarrow> dict \<Rightarrow> string" where
  "canonical_request_hash input_payload policy_snapshot =
    sha256_hexdigest (utf8_encode (dumps False
      (JDict [(''input'', JDict input_payload), (''policy'', JDict policy_snapshot)])))"

section \<open>Key order does not matter\<close>

text \<open>Two values with the same content: dictionaries may list their keys in different orders.\<close>

inductive same_json :: "json \<Rightarrow> json \<Rightarrow> bool" where
  same_refl: "same_json v v"
| same_list: "list_all2 same_json xs ys \<Longrightarrow> same_json (JList xs) (JList ys)"
| same_dict: "distinct (map fst d) \<Longrightarrow> distinct (map fst e) \<Longrightarrow> set (map fst d) = set (map fst e) \<Longrightarrow>
    (\<And>k v w. map_of d k = Some v \<Longrightarrow> map_of e k = Some w \<Longrightarrow> same_json v w) \<Longrightarrow>
    same_json (JDict d) (JDict e)"

text \<open>Sorting by distinct keys leaves one order only.\<close>

lemma sort_key_eqI:
  assumes "distinct (map fst xs)" "set xs = set ys" "distinct (map fst ys)"
  shows "sort_key fst xs = sort_key (fst :: 'a::linorder \<times> 'b \<Rightarrow> 'a) ys"
proof -
  have "mset xs = mset ys"
    using assms by (simp add: distinct_map set_eq_iff_mset_eq_distinct)
  moreover have "inj_on fst (set xs)" using assms(1) by (simp add: distinct_map)
  ultimately show ?thesis
    by (metis (no_types, lifting) distinct_map assms(1) mset_sort properties_for_sort_key
        sort_key_inj_key_eq sorted_sort_key)
qed

lemma dict_of_map: "distinct (map fst d) \<Longrightarrow> (k, v) \<in> set d \<longleftrightarrow> map_of d k = Some v"
  by simp

lemma dumps_same: "same_json v w \<Longrightarrow> dumps a v = dumps a w"
proof (induction rule: same_json.induct)
  case (same_list xs ys)
  then have "map (dumps a) xs = map (dumps a) ys"
    by (induction xs ys rule: list_all2_induct) auto
  then show ?case by (simp add: json_dump.simps order_keys_def)
next
  case (same_dict d e)
  let ?entry = "\<lambda>kv. (fst kv, dump_str a (fst kv) @ '':'' @ dumps a (snd kv))"
  have "?entry ` set d = ?entry ` set e"
  proof -
    have sub: "?entry ` set x \<subseteq> ?entry ` set y"
      if "distinct (map fst x)" "distinct (map fst y)" "set (map fst x) = set (map fst y)"
        and eq: "\<And>k v w. map_of x k = Some v \<Longrightarrow> map_of y k = Some w \<Longrightarrow> dumps a v = dumps a w"
      for x y :: dict
    proof
      fix p assume "p \<in> ?entry ` set x"
      then obtain k v where kv: "(k, v) \<in> set x" and p: "p = ?entry (k, v)" by auto
      then have "k \<in> set (map fst y)" using that(3) by (metis fst_conv image_eqI set_map)
      then obtain w where w: "map_of y k = Some w"
        by (metis map_of_eq_None_iff not_None_eq set_map)
      moreover have "map_of x k = Some v" using kv that(1) by simp
      ultimately have "dumps a v = dumps a w" using eq by blast
      then show "p \<in> ?entry ` set y"
        using map_of_SomeD [OF w] p by (auto intro!: image_eqI [of _ _ "(k, w)"])
    qed
    have "dumps a v = dumps a w" if "map_of d k = Some v" "map_of e k = Some w" for k v w
      using same_dict.IH that by blast
    then show ?thesis
      using sub [of d e] sub [of e d] same_dict.hyps(1-3) by (intro equalityI) (metis, metis)
  qed
  moreover have "map fst (map ?entry x) = map fst x" for x :: dict by simp
  ultimately have "sort_key fst (map ?entry d) = sort_key fst (map ?entry e)"
    using same_dict.hyps by (intro sort_key_eqI) (simp_all add: comp_def)
  then show ?case by (simp add: json_dump.simps order_keys_def)
qed simp

text \<open>
  C39. The request hash does not depend on the order of JSON keys, at any depth of the payload or
  the policy.
\<close>

theorem canonical_request_hash_key_order:
  assumes "same_json (JDict input1) (JDict input2)" "same_json (JDict policy1) (JDict policy2)"
  shows "canonical_request_hash input1 policy1 = canonical_request_hash input2 policy2"
proof -
  have "same_json (JDict [(''input'', JDict input1), (''policy'', JDict policy1)])
      (JDict [(''input'', JDict input2), (''policy'', JDict policy2)])"
    using assms by (intro same_dict) (auto split: if_splits)
  then show ?thesis by (simp add: canonical_request_hash_def dumps_same)
qed

theorem canonical_request_hash_key_order_witness:
  "canonical_request_hash [(''a'', JInt 1), (''b'', JNull)] [] =
   canonical_request_hash [(''b'', JNull), (''a'', JInt 1)] []"
  by (rule canonical_request_hash_key_order)
    (auto intro!: same_dict simp: same_refl split: if_splits)

end
