(* ===== verification/Py_Time.thy ===== *)
theory Py_Time
  imports Py_Float Py_Text
begin

text \<open>
  Aware UTC datetimes and timedeltas as Python has them: a moment is the number of microseconds
  since the Unix epoch, \<open>timedelta(seconds=x)\<close> rounds a float to microseconds, \<open>total_seconds\<close>
  divides in floating point, and moments outside the years 1 to 9999 raise.
\<close>

type_synonym time = int

definition us_per_second :: int where
  "us_per_second = 1000000"

definition min_time :: time where
  "min_time = - 62135596800 * us_per_second"

definition max_time :: time where
  "max_time = 253402300800 * us_per_second - 1"

text \<open>\<open>timedelta(seconds=x)\<close>: the integral part exactly, the fraction times a million rounded half to even.\<close>

definition timedelta_us :: "rat \<Rightarrow> int" where
  "timedelta_us x = py_trunc x * us_per_second + rhe (fl ((x - of_int (py_trunc x)) * 1000000))"

text \<open>\<open>now + timedelta(seconds=x)\<close>.\<close>

definition plus_seconds :: "time \<Rightarrow> rat \<Rightarrow> time res" where
  "plus_seconds t x =
    (if min_time \<le> t + timedelta_us x \<and> t + timedelta_us x \<le> max_time
     then Inr (t + timedelta_us x) else Inl OverflowError)"

text \<open>\<open>int((b - a).total_seconds() * 1000)\<close>.\<close>

definition elapsed_ms :: "time \<Rightarrow> time \<Rightarrow> int" where
  "elapsed_ms a b = py_trunc (fl (fl (of_int (b - a) / 1000000) * 1000))"

section \<open>The ISO text of a moment\<close>

definition is_leap :: "int \<Rightarrow> bool" where
  "is_leap y \<longleftrightarrow> y mod 4 = 0 \<and> (y mod 100 \<noteq> 0 \<or> y mod 400 = 0)"

definition days_in_month :: "int \<Rightarrow> int \<Rightarrow> int" where
  "days_in_month y m =
    (if m = 2 then (if is_leap y then 29 else 28) else if m \<in> {4, 6, 9, 11} then 30 else 31)"

definition days_before_year :: "int \<Rightarrow> int" where
  "days_before_year y = (y - 1) * 365 + (y - 1) div 4 - (y - 1) div 100 + (y - 1) div 400"

text \<open>The month and day of a day of the year, counted from zero; at most eleven months are passed over.\<close>

fun month_day :: "nat \<Rightarrow> int \<Rightarrow> int \<Rightarrow> int \<Rightarrow> int \<times> int" where
  "month_day 0 y m n = (m, n + 1)"
| "month_day (Suc k) y m n =
    (if n < days_in_month y m then (m, n + 1) else month_day k y (m + 1) (n - days_in_month y m))"

text \<open>
  \<open>date.fromordinal\<close>: the year from the cycles of 400, 100, 4 and 1 years, as \<open>_ord2ymd\<close> does. The
  argument counts the days since 0001-01-01.
\<close>

definition ymd :: "int \<Rightarrow> int \<times> int \<times> int" where
  "ymd n0 =
    (let n400 = n0 div 146097; a = n0 mod 146097;
         n100 = a div 36524; b = a mod 36524;
         n4 = b div 1461; c = b mod 1461;
         n1 = c div 365; d = c mod 365;
         year = n400 * 400 + 1 + n100 * 100 + n4 * 4 + n1
     in if n1 = 4 \<or> n100 = 4 then (year - 1, 12, 31)
        else (case month_day 11 year 1 d of (m, day) \<Rightarrow> (year, m, day)))"

definition pad_int :: "nat \<Rightarrow> int \<Rightarrow> string" where
  "pad_int k n = (let s = show_int n in replicate (k - length s) (CHR ''0'') @ s)"

definition isoformat :: "time \<Rightarrow> string" where
  "isoformat t =
    (let us = t mod us_per_second; secs = t div us_per_second;
         day = secs div 86400 + 719162; s = secs mod 86400
     in case ymd day of (y, m, d) \<Rightarrow>
       pad_int 4 y @ ''-'' @ pad_int 2 m @ ''-'' @ pad_int 2 d @ ''T'' @
       pad_int 2 (s div 3600) @ '':'' @ pad_int 2 (s mod 3600 div 60) @ '':'' @ pad_int 2 (s mod 60) @
       (if us = 0 then [] else ''.'' @ pad_int 6 us) @ ''+00:00'')"

section \<open>Facts\<close>

lemma plus_seconds_Inr: "plus_seconds t x = Inr t' \<Longrightarrow> t' = t + timedelta_us x"
  by (auto simp: plus_seconds_def split: if_splits)

lemma timedelta_us_int: "timedelta_us (of_int n) = n * us_per_second"
  by (simp add: timedelta_us_def py_trunc_def)

lemma timedelta_us_pos:
  assumes "1 \<le> x"
  shows "us_per_second \<le> timedelta_us x"
proof -
  have tr: "py_trunc x = \<lfloor>x\<rfloor>" using assms by (simp add: py_trunc_def)
  have "1 \<le> \<lfloor>x\<rfloor>" using assms by simp
  moreover have "0 \<le> fl ((x - of_int \<lfloor>x\<rfloor>) * 1000000)" by (intro fl_nonneg) simp
  then have "0 \<le> rhe (fl ((x - of_int \<lfloor>x\<rfloor>) * 1000000))" using rhe_mono [of 0] by simp
  ultimately show ?thesis unfolding timedelta_us_def tr us_per_second_def by linarith
qed

end
