(* ===== verification/Run_States.thy ===== *)
theory Run_States
  imports Runtime_Prelude
begin

text \<open>
  \<open>domain/states.py\<close>: the execution and evaluation statuses, the transition table of the
  documented lifecycle, and the two functions over it.
\<close>

datatype execution_status =
    QUEUED | RUNNING | RETRY_SCHEDULED | SUCCEEDED | FAILED | DEAD_LETTERED

datatype evaluation_status = NOT_RUN | PENDING | PASSED | EVAL_FAILED | ERROR

fun execution_status_value :: "execution_status \<Rightarrow> string" where
  "execution_status_value QUEUED = ''QUEUED''"
| "execution_status_value RUNNING = ''RUNNING''"
| "execution_status_value RETRY_SCHEDULED = ''RETRY_SCHEDULED''"
| "execution_status_value SUCCEEDED = ''SUCCEEDED''"
| "execution_status_value FAILED = ''FAILED''"
| "execution_status_value DEAD_LETTERED = ''DEAD_LETTERED''"

fun evaluation_status_value :: "evaluation_status \<Rightarrow> string" where
  "evaluation_status_value NOT_RUN = ''NOT_RUN''"
| "evaluation_status_value PENDING = ''PENDING''"
| "evaluation_status_value PASSED = ''PASSED''"
| "evaluation_status_value EVAL_FAILED = ''FAILED''"
| "evaluation_status_value ERROR = ''ERROR''"

definition TERMINAL_EXECUTION_STATUSES :: "execution_status list" where
  "TERMINAL_EXECUTION_STATUSES = [SUCCEEDED, FAILED, DEAD_LETTERED]"

fun ALLOWED_EXECUTION_TRANSITIONS :: "execution_status \<Rightarrow> execution_status list" where
  "ALLOWED_EXECUTION_TRANSITIONS QUEUED = [RUNNING, FAILED]"
| "ALLOWED_EXECUTION_TRANSITIONS RUNNING = [SUCCEEDED, FAILED, RETRY_SCHEDULED, DEAD_LETTERED]"
| "ALLOWED_EXECUTION_TRANSITIONS RETRY_SCHEDULED = [QUEUED, FAILED, DEAD_LETTERED]"
| "ALLOWED_EXECUTION_TRANSITIONS SUCCEEDED = []"
| "ALLOWED_EXECUTION_TRANSITIONS FAILED = []"
| "ALLOWED_EXECUTION_TRANSITIONS DEAD_LETTERED = []"

definition ensure_execution_transition :: "execution_status \<Rightarrow> execution_status \<Rightarrow> unit res" where
  "ensure_execution_transition current target =
     (if target \<notin> set (ALLOWED_EXECUTION_TRANSITIONS current)
      then Inl (ValueError (''Cannot transition execution from '' @ execution_status_value current
                            @ '' to '' @ execution_status_value target))
      else Inr ())"

definition is_terminal_execution_status :: "execution_status \<Rightarrow> bool" where
  "is_terminal_execution_status s \<longleftrightarrow> s \<in> set TERMINAL_EXECUTION_STATUSES"

section \<open>Enumeration\<close>

instantiation execution_status :: enum
begin

definition enum_execution_status :: "execution_status list" where
  "enum_execution_status = [QUEUED, RUNNING, RETRY_SCHEDULED, SUCCEEDED, FAILED, DEAD_LETTERED]"

definition enum_all_execution_status :: "(execution_status \<Rightarrow> bool) \<Rightarrow> bool" where
  "enum_all_execution_status P \<longleftrightarrow> list_all P enum_class.enum"

definition enum_ex_execution_status :: "(execution_status \<Rightarrow> bool) \<Rightarrow> bool" where
  "enum_ex_execution_status P \<longleftrightarrow> list_ex P enum_class.enum"

instance
proof
  have u: "(UNIV :: execution_status set) = set enum_class.enum"
    by (auto simp: enum_execution_status_def intro: execution_status.exhaust)
  then show "(UNIV :: execution_status set) = set enum_class.enum" .
  show "distinct (enum_class.enum :: execution_status list)"
    by (simp add: enum_execution_status_def)
  fix P :: "execution_status \<Rightarrow> bool"
  show "enum_class.enum_all P \<longleftrightarrow> Ball UNIV P"
    unfolding u by (simp add: enum_all_execution_status_def list_all_iff)
  show "enum_class.enum_ex P \<longleftrightarrow> Bex UNIV P"
    unfolding u by (simp add: enum_ex_execution_status_def list_ex_iff)
qed

end

section \<open>Facts\<close>

lemma is_terminal_simps [simp]:
  "is_terminal_execution_status SUCCEEDED"
  "is_terminal_execution_status FAILED"
  "is_terminal_execution_status DEAD_LETTERED"
  "\<not> is_terminal_execution_status QUEUED"
  "\<not> is_terminal_execution_status RUNNING"
  "\<not> is_terminal_execution_status RETRY_SCHEDULED"
  by (simp_all add: is_terminal_execution_status_def TERMINAL_EXECUTION_STATUSES_def)

lemma terminal_iff_no_successor:
  "is_terminal_execution_status s \<longleftrightarrow> ALLOWED_EXECUTION_TRANSITIONS s = []"
  by (cases s) simp_all

lemma execution_status_value_inject:
  "execution_status_value s = execution_status_value t \<longleftrightarrow> s = t"
  by (cases s; cases t) simp_all

end
