(* ===== verification/Db_Model.thy ===== *)
theory Db_Model
  imports Py_Json Py_Time Run_States
begin

text \<open>
  \<open>infrastructure/database/models.py\<close>: the tables the services share. A table is the list of its rows
  in insertion order; an insert checks the primary key, the unique constraints and the foreign keys
  and fails with \<open>IntegrityError\<close>. A service operation is one transaction: it returns the new
  database with its result, or an exception, after which the database is the old one.
  Column lengths and the indexes are not modelled.
\<close>

section \<open>Rows\<close>

record run_row =
  r_id :: uuid
  r_client_id :: string
  r_principal_id :: "string option"
  r_work_kind :: string
  r_idempotency_key :: string
  r_request_hash :: string
  r_input_payload :: dict
  r_policy_snapshot :: dict
  r_trace_context :: dict
  r_execution_status :: execution_status
  r_evaluation_status :: evaluation_status
  r_result_payload :: "dict option"
  r_error_code :: "string option"
  r_created_at :: time
  r_started_at :: "time option"
  r_completed_at :: "time option"
  r_lease_owner :: "string option"
  r_lease_expires_at :: "time option"
  r_next_attempt_at :: "time option"
  r_replay_of :: "uuid option"
  r_version :: int

record attempt_row =
  a_id :: uuid
  a_run_id :: uuid
  a_number :: int
  a_provider :: string
  a_worker_id :: string
  a_started_at :: time
  a_finished_at :: "time option"
  a_outcome :: "string option"
  a_error_code :: "string option"
  a_retryable :: "bool option"
  a_latency_ms :: "int option"
  a_usage :: "dict option"

record event_row =
  e_id :: uuid
  e_run_id :: uuid
  e_attempt_id :: "uuid option"
  e_type :: string
  e_metadata :: "dict option"
  e_created_at :: time

record outbox_row =
  o_id :: uuid
  o_aggregate_id :: uuid
  o_type :: string
  o_payload :: dict
  o_created_at :: time
  o_published_at :: "time option"
  o_publish_attempts :: int
  o_last_error :: "string option"

record evaluation_row =
  v_id :: uuid
  v_run_id :: uuid
  v_evaluator :: string
  v_job_run_id :: "uuid option"
  v_status :: evaluation_status
  v_score :: "rat option"
  v_result :: "dict option"
  v_details :: "dict option"
  v_created_at :: time
  v_completed_at :: "time option"

record quota_row =
  q_scope :: string
  q_window_start :: int
  q_used :: int

record db =
  runs :: "run_row list"
  attempts :: "attempt_row list"
  events :: "event_row list"
  outbox :: "outbox_row list"
  evaluations :: "evaluation_row list"
  quotas :: "quota_row list"

definition empty_db :: db where
  "empty_db = \<lparr>runs = [], attempts = [], events = [], outbox = [], evaluations = [], quotas = []\<rparr>"

section \<open>What a transaction reads from its surroundings\<close>

text \<open>
  The clock of the process (\<open>datetime.now(UTC)\<close>), the transaction time of the server (\<open>func.now()\<close>,
  the default of the creation columns), the server's clock in whole seconds, the values \<open>uuid4()\<close>
  returns in turn, the carrier the trace propagator fills, and the run rows that other transactions
  hold locked, which \<open>FOR UPDATE SKIP LOCKED\<close> passes over.
\<close>

record ctx =
  c_now :: time
  c_db_now :: time
  c_epoch :: int
  c_uuid :: "nat \<Rightarrow> uuid"
  c_carrier :: dict
  c_locked :: "uuid list"

text \<open>A context to evaluate examples in.\<close>

definition sample_ctx :: ctx where
  "sample_ctx = \<lparr>c_now = 5000000, c_db_now = 4000000, c_epoch = 7300, c_uuid = (\<lambda>n. of_nat (n + 1)),
     c_carrier = [], c_locked = []\<rparr>"

section \<open>Statements\<close>

definition get_row :: "uuid \<Rightarrow> db \<Rightarrow> run_row option" where
  "get_row i d = row_with r_id i (runs d)"

text \<open>A flushed change of a run: the version column counts the updates that changed the row.\<close>

definition stamp :: "run_row \<Rightarrow> run_row \<Rightarrow> run_row" where
  "stamp new old = (if new = old then old else new\<lparr>r_version := r_version old + 1\<rparr>)"

definition put_run :: "run_row \<Rightarrow> db \<Rightarrow> db" where
  "put_run r d = d\<lparr>runs := rewrite (\<lambda>old. r_id old = r_id r) (stamp r) (runs d)\<rparr>"

definition put_attempt :: "attempt_row \<Rightarrow> db \<Rightarrow> db" where
  "put_attempt a d = d\<lparr>attempts := rewrite (\<lambda>old. a_id old = a_id a) (\<lambda>_. a) (attempts d)\<rparr>"

definition put_evaluation :: "evaluation_row \<Rightarrow> db \<Rightarrow> db" where
  "put_evaluation v d = d\<lparr>evaluations := rewrite (\<lambda>old. v_id old = v_id v) (\<lambda>_. v) (evaluations d)\<rparr>"

definition insert_run :: "run_row \<Rightarrow> db \<Rightarrow> db res" where
  "insert_run r d =
    (if list_ex (\<lambda>o'. r_id o' = r_id r \<or>
          r_client_id o' = r_client_id r \<and> r_idempotency_key o' = r_idempotency_key r) (runs d) \<or>
        (case r_replay_of r of None \<Rightarrow> False | Some i \<Rightarrow> get_row i d = None)
     then Inl IntegrityError else Inr (d\<lparr>runs := runs d @ [r]\<rparr>))"

definition insert_attempt :: "attempt_row \<Rightarrow> db \<Rightarrow> db res" where
  "insert_attempt a d =
    (if list_ex (\<lambda>o'. a_id o' = a_id a \<or> a_run_id o' = a_run_id a \<and> a_number o' = a_number a) (attempts d) \<or>
        get_row (a_run_id a) d = None
     then Inl IntegrityError else Inr (d\<lparr>attempts := attempts d @ [a]\<rparr>))"

definition insert_event :: "event_row \<Rightarrow> db \<Rightarrow> db res" where
  "insert_event e d =
    (if list_ex (\<lambda>o'. e_id o' = e_id e) (events d) \<or> get_row (e_run_id e) d = None \<or>
        (case e_attempt_id e of None \<Rightarrow> False | Some i \<Rightarrow> row_with a_id i (attempts d) = None)
     then Inl IntegrityError else Inr (d\<lparr>events := events d @ [e]\<rparr>))"

definition insert_outbox :: "outbox_row \<Rightarrow> db \<Rightarrow> db res" where
  "insert_outbox x d =
    (if list_ex (\<lambda>o'. o_id o' = o_id x) (outbox d)
     then Inl IntegrityError else Inr (d\<lparr>outbox := outbox d @ [x]\<rparr>))"

definition insert_evaluation :: "evaluation_row \<Rightarrow> db \<Rightarrow> db res" where
  "insert_evaluation v d =
    (if list_ex (\<lambda>o'. v_id o' = v_id v \<or> v_job_run_id v \<noteq> None \<and> v_job_run_id o' = v_job_run_id v)
          (evaluations d) \<or> get_row (v_run_id v) d = None \<or>
        (case v_job_run_id v of None \<Rightarrow> False | Some i \<Rightarrow> get_row i d = None)
     then Inl IntegrityError else Inr (d\<lparr>evaluations := evaluations d @ [v]\<rparr>))"

section \<open>New rows with the defaults of the models\<close>

definition new_event :: "ctx \<Rightarrow> nat \<Rightarrow> uuid \<Rightarrow> uuid option \<Rightarrow> string \<Rightarrow> dict \<Rightarrow> event_row" where
  "new_event c n i att ty metadata =
    \<lparr>e_id = c_uuid c n, e_run_id = i, e_attempt_id = att, e_type = ty, e_metadata = Some metadata,
     e_created_at = c_db_now c\<rparr>"

definition new_outbox :: "ctx \<Rightarrow> nat \<Rightarrow> uuid \<Rightarrow> string \<Rightarrow> dict \<Rightarrow> outbox_row" where
  "new_outbox c n i ty payload =
    \<lparr>o_id = c_uuid c n, o_aggregate_id = i, o_type = ty, o_payload = payload,
     o_created_at = c_db_now c, o_published_at = None, o_publish_attempts = 0, o_last_error = None\<rparr>"

section \<open>Facts\<close>

lemma get_row_SomeD: "get_row i d = Some r \<Longrightarrow> r \<in> set (runs d) \<and> r_id r = i"
  by (auto simp: get_row_def dest: row_with_SomeD)

lemma stamp_id [simp]: "r_id (stamp new old) = r_id new"
  by (simp add: stamp_def)

lemma stamp_fields [simp]:
  "r_client_id (stamp new old) = r_client_id new"
  "r_principal_id (stamp new old) = r_principal_id new"
  "r_work_kind (stamp new old) = r_work_kind new"
  "r_idempotency_key (stamp new old) = r_idempotency_key new"
  "r_request_hash (stamp new old) = r_request_hash new"
  "r_input_payload (stamp new old) = r_input_payload new"
  "r_policy_snapshot (stamp new old) = r_policy_snapshot new"
  "r_trace_context (stamp new old) = r_trace_context new"
  "r_execution_status (stamp new old) = r_execution_status new"
  "r_evaluation_status (stamp new old) = r_evaluation_status new"
  "r_result_payload (stamp new old) = r_result_payload new"
  "r_error_code (stamp new old) = r_error_code new"
  "r_created_at (stamp new old) = r_created_at new"
  "r_started_at (stamp new old) = r_started_at new"
  "r_completed_at (stamp new old) = r_completed_at new"
  "r_lease_owner (stamp new old) = r_lease_owner new"
  "r_lease_expires_at (stamp new old) = r_lease_expires_at new"
  "r_next_attempt_at (stamp new old) = r_next_attempt_at new"
  "r_replay_of (stamp new old) = r_replay_of new"
  by (simp_all add: stamp_def)

lemma put_run_tables [simp]:
  "attempts (put_run r d) = attempts d" "events (put_run r d) = events d"
  "outbox (put_run r d) = outbox d" "evaluations (put_run r d) = evaluations d"
  "quotas (put_run r d) = quotas d"
  by (simp_all add: put_run_def)

lemma put_attempt_tables [simp]:
  "runs (put_attempt a d) = runs d" "events (put_attempt a d) = events d"
  "outbox (put_attempt a d) = outbox d" "evaluations (put_attempt a d) = evaluations d"
  "quotas (put_attempt a d) = quotas d"
  by (simp_all add: put_attempt_def)

lemma put_evaluation_tables [simp]:
  "runs (put_evaluation v d) = runs d" "events (put_evaluation v d) = events d"
  "outbox (put_evaluation v d) = outbox d" "attempts (put_evaluation v d) = attempts d"
  "quotas (put_evaluation v d) = quotas d"
  by (simp_all add: put_evaluation_def)

lemma map_id_put_run [simp]: "map r_id (runs (put_run r d)) = map r_id (runs d)"
  by (simp add: put_run_def map_key_rewrite)

lemma row_with_stamp:
  "row_with r_id i (rewrite (\<lambda>old. r_id old = r_id r) (stamp r) rows) =
     (if i = r_id r then map_option (stamp r) (row_with r_id i rows) else row_with r_id i rows)"
  by (induction rows) auto

lemma get_row_put_run:
  "get_row i (put_run r d) =
     (if i = r_id r then map_option (stamp r) (get_row i d) else get_row i d)"
  by (simp add: get_row_def put_run_def row_with_stamp)

end
