(* ===== verification/Quotas.thy ===== *)
theory Quotas
  imports Db_Model
begin

text \<open>
  \<open>infrastructure/database/quotas.py\<close>: admission limits counted over the runs table, and the
  provider-call budget per principal and tenant in fixed windows. The advisory locks of
  \<open>lock_identity\<close> are modelled by the order in which they are requested.
\<close>

record quota_limits =
  principal_active :: int
  tenant_active :: int
  principal_calls :: int
  tenant_calls :: int
  window_seconds :: int
  principal_running :: int
  tenant_running :: int

definition default_quotas :: quota_limits where
  "default_quotas = \<lparr>principal_active = 20, tenant_active = 40, principal_calls = 120,
     tenant_calls = 240, window_seconds = 3600, principal_running = 1, tenant_running = 2\<rparr>"

definition p_scope :: "string \<Rightarrow> string" where
  "p_scope prin = ''p:'' @ prin"

definition t_scope :: "string \<Rightarrow> string" where
  "t_scope tenant = ''t:'' @ tenant"

text \<open>The advisory locks, in the order they are taken.\<close>

definition lock_identity :: "string \<Rightarrow> string \<Rightarrow> string list" where
  "lock_identity prin tenant = sort [p_scope prin, t_scope tenant]"

definition current_window :: "int \<Rightarrow> int \<Rightarrow> int" where
  "current_window now w = now div w * w"

definition quota_row_of :: "string \<Rightarrow> db \<Rightarrow> quota_row option" where
  "quota_row_of scope d = row_with q_scope scope (quotas d)"

definition quota_denied :: exn where
  "quota_denied = QuotaExceededError ''Provider-call quota exceeded''"

definition check_scope_budget :: "int \<Rightarrow> string \<Rightarrow> int \<Rightarrow> db \<Rightarrow> unit res" where
  "check_scope_budget window scope limit d = (case quota_row_of scope d of
     None \<Rightarrow> Inr ()
   | Some row \<Rightarrow>
       if q_window_start row \<noteq> window then Inr ()
       else guard_that (q_used row < limit) quota_denied)"

definition check_provider_budget :: "ctx \<Rightarrow> string \<Rightarrow> string \<Rightarrow> quota_limits \<Rightarrow> db \<Rightarrow> unit res" where
  "check_provider_budget c prin tenant lm d =
    res_bind (check_scope_budget (current_window (c_epoch c) (window_seconds lm))
                (p_scope prin) (principal_calls lm) d) (\<lambda>_.
      check_scope_budget (current_window (c_epoch c) (window_seconds lm))
        (t_scope tenant) (tenant_calls lm) d)"

definition is_active :: "run_row \<Rightarrow> bool" where
  "is_active r \<longleftrightarrow> r_execution_status r \<in> {QUEUED, RUNNING, RETRY_SCHEDULED}"

definition count_runs :: "(run_row \<Rightarrow> bool) \<Rightarrow> db \<Rightarrow> int" where
  "count_runs p d = int (length (filter p (runs d)))"

definition active_denied :: exn where
  "active_denied = QuotaExceededError ''Active work quota exceeded''"

definition check_admission :: "ctx \<Rightarrow> string \<Rightarrow> string \<Rightarrow> quota_limits \<Rightarrow> db \<Rightarrow> unit res" where
  "check_admission c prin tenant lm d =
    res_bind (guard_that
      (count_runs (\<lambda>r. r_principal_id r = Some prin \<and> is_active r) d < principal_active lm)
      active_denied) (\<lambda>_.
    res_bind (guard_that
      (count_runs (\<lambda>r. r_client_id r = tenant \<and> is_active r) d < tenant_active lm)
      active_denied) (\<lambda>_.
    check_provider_budget c prin tenant lm d))"

text \<open>The row of a scope, created when missing and reset when its window is over.\<close>

definition set_quota :: "quota_row \<Rightarrow> db \<Rightarrow> db" where
  "set_quota row d =
    (case quota_row_of (q_scope row) d of
       None \<Rightarrow> d\<lparr>quotas := quotas d @ [row]\<rparr>
     | Some _ \<Rightarrow> d\<lparr>quotas := rewrite (\<lambda>o'. q_scope o' = q_scope row) (\<lambda>_. row) (quotas d)\<rparr>)"

definition rolled_row :: "int \<Rightarrow> string \<Rightarrow> db \<Rightarrow> quota_row" where
  "rolled_row window scope d = (case quota_row_of scope d of
     None \<Rightarrow> \<lparr>q_scope = scope, q_window_start = window, q_used = 0\<rparr>
   | Some row \<Rightarrow>
       if q_window_start row \<noteq> window then row\<lparr>q_window_start := window, q_used := 0\<rparr> else row)"

definition charge_provider_call :: "ctx \<Rightarrow> string \<Rightarrow> string \<Rightarrow> quota_limits \<Rightarrow> db \<Rightarrow> db res" where
  "charge_provider_call c prin tenant lm d =
    (let window = current_window (c_epoch c) (window_seconds lm);
         prow = rolled_row window (p_scope prin) d;
         trow = rolled_row window (t_scope tenant) d
     in res_bind (guard_that (q_used prow < principal_calls lm) quota_denied) (\<lambda>_.
        res_bind (guard_that (q_used trow < tenant_calls lm) quota_denied) (\<lambda>_.
          Inr (set_quota (trow\<lparr>q_used := q_used trow + 1\<rparr>)
                (set_quota (prow\<lparr>q_used := q_used prow + 1\<rparr>) d)))))"

section \<open>The provider-call budget\<close>

lemma scopes_differ [simp]: "p_scope a \<noteq> t_scope b" "t_scope b \<noteq> p_scope a"
  by (simp_all add: p_scope_def t_scope_def)

lemma p_scope_inject [simp]: "p_scope a = p_scope b \<longleftrightarrow> a = b"
  by (simp add: p_scope_def)

lemma t_scope_inject [simp]: "t_scope a = t_scope b \<longleftrightarrow> a = b"
  by (simp add: t_scope_def)

lemma rolled_row_scope [simp]: "q_scope (rolled_row w s d) = s"
  by (auto simp: rolled_row_def quota_row_of_def split: option.splits dest: row_with_SomeD)

lemma rolled_row_window [simp]: "q_window_start (rolled_row w s d) = w"
  by (auto simp: rolled_row_def split: option.splits)

lemma row_with_overwrite:
  "row_with key k (rewrite (\<lambda>x. key x = key r) (\<lambda>_. r) rows) =
    (if k = key r then map_option (\<lambda>_. r) (row_with key k rows) else row_with key k rows)"
  by (induction rows) auto

lemma quota_row_of_set_quota:
  "quota_row_of s (set_quota row d) = (if s = q_scope row then Some row else quota_row_of s d)"
  by (auto simp: set_quota_def quota_row_of_def row_with_append row_with_overwrite split: option.splits)

lemma set_quota_tables [simp]:
  "runs (set_quota row d) = runs d" "attempts (set_quota row d) = attempts d"
  "events (set_quota row d) = events d" "outbox (set_quota row d) = outbox d"
  "evaluations (set_quota row d) = evaluations d"
  by (simp_all add: set_quota_def split: option.splits)

text \<open>The calls a scope has used in a window.\<close>

definition used_in :: "int \<Rightarrow> string \<Rightarrow> db \<Rightarrow> int" where
  "used_in w s d = (case quota_row_of s d of
     None \<Rightarrow> 0 | Some row \<Rightarrow> if q_window_start row = w then q_used row else 0)"

lemma rolled_row_used [simp]: "q_used (rolled_row w s d) = used_in w s d"
  by (auto simp: rolled_row_def used_in_def split: option.splits)

lemma charge_Inr_iff:
  fixes c lm
  defines "w \<equiv> current_window (c_epoch c) (window_seconds lm)"
  shows "charge_provider_call c p t lm d = Inr d' \<longleftrightarrow>
    used_in w (p_scope p) d < principal_calls lm \<and> used_in w (t_scope t) d < tenant_calls lm \<and>
    d' = set_quota ((rolled_row w (t_scope t) d)\<lparr>q_used := used_in w (t_scope t) d + 1\<rparr>)
          (set_quota ((rolled_row w (p_scope p) d)\<lparr>q_used := used_in w (p_scope p) d + 1\<rparr>) d)"
  by (auto simp: charge_provider_call_def Let_def w_def res_bind_Inr_iff)

lemma used_in_charge:
  assumes "charge_provider_call c p t lm d = Inr d'"
    and "w = current_window (c_epoch c) (window_seconds lm)"
  shows "used_in w s d' = used_in w s d + (if s = p_scope p \<or> s = t_scope t then 1 else 0)"
  using assms(1) unfolding charge_Inr_iff assms(2) [symmetric]
  by (auto simp: used_in_def quota_row_of_set_quota)

text \<open>
  The advisory check at admission refuses exactly what the authoritative charge would refuse at
  that moment, provided every limit allows at least one call.
\<close>

theorem check_provider_budget_agrees:
  assumes "1 \<le> principal_calls lm" "1 \<le> tenant_calls lm"
  shows "check_provider_budget c p t lm d = Inr () \<longleftrightarrow>
    (\<exists>d'. charge_provider_call c p t lm d = Inr d')"
  using assms unfolding charge_Inr_iff check_provider_budget_def check_scope_budget_def
  by (auto simp: used_in_def res_bind_Inr_iff split: option.splits if_splits)

theorem check_provider_budget_agrees_witness:
  "1 \<le> principal_calls default_quotas \<and> 1 \<le> tenant_calls default_quotas \<and>
   (check_provider_budget sample_ctx ''alice'' ''acme'' default_quotas empty_db = Inr () \<longleftrightarrow>
    (\<exists>d'. charge_provider_call sample_ctx ''alice'' ''acme'' default_quotas empty_db = Inr d'))"
  using check_provider_budget_agrees [of default_quotas]
  by (simp add: default_quotas_def)

text \<open>A sequence of attempted calls: a refused charge leaves the counters alone.\<close>

fun charge_all :: "quota_limits \<Rightarrow> (ctx \<times> string \<times> string) list \<Rightarrow> db \<Rightarrow> bool list" where
  "charge_all lm [] d = []"
| "charge_all lm ((c, p, t) # calls) d = (case charge_provider_call c p t lm d of
     Inl _ \<Rightarrow> False # charge_all lm calls d
   | Inr d' \<Rightarrow> True # charge_all lm calls d')"

definition granted :: "((ctx \<times> string \<times> string) \<Rightarrow> bool) \<Rightarrow> (ctx \<times> string \<times> string) list \<Rightarrow> bool list \<Rightarrow> int" where
  "granted sel calls outcomes = int (length (filter (\<lambda>(call, ok). ok \<and> sel call) (zip calls outcomes)))"

lemma granted_simps [simp]:
  "granted sel [] [] = 0"
  "granted sel (call # calls) (ok # oks) = (if ok \<and> sel call then 1 else 0) + granted sel calls oks"
  by (simp_all add: granted_def)

lemma charge_all_bound:
  assumes "\<forall>(c, p', t') \<in> set calls. current_window (c_epoch c) (window_seconds lm) = w"
    and sel: "\<And>c p' t'. sel (c, p', t') \<longleftrightarrow> s = p_scope p' \<or> s = t_scope t'"
    and lim: "\<And>c p' t' d d'. sel (c, p', t') \<Longrightarrow>
      current_window (c_epoch c) (window_seconds lm) = w \<Longrightarrow>
      charge_provider_call c p' t' lm d = Inr d' \<Longrightarrow> used_in w s d < limit"
    and "used_in w s d \<le> limit"
  shows "granted sel calls (charge_all lm calls d) + used_in w s d \<le> limit"
  using assms(1,4)
proof (induction calls arbitrary: d)
  case (Cons call calls)
  obtain c p' t' where call: "call = (c, p', t')" by (cases call)
  have w: "current_window (c_epoch c) (window_seconds lm) = w" using Cons.prems(1) call by auto
  show ?case
  proof (cases "charge_provider_call c p' t' lm d")
    case (Inl e)
    then show ?thesis using Cons call by auto
  next
    case (Inr d')
    have u: "used_in w s d' = used_in w s d + (if sel call then 1 else 0)"
      using used_in_charge [OF Inr w [symmetric]] sel call by simp
    moreover have "sel call \<Longrightarrow> used_in w s d < limit" using lim w Inr call by blast
    ultimately have "used_in w s d' \<le> limit" using Cons.prems(2) by auto
    then have "granted sel calls (charge_all lm calls d') + used_in w s d' \<le> limit"
      using Cons by auto
    then show ?thesis using Inr u call by auto
  qed
qed simp



end
