(* ===== verification/Telemetry.thy ===== *)
theory Telemetry
  imports Py_Value
begin

text \<open>
  \<open>observability/telemetry.py\<close>: the trace context that crosses process boundaries. The carrier the
  OpenTelemetry propagator fills is a parameter; what the runtime keeps of it is modelled.
\<close>

definition is_key_char :: "char \<Rightarrow> bool" where
  "is_key_char c \<longleftrightarrow> is_ascii_lower c \<or> is_ascii_digit c \<or> c \<in> set ''_*/-''"

text \<open>The two regular expressions of the module, as predicates on the whole string.\<close>

definition traceparent_matches :: "string \<Rightarrow> bool" where
  "traceparent_matches s \<longleftrightarrow> length s = 55 \<and> take 3 s = ''00-'' \<and>
     list_all is_lower_hex (take 32 (drop 3 s)) \<and> s ! 35 = CHR ''-'' \<and>
     list_all is_lower_hex (take 16 (drop 36 s)) \<and> take 2 (drop 52 s) = ''-0'' \<and>
     s ! 54 \<in> set ''0123''"

definition tracestate_key_matches :: "string \<Rightarrow> bool" where
  "tracestate_key_matches key \<longleftrightarrow>
     (case key of
        [] \<Rightarrow> False
      | c # cs \<Rightarrow> is_ascii_lower c \<and> length cs \<le> 255 \<and> list_all is_key_char cs) \<or>
     (case partition_at (CHR ''@'') key of
        (c # cs, True, d # ds) \<Rightarrow>
          (is_ascii_lower c \<or> is_ascii_digit c) \<and> length cs \<le> 240 \<and> list_all is_key_char cs \<and>
          is_ascii_lower d \<and> length ds \<le> 13 \<and> list_all is_key_char ds
      | _ \<Rightarrow> False)"

text \<open>\<open>int(s, 16) == 0\<close> for a string of hexadecimal digits: every digit is zero.\<close>

definition hex_is_zero :: "string \<Rightarrow> bool" where
  "hex_is_zero s \<longleftrightarrow> list_all (\<lambda>c. c = CHR ''0'') s"

definition tracestate_value_ok :: "string \<Rightarrow> bool" where
  "tracestate_value_ok v \<longleftrightarrow> 1 \<le> length v \<and> length v \<le> 256 \<and> last v \<noteq> CHR '' '' \<and>
     list_all (\<lambda>c. 32 \<le> code c \<and> code c \<le> 126 \<and> c \<notin> set '',='') v"

text \<open>The loop over the list members: a malformed member or a repeated key rejects the whole state.\<close>

fun tracestate_entries_ok :: "string list \<Rightarrow> string list \<Rightarrow> bool" where
  "tracestate_entries_ok seen [] = True"
| "tracestate_entries_ok seen (entry # entries) =
     (case partition_at (CHR ''='') (strip_chars [CHR '' '', CHR 0x09] entry) of (key, found, v) \<Rightarrow>
        found \<and> key \<notin> set seen \<and> tracestate_key_matches key \<and> tracestate_value_ok v \<and>
        tracestate_entries_ok (key # seen) entries)"

definition tracestate_ok :: "json \<Rightarrow> string option" where
  "tracestate_ok v = (case v of
     JStr state \<Rightarrow>
       if state = [] \<or> length state > 512 \<or> length (split_on (CHR '','') state) > 32 \<or>
          \<not> tracestate_entries_ok [] (split_on (CHR '','') state)
       then None else Some state
   | _ \<Rightarrow> None)"

definition sanitize_trace_context :: "dict \<Rightarrow> dict" where
  "sanitize_trace_context carrier =
    (case dget_or carrier ''traceparent'' (JStr []) of
       JStr parent \<Rightarrow>
         if \<not> traceparent_matches parent then []
         else if hex_is_zero (take 32 (drop 3 parent)) \<or> hex_is_zero (take 16 (drop 36 parent)) then []
         else (''traceparent'', JStr parent) #
           (case tracestate_ok (dget_or carrier ''tracestate'' (JStr [])) of
              None \<Rightarrow> [] | Some state \<Rightarrow> [(''tracestate'', JStr state)])
     | _ \<Rightarrow> [])"

text \<open>\<open>inject_trace_context\<close>, given the carrier the propagator filled.\<close>

definition inject_trace_context :: "dict \<Rightarrow> dict" where
  "inject_trace_context carrier = sanitize_trace_context carrier"

section \<open>Facts\<close>

lemma tracestate_ok_JStr: "tracestate_ok v = Some s \<Longrightarrow> v = JStr s"
  by (auto simp: tracestate_ok_def split: json.splits if_splits)

lemma sanitize_keys: "set (dkeys (sanitize_trace_context c)) \<subseteq> {''traceparent'', ''tracestate''}"
  by (auto simp: sanitize_trace_context_def dkeys_def split: json.splits option.splits)

lemma sanitize_twice:
  "sanitize_trace_context (sanitize_trace_context c) = sanitize_trace_context c"
proof -
  have "traceparent_matches p \<Longrightarrow> p \<noteq> []" for p by (auto simp: traceparent_matches_def)
  then show ?thesis
    by (auto simp: sanitize_trace_context_def dget_or_def tracestate_ok_def
        split: json.splits option.splits if_splits)
qed

text \<open>
  Sanitizing a trace context is idempotent: what one process stored passes the check of the
  next one unchanged.
\<close>

theorem sanitize_trace_context_idem:
  "sanitize_trace_context (sanitize_trace_context c) = sanitize_trace_context c"
  by (rule sanitize_twice)

end
