(* ===== verification/Evaluation_Safety.thy ===== *)
theory Evaluation_Safety
  imports Py_Value
begin

text \<open>
  \<open>evaluation/safety.py\<close>: the bounded traversals that accept or refuse evaluation rules and JSON
  schemas. The worklists are the source's, popped from the end; here the end is the head of the
  list. \<open>Draft202012Validator.check_schema\<close> is the parameter \<open>schema_ok\<close>. Strings of the model's
  range always encode, so the \<open>UnicodeError\<close> branches do not arise.
\<close>

abbreviation too_complex :: exn where
  "too_complex \<equiv> EvaluationConfigurationError ''evaluation value complexity limit exceeded''"

section \<open>Bounded values\<close>

text \<open>One visited item: the children pushed and the bytes of text it adds.\<close>

definition visit_item :: "int \<Rightarrow> json \<Rightarrow> (json list \<times> int) res" where
  "visit_item max_nodes item = (case item of
     JDict d \<Rightarrow>
       if int (length d) > max_nodes
       then Inl (EvaluationConfigurationError ''evaluation object limit exceeded'')
       else Inr (map snd d, int (sum_list (map (\<lambda>kv. utf8_length (fst kv)) d)))
   | JList xs \<Rightarrow>
       if int (length xs) > max_nodes
       then Inl (EvaluationConfigurationError ''evaluation array limit exceeded'')
       else Inr (xs, 0)
   | JStr s \<Rightarrow> Inr ([], int (utf8_length s))
   | JFloat f \<Rightarrow>
       if isfinite f then Inr ([], 0)
       else Inl (EvaluationConfigurationError ''evaluation values must be finite'')
   | _ \<Rightarrow> Inr ([], 0))"

function bounded_loop :: "int \<Rightarrow> int \<Rightarrow> (json \<times> int) list \<Rightarrow> int \<Rightarrow> int \<Rightarrow> unit res" where
  "bounded_loop max_nodes max_depth [] nodes bytes = Inr ()"
| "bounded_loop max_nodes max_depth ((item, depth) # pending) nodes bytes =
    (if nodes + 1 > max_nodes \<or> depth > max_depth then Inl too_complex
     else res_bind (visit_item max_nodes item) (\<lambda>(children, more).
       if bytes + more > 65536 \<or>
          int (length (rev (map (\<lambda>v. (v, depth + 1)) children) @ pending)) > max_nodes
       then Inl (EvaluationConfigurationError ''evaluation value size limit exceeded'')
       else bounded_loop max_nodes max_depth
              (rev (map (\<lambda>v. (v, depth + 1)) children) @ pending) (nodes + 1) (bytes + more)))"
  by pat_completeness auto
termination
  by (relation "measure (\<lambda>(max_nodes, _, _, nodes, _). nat (max_nodes - nodes))") auto

declare bounded_loop.simps(2) [simp del]

definition bounded_value :: "json \<Rightarrow> int \<Rightarrow> int \<Rightarrow> unit res" where
  "bounded_value v max_nodes max_depth = bounded_loop max_nodes max_depth [(v, 0)] 0 0"

section \<open>Schemas\<close>

definition schema_keywords :: "string list" where
  "schema_keywords = [''type'', ''properties'', ''required'', ''additionalProperties'', ''items'',
     ''enum'', ''const'', ''minimum'', ''maximum'', ''minLength'', ''maxLength'', ''minItems'',
     ''maxItems'']"

text \<open>The checks of one schema node, and the subschemas it pushes (in the order of the source).\<close>

definition visit_schema :: "json \<Rightarrow> int \<Rightarrow> int \<Rightarrow> json list res" where
  "visit_schema node count depth = (case node of
     JDict d \<Rightarrow>
       if count > 128 \<or> depth > 6 \<or> \<not> list_all (\<lambda>k. k \<in> set schema_keywords) (dkeys d)
       then Inl (EvaluationConfigurationError ''unsupported or overly complex JSON Schema'')
       else (case dget_or d ''properties'' (JDict []) of
         JDict properties \<Rightarrow>
           if length properties > 32
           then Inl (EvaluationConfigurationError ''schema properties limit exceeded'')
           else if list_ex (\<lambda>k. length k > 128) (dkeys properties)
           then Inl (EvaluationConfigurationError ''schema property name limit exceeded'')
           else if (case dget d ''additionalProperties'' of
                      None \<Rightarrow> False | Some (JBool _) \<Rightarrow> False | _ \<Rightarrow> True)
           then Inl (EvaluationConfigurationError ''additionalProperties must be a boolean'')
           else if (case dget d ''enum'' of
                      None \<Rightarrow> False | Some (JList xs) \<Rightarrow> length xs > 32 | _ \<Rightarrow> True)
           then Inl (EvaluationConfigurationError ''schema enum limit exceeded'')
           else Inr (map snd properties @
                     (case dget d ''items'' of None \<Rightarrow> [] | Some v \<Rightarrow> [v]))
       | _ \<Rightarrow> Inl (EvaluationConfigurationError ''schema properties limit exceeded''))
   | _ \<Rightarrow> Inl (EvaluationConfigurationError ''unsupported or overly complex JSON Schema''))"

lemma visit_schema_count: "visit_schema node count depth = Inr cs \<Longrightarrow> count \<le> 128"
  by (auto simp: visit_schema_def split: json.splits if_splits)

function schema_loop :: "(json \<times> int) list \<Rightarrow> int \<Rightarrow> unit res" where
  "schema_loop [] count = Inr ()"
| "schema_loop ((node, depth) # pending) count =
    res_bind (visit_schema node (count + 1) depth) (\<lambda>children.
      schema_loop (rev (map (\<lambda>v. (v, depth + 1)) children) @ pending) (count + 1))"
  by pat_completeness auto
termination
  by (relation "measure (\<lambda>(_, count). nat (128 - count))") (auto dest: visit_schema_count)

declare schema_loop.simps(2) [simp del]

definition validate_schema :: "(json \<Rightarrow> bool) \<Rightarrow> json \<Rightarrow> unit res" where
  "validate_schema schema_ok schema =
    res_bind (schema_loop [(schema, 0)] 0) (\<lambda>_.
      guard_that (schema_ok schema) (EvaluationConfigurationError ''invalid JSON Schema''))"

section \<open>Rules\<close>

fun allowed_rule_fields :: "string \<Rightarrow> string list option" where
  "allowed_rule_fields kind =
    (if kind = ''non_empty'' then Some [''type'', ''path'']
     else if kind = ''json_schema'' then Some [''type'', ''path'', ''schema'']
     else if kind = ''latency_budget'' then Some [''type'', ''max_ms'']
     else if kind = ''rule'' then Some [''type'', ''path'', ''operator'', ''value'']
     else None)"

definition rule_operators :: "string list" where
  "rule_operators = [''exists'', ''equals'', ''not_equals'', ''contains'']"

text \<open>\<open>rule.get(''type'')\<close> when it is a supported kind and the rule has no other fields.\<close>

definition rule_kind :: "dict \<Rightarrow> string option" where
  "rule_kind rule = (case dget rule ''type'' of
     Some (JStr kind) \<Rightarrow>
       (case allowed_rule_fields kind of
          None \<Rightarrow> None
        | Some fields \<Rightarrow> if list_all (\<lambda>k. k \<in> set fields) (dkeys rule) then Some kind else None)
   | _ \<Rightarrow> None)"

definition path_ok :: "json \<Rightarrow> bool" where
  "path_ok v = (case v of
     JStr path \<Rightarrow> length path \<le> 256 \<and> length (split_on (CHR ''.'') path) \<le> 16 | _ \<Rightarrow> False)"

definition operator_ok :: "json option \<Rightarrow> bool" where
  "operator_ok v = (case v of Some (JStr s) \<Rightarrow> s \<in> set rule_operators | _ \<Rightarrow> False)"

definition budget_ok :: "json option \<Rightarrow> bool" where
  "budget_ok v = (case v of Some (JInt i) \<Rightarrow> 0 \<le> i \<and> i \<le> 86400000 | _ \<Rightarrow> False)"

definition validate_rule :: "(json \<Rightarrow> bool) \<Rightarrow> dict \<Rightarrow> unit res" where
  "validate_rule schema_ok rule = (case rule_kind rule of
     None \<Rightarrow> Inl (EvaluationConfigurationError ''unsupported evaluation rule or field'')
   | Some kind \<Rightarrow>
       if \<not> path_ok (dget_or rule ''path'' (JStr []))
       then Inl (EvaluationConfigurationError ''invalid evaluation path'')
       else if kind = ''json_schema'' then validate_schema schema_ok (jopt (dget rule ''schema''))
       else if kind = ''rule'' then
         guard_that (operator_ok (dget rule ''operator''))
           (EvaluationConfigurationError ''unsupported operator; regex matches is disabled'')
       else if kind = ''latency_budget'' then
         guard_that (budget_ok (dget rule ''max_ms''))
           (EvaluationConfigurationError ''invalid latency budget'')
       else Inr ())"

definition validate_rules :: "(json \<Rightarrow> bool) \<Rightarrow> dict list \<Rightarrow> unit res" where
  "validate_rules schema_ok rules =
    res_bind (bounded_value (JList (map JDict rules)) 2048 16) (\<lambda>_.
      if 1 \<le> length rules \<and> length rules \<le> 16
      then res_fold (\<lambda>rule _. validate_rule schema_ok rule) rules ()
      else Inl (EvaluationConfigurationError ''evaluation requires 1-16 rules''))"

section \<open>The traversal measures what it should\<close>

text \<open>The reference definitions: number of nodes, nesting depth, bytes of text, finiteness.\<close>

definition children :: "json \<Rightarrow> json list" where
  "children v = (case v of JDict d \<Rightarrow> map snd d | JList xs \<Rightarrow> xs | _ \<Rightarrow> [])"

definition own_bytes :: "json \<Rightarrow> int" where
  "own_bytes v = (case v of
     JDict d \<Rightarrow> int (sum_list (map (\<lambda>kv. utf8_length (fst kv)) d))
   | JStr s \<Rightarrow> int (utf8_length s)
   | _ \<Rightarrow> 0)"

definition own_finite :: "json \<Rightarrow> bool" where
  "own_finite v = (case v of JFloat f \<Rightarrow> isfinite f | _ \<Rightarrow> True)"

lemma children_size [termination_simp]: "c \<in> set (children v) \<Longrightarrow> size c < size v"
  by (auto simp: children_def size_in_list dest: size_in_dict split: json.splits)

fun node_count :: "json \<Rightarrow> int" where
  "node_count v = 1 + sum_list (map node_count (children v))"

fun text_bytes :: "json \<Rightarrow> int" where
  "text_bytes v = own_bytes v + sum_list (map text_bytes (children v))"

fun nested_within :: "int \<Rightarrow> json \<Rightarrow> bool" where
  "nested_within k v \<longleftrightarrow> 0 \<le> k \<and> (\<forall>c \<in> set (children v). nested_within (k - 1) c)"

fun all_finite :: "json \<Rightarrow> bool" where
  "all_finite v \<longleftrightarrow> own_finite v \<and> (\<forall>c \<in> set (children v). all_finite c)"

declare node_count.simps [simp del] text_bytes.simps [simp del] nested_within.simps [simp del]
  all_finite.simps [simp del]

lemma visit_item_Inr_iff:
  "0 \<le> n \<Longrightarrow> visit_item n v = Inr r \<longleftrightarrow>
    own_finite v \<and> int (length (children v)) \<le> n \<and> r = (children v, own_bytes v)"
  by (auto simp: visit_item_def own_finite_def children_def own_bytes_def split: json.splits)

lemma node_count_pos: "1 \<le> node_count v"
proof (induction v rule: node_count.induct)
  case (1 v)
  then have "0 \<le> sum_list (map node_count (children v))"
    by (intro sum_list_nonneg) force
  then show ?case by (simp add: node_count.simps)
qed

lemma length_le_nodes: "int (length vs) \<le> sum_list (map node_count vs)"
  using node_count_pos by (induction vs) (auto, smt (verit))

lemma text_bytes_nonneg: "0 \<le> text_bytes v"
proof (induction v rule: text_bytes.induct)
  case (1 v)
  then have "0 \<le> sum_list (map text_bytes (children v))"
    by (intro sum_list_nonneg) force
  moreover have "0 \<le> own_bytes v" by (auto simp: own_bytes_def split: json.splits)
  ultimately show ?case by (simp add: text_bytes.simps)
qed

lemma sum_text_bytes_nonneg: "0 \<le> sum_list (map text_bytes vs)"
  using text_bytes_nonneg by (intro sum_list_nonneg) auto

lemma bounded_loop_step:
  fixes item depth pending
  defines "later \<equiv> rev (map (\<lambda>v. (v, depth + 1)) (children item)) @ pending"
  assumes "0 \<le> n"
  shows "bounded_loop n k ((item, depth) # pending) nodes bytes = Inr () \<longleftrightarrow>
    nodes + 1 \<le> n \<and> depth \<le> k \<and> own_finite item \<and> int (length (children item)) \<le> n \<and>
    bytes + own_bytes item \<le> 65536 \<and> int (length later) \<le> n \<and>
    bounded_loop n k later (nodes + 1) (bytes + own_bytes item) = Inr ()"
proof (cases "own_finite item \<and> int (length (children item)) \<le> n")
  case True
  then have "visit_item n item = Inr (children item, own_bytes item)"
    by (simp add: visit_item_Inr_iff assms(2))
  then show ?thesis using True by (simp add: later_def bounded_loop.simps(2))
next
  case False
  then obtain e where "visit_item n item = Inl e"
    using visit_item_Inr_iff [OF assms(2)] by (cases "visit_item n item") auto
  then show ?thesis using False by (auto simp: bounded_loop.simps(2))
qed

lemma bounded_loop_iff:
  assumes "0 \<le> n" "nodes \<le> n" "bytes \<le> 65536" "0 \<le> nodes"
  shows "bounded_loop n k pending nodes bytes = Inr () \<longleftrightarrow>
    nodes + sum_list (map (\<lambda>p. node_count (fst p)) pending) \<le> n \<and>
    bytes + sum_list (map (\<lambda>p. text_bytes (fst p)) pending) \<le> 65536 \<and>
    (\<forall>(v, d) \<in> set pending. nested_within (k - d) v \<and> all_finite v)"
  using assms
proof (induction n k pending nodes bytes rule: bounded_loop.induct)
  case (2 n k item depth pending nodes bytes)
  let ?cs = "children item"
  let ?next = "rev (map (\<lambda>v. (v, depth + 1)) ?cs) @ pending"
  let ?N = "nodes + (node_count item + sum_list (map (\<lambda>p. node_count (fst p)) pending))"
  have nc: "node_count item = 1 + sum_list (map node_count ?cs)" by (rule node_count.simps)
  have tb: "text_bytes item = own_bytes item + sum_list (map text_bytes ?cs)"
    by (rule text_bytes.simps)
  have nw: "nested_within (k - depth) item \<longleftrightarrow>
      depth \<le> k \<and> (\<forall>c \<in> set ?cs. nested_within (k - (depth + 1)) c)"
    by (subst nested_within.simps) (simp add: diff_diff_eq)
  have fi: "all_finite item \<longleftrightarrow> own_finite item \<and> (\<forall>c \<in> set ?cs. all_finite c)"
    by (rule all_finite.simps)
  have sums: "sum_list (map (\<lambda>p. node_count (fst p)) ?next) =
      sum_list (map node_count ?cs) + sum_list (map (\<lambda>p. node_count (fst p)) pending)"
    "sum_list (map (\<lambda>p. text_bytes (fst p)) ?next) =
      sum_list (map text_bytes ?cs) + sum_list (map (\<lambda>p. text_bytes (fst p)) pending)"
    by (simp_all add: rev_map [symmetric] comp_def)
  have len: "int (length ?cs) \<le> sum_list (map node_count ?cs)"
    "int (length pending) \<le> sum_list (map (\<lambda>p. node_count (fst p)) pending)"
    using length_le_nodes [of ?cs] length_le_nodes [of "map fst pending"] by (simp_all add: comp_def)
  have nonneg: "0 \<le> sum_list (map text_bytes ?cs)"
    "0 \<le> sum_list (map (\<lambda>p. text_bytes (fst p)) pending)"
    using sum_text_bytes_nonneg [of ?cs] sum_text_bytes_nonneg [of "map fst pending"] by (simp_all add: comp_def)
  have IH: "nodes + 1 \<le> n \<Longrightarrow> depth \<le> k \<Longrightarrow> own_finite item \<Longrightarrow> int (length ?cs) \<le> n \<Longrightarrow>
      bytes + own_bytes item \<le> 65536 \<Longrightarrow> int (length ?next) \<le> n \<Longrightarrow>
      (bounded_loop n k ?next (nodes + 1) (bytes + own_bytes item) = Inr ()) =
        (nodes + 1 + sum_list (map (\<lambda>p. node_count (fst p)) ?next) \<le> n \<and>
         bytes + own_bytes item + sum_list (map (\<lambda>p. text_bytes (fst p)) ?next) \<le> 65536 \<and>
         (\<forall>(v, d) \<in> set ?next. nested_within (k - d) v \<and> all_finite v))"
    using "2.prems" visit_item_Inr_iff [OF "2.prems"(1), of item "(?cs, own_bytes item)"]
    by (intro "2.IH") simp_all
  show ?case
    unfolding bounded_loop_step [OF "2.prems"(1)]
    using IH len nonneg "2.prems" unfolding sums by (auto simp: nc tb nw fi)
qed simp

text \<open>
  C38. The iterative traversal with its early exits accepts a value exactly when the whole value has
  at most the allowed number of nodes, nesting and bytes of text, and no infinite or NaN number.
\<close>

theorem bounded_value_iff:
  assumes "0 \<le> max_nodes"
  shows "bounded_value v max_nodes max_depth = Inr () \<longleftrightarrow>
    node_count v \<le> max_nodes \<and> nested_within max_depth v \<and> text_bytes v \<le> 65536 \<and> all_finite v"
  unfolding bounded_value_def using bounded_loop_iff [OF assms assms, of 0 max_depth "[(v, 0)]"]
  using assms by auto

theorem bounded_value_iff_witness:
  "bounded_value (JList [JStr ''a'', JDict [(''k'', JInt 1)]]) 4 2 = Inr ()"
proof -
  let ?v = "JList [JStr ''a'', JDict [(''k'', JInt 1)]]"
  have "node_count ?v \<le> 4 \<and> nested_within 2 ?v \<and> text_bytes ?v \<le> 65536 \<and> all_finite ?v"
    by code_simp
  then show ?thesis using bounded_value_iff [of 4 ?v 2] by simp
qed

end
