(* ===== verification/Run_Service.thy ===== *)
theory Run_Service
  imports Quotas Telemetry Evaluation_Safety
begin

text \<open>
  \<open>infrastructure/database/run_service.py\<close> (\<open>SqlAlchemyRunService\<close>): submission, evaluation jobs,
  regression jobs, replay and the read side, over the tables of \<open>Db_Model\<close>. Every operation is one
  transaction. The \<open>_timed\<close> decorator and the span attributes only observe and are left out.
\<close>

section \<open>Snapshots\<close>

record run_snapshot =
  s_id :: uuid
  s_execution_status :: execution_status
  s_evaluation_status :: evaluation_status
  s_created_at :: time
  s_started_at :: "time option"
  s_completed_at :: "time option"
  s_replay_of :: "uuid option"
  s_error_code :: "string option"
  s_routing_decision :: "dict option"
  s_work_kind :: string
  s_result_payload :: "dict option"

record attempt_snapshot =
  as_id :: uuid
  as_number :: int
  as_provider :: string
  as_started_at :: time
  as_finished_at :: "time option"
  as_outcome :: "string option"
  as_error_code :: "string option"
  as_retryable :: "bool option"
  as_latency_ms :: "int option"

record event_snapshot =
  es_id :: uuid
  es_attempt_id :: "uuid option"
  es_type :: string
  es_metadata :: "dict option"
  es_created_at :: time

record evaluation_snapshot =
  vs_id :: uuid
  vs_evaluator :: string
  vs_status :: evaluation_status
  vs_score :: "rat option"
  vs_result :: "dict option"
  vs_details :: "dict option"
  vs_created_at :: time
  vs_completed_at :: "time option"

definition routing_decision :: "dict \<Rightarrow> dict option" where
  "routing_decision policy = (case dget policy ''routing'' of
     Some (JDict routing) \<Rightarrow>
       (case dget routing ''decision'' of Some (JDict decision) \<Rightarrow> Some decision | _ \<Rightarrow> None)
   | _ \<Rightarrow> None)"

definition to_run_snapshot :: "run_row \<Rightarrow> run_snapshot" where
  "to_run_snapshot r =
    \<lparr>s_id = r_id r, s_execution_status = r_execution_status r,
     s_evaluation_status = r_evaluation_status r, s_created_at = r_created_at r,
     s_started_at = r_started_at r, s_completed_at = r_completed_at r,
     s_replay_of = r_replay_of r, s_error_code = r_error_code r,
     s_routing_decision = routing_decision (r_policy_snapshot r), s_work_kind = r_work_kind r,
     s_result_payload = r_result_payload r\<rparr>"

definition to_attempt_snapshot :: "attempt_row \<Rightarrow> attempt_snapshot" where
  "to_attempt_snapshot a =
    \<lparr>as_id = a_id a, as_number = a_number a, as_provider = a_provider a,
     as_started_at = a_started_at a, as_finished_at = a_finished_at a, as_outcome = a_outcome a,
     as_error_code = a_error_code a, as_retryable = a_retryable a, as_latency_ms = a_latency_ms a\<rparr>"

definition to_event_snapshot :: "event_row \<Rightarrow> event_snapshot" where
  "to_event_snapshot e =
    \<lparr>es_id = e_id e, es_attempt_id = e_attempt_id e, es_type = e_type e,
     es_metadata = e_metadata e, es_created_at = e_created_at e\<rparr>"

definition to_evaluation_snapshot :: "evaluation_row \<Rightarrow> evaluation_snapshot" where
  "to_evaluation_snapshot v =
    \<lparr>vs_id = v_id v, vs_evaluator = v_evaluator v, vs_status = v_status v, vs_score = v_score v,
     vs_result = v_result v, vs_details = v_details v, vs_created_at = v_created_at v,
     vs_completed_at = v_completed_at v\<rparr>"

section \<open>Lookups\<close>

definition find_by_idempotency_key :: "string \<Rightarrow> string \<Rightarrow> db \<Rightarrow> run_row option" where
  "find_by_idempotency_key client key d =
    find (\<lambda>r. r_client_id r = client \<and> r_idempotency_key r = key) (runs d)"

definition get_run_for_client :: "string \<Rightarrow> uuid \<Rightarrow> db \<Rightarrow> run_row res" where
  "get_run_for_client client i d =
    (case find (\<lambda>r. r_id r = i \<and> r_client_id r = client) (runs d) of
       None \<Rightarrow> Inl (RunNotFoundError (''Run '' @ uuid_str i @ '' was not found''))
     | Some r \<Rightarrow> Inr r)"

definition get_idempotent_run_after_race :: "string \<Rightarrow> string \<Rightarrow> db \<Rightarrow> run_row res" where
  "get_idempotent_run_after_race client key d = (case find_by_idempotency_key client key d of
     None \<Rightarrow> Inl (RuntimeError ''Idempotency race completed without a persisted run'')
   | Some r \<Rightarrow> Inr r)"

definition match_or_raise :: "run_row \<Rightarrow> string \<Rightarrow> bool res" where
  "match_or_raise r request_hash =
    (if r_request_hash r \<noteq> request_hash
     then Inl (IdempotencyConflictError ''Idempotency-Key is already bound to a different request'')
     else Inr True)"

definition match_replay_or_raise :: "run_row \<Rightarrow> string \<Rightarrow> uuid \<Rightarrow> bool res" where
  "match_replay_or_raise r request_hash source =
    (if r_request_hash r \<noteq> request_hash \<or> r_replay_of r \<noteq> Some source
     then Inl (IdempotencyConflictError
                 ''Idempotency-Key is already bound to a different replay request'')
     else Inr True)"

section \<open>Submission\<close>

text \<open>A queued run with the defaults of the model.\<close>

definition new_run ::
    "ctx \<Rightarrow> nat \<Rightarrow> string \<Rightarrow> string \<Rightarrow> string \<Rightarrow> string \<Rightarrow> string \<Rightarrow> dict \<Rightarrow> dict \<Rightarrow> uuid option \<Rightarrow> run_row" where
  "new_run c n client prin kind key request_hash input_payload policy replay_of =
    \<lparr>r_id = c_uuid c n, r_client_id = client, r_principal_id = Some prin, r_work_kind = kind,
     r_idempotency_key = key, r_request_hash = request_hash, r_input_payload = input_payload,
     r_policy_snapshot = policy, r_trace_context = inject_trace_context (c_carrier c),
     r_execution_status = QUEUED, r_evaluation_status = NOT_RUN, r_result_payload = None,
     r_error_code = None, r_created_at = c_db_now c, r_started_at = None, r_completed_at = None,
     r_lease_owner = None, r_lease_expires_at = None, r_next_attempt_at = None,
     r_replay_of = replay_of, r_version = 1\<rparr>"

text \<open>\<open>policy_snapshot.get(''provider_order'', [...])[0]\<close>, read for the metric; it raises on other shapes.\<close>

definition first_provider :: "dict \<Rightarrow> json res" where
  "first_provider policy = (case dget_or policy ''provider_order'' (JList [JStr ''deterministic'']) of
     JList (v # _) \<Rightarrow> Inr v
   | JList [] \<Rightarrow> Inl IndexError
   | JStr (ch # _) \<Rightarrow> Inr (JStr [ch])
   | JStr [] \<Rightarrow> Inl IndexError
   | JDict _ \<Rightarrow> Inl (KeyError ''0'')
   | _ \<Rightarrow> Inl (TypeError ''object is not subscriptable''))"

definition routing_event :: "ctx \<Rightarrow> nat \<Rightarrow> uuid \<Rightarrow> dict \<Rightarrow> db \<Rightarrow> db res" where
  "routing_event c n i policy d = (case routing_decision policy of
     None \<Rightarrow> Inr d
   | Some decision \<Rightarrow> insert_event (new_event c n i None ''ROUTING_DECISION_RECORDED''
       [(''strategy'', jopt (dget decision ''strategy'')),
        (''selected_provider'', jopt (dget decision ''selected_provider'')),
        (''reason'', jopt (dget decision ''reason'')),
        (''metrics_source'', jopt (dget decision ''metrics_source''))]) d)"

definition submission_hash :: "string \<Rightarrow> dict \<Rightarrow> dict \<Rightarrow> string" where
  "submission_hash kind input_payload policy = canonical_request_hash input_payload
     (if kind = ''execution'' then policy else dmerge policy [(''work_kind'', JStr kind)])"

text \<open>The body of the transaction once no earlier run has the key.\<close>

definition submit_new ::
    "ctx \<Rightarrow> quota_limits \<Rightarrow> string \<Rightarrow> string \<Rightarrow> string \<Rightarrow> dict \<Rightarrow> dict \<Rightarrow> string \<Rightarrow> db
      \<Rightarrow> ((run_snapshot \<times> bool) \<times> db) res" where
  "submit_new c lm client prin key input_payload policy kind d =
    res_bind (check_admission c prin client lm d) (\<lambda>_.
    let run = new_run c 0 client prin kind key (submission_hash kind input_payload policy)
                input_payload policy None
    in res_bind (insert_run run d) (\<lambda>d.
       res_bind (insert_outbox (new_outbox c 1 (r_id run) ''RUN_QUEUED''
                  [(''trace_context'', JDict (r_trace_context run))]) d) (\<lambda>d.
       res_bind (insert_event (new_event c 2 (r_id run) None ''RUN_QUEUED''
                  [(''source'', JStr ''api'')]) d) (\<lambda>d.
       res_bind (routing_event c 3 (r_id run) policy d) (\<lambda>d.
       res_bind (first_provider policy) (\<lambda>_.
         Inr ((to_run_snapshot run, False), d)))))))"

definition submit ::
    "ctx \<Rightarrow> quota_limits \<Rightarrow> string \<Rightarrow> string \<Rightarrow> dict \<Rightarrow> dict \<Rightarrow> string option \<Rightarrow> string \<Rightarrow> db
      \<Rightarrow> ((run_snapshot \<times> bool) \<times> db) res" where
  "submit c lm client key input_payload policy principal_id kind d =
    (let request_hash = submission_hash kind input_payload policy;
         replayed = (\<lambda>existing. res_bind (match_or_raise existing request_hash) (\<lambda>m.
                       Inr ((to_run_snapshot existing, m), d)))
     in case find_by_idempotency_key client key d of
          Some existing \<Rightarrow> replayed existing
        | None \<Rightarrow>
            (case submit_new c lm client (str_or principal_id client) key input_payload policy kind d of
               Inl IntegrityError \<Rightarrow> res_bind (get_idempotent_run_after_race client key d) replayed
             | outcome \<Rightarrow> outcome))"

section \<open>Jobs\<close>

definition job_policy :: "rat \<Rightarrow> dict" where
  "job_policy job_timeout =
    [(''max_attempts'', JInt 1), (''attempt_timeout_seconds'', JFloat (Fin job_timeout)),
     (''initial_backoff_seconds'', JInt 1), (''max_backoff_seconds'', JInt 1),
     (''provider_order'', JList [JStr ''deterministic''])]"

definition submit_regression ::
    "ctx \<Rightarrow> quota_limits \<Rightarrow> rat \<Rightarrow> string \<Rightarrow> string \<Rightarrow> dict \<Rightarrow> string \<Rightarrow> db
      \<Rightarrow> ((run_snapshot \<times> bool) \<times> db) res" where
  "submit_regression c lm job_timeout client prin payload key d =
    submit c lm client key payload (job_policy job_timeout) (Some prin) ''regression'' d"

definition can_be_evaluated :: "run_row \<Rightarrow> bool" where
  "can_be_evaluated r \<longleftrightarrow> r_work_kind r = ''execution'' \<and> r_execution_status r = SUCCEEDED \<and>
     r_result_payload r \<noteq> None"

definition rules_json :: "dict list \<Rightarrow> json" where
  "rules_json rules = JList (map JDict rules)"

definition evaluation_job :: "ctx \<Rightarrow> rat \<Rightarrow> string \<Rightarrow> string \<Rightarrow> uuid \<Rightarrow> dict list \<Rightarrow> run_row" where
  "evaluation_job c job_timeout client prin i rules =
    new_run c 1 client prin ''evaluation'' (''evaluation-'' @ uuid_str (c_uuid c 0))
      (canonical_request_hash [(''source'', JStr (uuid_str i))] [(''rules'', rules_json rules)])
      [(''source_run_id'', JStr (uuid_str i)), (''rules'', rules_json rules)]
      (job_policy job_timeout) None"

definition pending_evaluation :: "ctx \<Rightarrow> uuid \<Rightarrow> uuid \<Rightarrow> dict list \<Rightarrow> evaluation_row" where
  "pending_evaluation c i job rules =
    \<lparr>v_id = c_uuid c 2, v_run_id = i, v_evaluator = ''deterministic_rules'', v_job_run_id = Some job,
     v_status = PENDING, v_score = None, v_result = None,
     v_details = Some [(''rule_count'', JInt (int (length rules))), (''job_run_id'', JStr (uuid_str job))],
     v_created_at = c_db_now c, v_completed_at = None\<rparr>"

definition evaluate ::
    "(json \<Rightarrow> bool) \<Rightarrow> ctx \<Rightarrow> quota_limits \<Rightarrow> rat \<Rightarrow> string \<Rightarrow> uuid \<Rightarrow> dict list \<Rightarrow> string option \<Rightarrow> db
      \<Rightarrow> (evaluation_snapshot \<times> db) res" where
  "evaluate schema_ok c lm job_timeout client i rules principal_id d =
    res_bind (validate_rules schema_ok rules) (\<lambda>_.
    res_bind (get_run_for_client client i d) (\<lambda>run.
    res_bind (guard_that (can_be_evaluated run)
      (RunNotSucceededError ''Only a successful execution run can be evaluated'')) (\<lambda>_.
    res_bind (check_admission c (str_or principal_id client) client lm d) (\<lambda>_.
    let job = evaluation_job c job_timeout client (str_or principal_id client) i rules;
        evaluation = pending_evaluation c (r_id run) (r_id job) rules
    in res_bind (insert_run job d) (\<lambda>d.
       res_bind (insert_evaluation evaluation (put_run (run\<lparr>r_evaluation_status := PENDING\<rparr>) d)) (\<lambda>d.
       res_bind (insert_outbox (new_outbox c 3 (r_id job) ''RUN_QUEUED''
                  [(''trace_context'', JDict (r_trace_context job))]) d) (\<lambda>d.
       res_bind (insert_event (new_event c 4 (r_id job) None ''RUN_QUEUED''
                  [(''work_kind'', JStr ''evaluation'')]) d) (\<lambda>d.
       res_bind (insert_event (new_event c 5 (r_id run) None ''EVALUATION_PENDING''
                  [(''job_run_id'', JStr (uuid_str (r_id job)))]) d) (\<lambda>d.
         Inr (to_evaluation_snapshot evaluation, d))))))))))"

section \<open>Replay\<close>

definition replay_hash :: "run_row \<Rightarrow> string" where
  "replay_hash source = canonical_request_hash
     [(''replay_of_run_id'', JStr (uuid_str (r_id source))), (''input'', JDict (r_input_payload source))]
     (r_policy_snapshot source)"

definition replay_new ::
    "ctx \<Rightarrow> quota_limits \<Rightarrow> string \<Rightarrow> string \<Rightarrow> string \<Rightarrow> run_row \<Rightarrow> db
      \<Rightarrow> ((run_snapshot \<times> bool) \<times> db) res" where
  "replay_new c lm client prin key source d =
    res_bind (check_admission c prin client lm d) (\<lambda>_.
    let run = new_run c 0 client prin ''execution'' key (replay_hash source)
                (r_input_payload source) (r_policy_snapshot source) (Some (r_id source))
    in res_bind (insert_run run d) (\<lambda>d.
       res_bind (insert_outbox (new_outbox c 1 (r_id run) ''RUN_QUEUED''
                  [(''trace_context'', JDict (r_trace_context run)), (''reason'', JStr ''replay'')]) d) (\<lambda>d.
       res_bind (insert_event (new_event c 2 (r_id source) None ''REPLAY_CREATED''
                  [(''replay_run_id'', JStr (uuid_str (r_id run)))]) d) (\<lambda>d.
       res_bind (insert_event (new_event c 3 (r_id run) None ''RUN_REPLAY_QUEUED''
                  [(''replay_of_run_id'', JStr (uuid_str (r_id source)))]) d) (\<lambda>d.
         Inr ((to_run_snapshot run, False), d))))))"

definition replay ::
    "ctx \<Rightarrow> quota_limits \<Rightarrow> string \<Rightarrow> uuid \<Rightarrow> string \<Rightarrow> string option \<Rightarrow> db
      \<Rightarrow> ((run_snapshot \<times> bool) \<times> db) res" where
  "replay c lm client i key principal_id d =
    res_bind (get_run_for_client client i d) (\<lambda>source.
      if r_work_kind source \<noteq> ''execution''
      then Inl (RunNotFoundError ''Only execution runs can be replayed'')
      else
        let replayed = (\<lambda>existing.
              res_bind (match_replay_or_raise existing (replay_hash source) (r_id source)) (\<lambda>m.
                Inr ((to_run_snapshot existing, m), d)))
        in case find_by_idempotency_key client key d of
             Some existing \<Rightarrow> replayed existing
           | None \<Rightarrow>
               (case replay_new c lm client (str_or principal_id client) key source d of
                  Inl IntegrityError \<Rightarrow> res_bind (get_idempotent_run_after_race client key d) replayed
                | outcome \<Rightarrow> outcome))"

section \<open>Reads\<close>

definition get_run :: "string \<Rightarrow> uuid \<Rightarrow> db \<Rightarrow> run_snapshot res" where
  "get_run client i d = res_bind (get_run_for_client client i d) (\<lambda>r. Inr (to_run_snapshot r))"

text \<open>
  One page of a history: the rows of the run after the anchor the cursor names, in the order of
  the key (a timestamp and the id), at most \<open>max(1, min(limit, 100))\<close> of them.
\<close>

definition page_size :: "int \<Rightarrow> int" where
  "page_size limit = max 1 (min limit 100)"

definition history_page ::
    "('r \<Rightarrow> uuid) \<Rightarrow> ('r \<Rightarrow> time) \<Rightarrow> int \<Rightarrow> uuid option \<Rightarrow> 'r list \<Rightarrow> 'r list res" where
  "history_page ident stamped limit cursor rows =
    res_bind (case cursor of
        None \<Rightarrow> Inr rows
      | Some i \<Rightarrow> (case row_with ident i rows of
            None \<Rightarrow> Inl (InvalidCursorError ''Cursor does not belong to this history'')
          | Some anchor \<Rightarrow> Inr (filter (\<lambda>r. (stamped anchor, ident anchor) < (stamped r, ident r)) rows)))
      (\<lambda>rest. Inr (take (nat (page_size limit)) (sort_key (\<lambda>r. (stamped r, ident r)) rest)))"

definition get_attempts ::
    "string \<Rightarrow> uuid \<Rightarrow> int \<Rightarrow> uuid option \<Rightarrow> db \<Rightarrow> attempt_snapshot list res" where
  "get_attempts client i limit cursor d =
    res_bind (get_run_for_client client i d) (\<lambda>_.
    res_bind (history_page a_id a_started_at limit cursor (filter (\<lambda>a. a_run_id a = i) (attempts d)))
      (\<lambda>rows. Inr (map to_attempt_snapshot rows)))"

definition get_events ::
    "string \<Rightarrow> uuid \<Rightarrow> int \<Rightarrow> uuid option \<Rightarrow> db \<Rightarrow> event_snapshot list res" where
  "get_events client i limit cursor d =
    res_bind (get_run_for_client client i d) (\<lambda>_.
    res_bind (history_page e_id e_created_at limit cursor (filter (\<lambda>e. e_run_id e = i) (events d)))
      (\<lambda>rows. Inr (map to_event_snapshot rows)))"

definition get_evaluations ::
    "string \<Rightarrow> uuid \<Rightarrow> int \<Rightarrow> uuid option \<Rightarrow> db \<Rightarrow> evaluation_snapshot list res" where
  "get_evaluations client i limit cursor d =
    res_bind (get_run_for_client client i d) (\<lambda>_.
    res_bind (history_page v_id v_created_at limit cursor (filter (\<lambda>v. v_run_id v = i) (evaluations d)))
      (\<lambda>rows. Inr (map to_evaluation_snapshot rows)))"

end
