(* ===== verification/Routing.thy ===== *)
theory Routing
  imports Py_Value Py_Float_Text "HOL-Library.Multiset"
begin

text \<open>
  \<open>domain/routing.py\<close>: the provider catalogue, the ranking of candidates under a strategy, and
  the routing decision that is stored with an accepted run.
\<close>

section \<open>Strategies and the catalogue\<close>

datatype routing_strategy = LOWEST_LATENCY | LOWEST_COST | QUALITY_FIRST | BALANCED

fun strategy_value :: "routing_strategy \<Rightarrow> string" where
  "strategy_value LOWEST_LATENCY = ''lowest_latency''"
| "strategy_value LOWEST_COST = ''lowest_cost''"
| "strategy_value QUALITY_FIRST = ''quality_first''"
| "strategy_value BALANCED = ''balanced''"

text \<open>\<open>RoutingStrategy(raw)\<close>: a value that is no member's value raises.\<close>

definition RoutingStrategy_of :: "json \<Rightarrow> routing_strategy option" where
  "RoutingStrategy_of v = (case v of
     JStr s \<Rightarrow> find (\<lambda>st. strategy_value st = s) [LOWEST_LATENCY, LOWEST_COST, QUALITY_FIRST, BALANCED]
   | _ \<Rightarrow> None)"

record provider_metrics =
  provider :: string
  median_latency_ms :: int
  estimated_cost_microusd :: int
  evaluation_pass_rate :: rat
  availability_rate :: rat

type_synonym catalog = "(string \<times> provider_metrics) list"

definition metrics_snapshot :: "provider_metrics \<Rightarrow> bool \<Rightarrow> dict" where
  "metrics_snapshot m available =
    [(''provider'', JStr (provider m)),
     (''median_latency_ms'', JInt (median_latency_ms m)),
     (''estimated_cost_microusd'', JInt (estimated_cost_microusd m)),
     (''evaluation_pass_rate'', JFloat (Fin (evaluation_pass_rate m))),
     (''availability_rate'', JFloat (Fin (if available then availability_rate m else 0))),
     (''available'', JBool available)]"

definition CATALOG_VERSION :: string where
  "CATALOG_VERSION = ''provider-catalog.v1''"

definition DEFAULT_PROVIDER_CATALOG :: catalog where
  "DEFAULT_PROVIDER_CATALOG =
    [(''deterministic'',
      \<lparr>provider = ''deterministic'', median_latency_ms = 5, estimated_cost_microusd = 0,
       evaluation_pass_rate = fl (80/100), availability_rate = 1\<rparr>),
     (''openai'',
      \<lparr>provider = ''openai'', median_latency_ms = 800, estimated_cost_microusd = 1500,
       evaluation_pass_rate = fl (96/100), availability_rate = fl (995/1000)\<rparr>)]"

section \<open>Ranking\<close>

text \<open>
  A sort key is the tuple of the source: numbers first, the provider's name last, compared
  lexicographically. All keys of one strategy have the same shape.
\<close>

type_synonym sort_key = "rat list \<times> string"

record ranked =
  r_provider :: string
  r_metrics :: dict
  r_score :: rat
  r_sort_key :: sort_key

definition balanced_score :: "provider_metrics \<Rightarrow> rat" where
  "balanced_score m =
    (let cost = fl (fl (of_int (estimated_cost_microusd m) / 2000) * fl (35/100));
         latency = fl (fl (of_int (median_latency_ms m) / 1000) * fl (30/100));
         quality = fl (fl (1 - evaluation_pass_rate m) * fl (25/100));
         availability = fl (fl (1 - availability_rate m) * fl (10/100))
     in py_round 6 (fl (fl (fl (cost + latency) + quality) + availability)))"

definition score_of :: "routing_strategy \<Rightarrow> provider_metrics \<Rightarrow> rat" where
  "score_of st m = (case st of
     LOWEST_LATENCY \<Rightarrow> of_int (median_latency_ms m)
   | LOWEST_COST \<Rightarrow> of_int (estimated_cost_microusd m)
   | QUALITY_FIRST \<Rightarrow> py_round 6 (fl (1 - evaluation_pass_rate m))
   | BALANCED \<Rightarrow> balanced_score m)"

definition sort_key_of :: "routing_strategy \<Rightarrow> provider_metrics \<Rightarrow> sort_key" where
  "sort_key_of st m = (case st of
     LOWEST_LATENCY \<Rightarrow>
       ([of_int (median_latency_ms m), of_int (estimated_cost_microusd m),
         - evaluation_pass_rate m, - availability_rate m], provider m)
   | LOWEST_COST \<Rightarrow>
       ([of_int (estimated_cost_microusd m), of_int (median_latency_ms m),
         - evaluation_pass_rate m, - availability_rate m], provider m)
   | QUALITY_FIRST \<Rightarrow>
       ([- evaluation_pass_rate m, - availability_rate m,
         of_int (median_latency_ms m), of_int (estimated_cost_microusd m)], provider m)
   | BALANCED \<Rightarrow> ([balanced_score m], provider m))"

definition ranked_candidate :: "provider_metrics \<Rightarrow> routing_strategy \<Rightarrow> bool \<Rightarrow> ranked" where
  "ranked_candidate m st available =
    \<lparr>r_provider = provider m, r_metrics = metrics_snapshot m available,
     r_score = score_of st m, r_sort_key = sort_key_of st m\<rparr>"

section \<open>The decision\<close>

definition reason_basis :: "routing_strategy \<Rightarrow> ranked \<Rightarrow> string" where
  "reason_basis st sel = (case st of
     LOWEST_LATENCY \<Rightarrow> ''lowest historical median latency ('' @
       (case dget (r_metrics sel) ''median_latency_ms'' of Some (JInt i) \<Rightarrow> show_int i | _ \<Rightarrow> []) @ '' ms)''
   | LOWEST_COST \<Rightarrow> ''lowest estimated cost ('' @
       (case dget (r_metrics sel) ''estimated_cost_microusd'' of Some (JInt i) \<Rightarrow> show_int i | _ \<Rightarrow> [])
       @ '' micro-USD)''
   | QUALITY_FIRST \<Rightarrow> ''highest historical evaluation pass rate ('' @
       (case dget (r_metrics sel) ''evaluation_pass_rate'' of
          Some (JFloat (Fin q)) \<Rightarrow> float_fixed 3 q | _ \<Rightarrow> []) @ '')''
   | BALANCED \<Rightarrow> ''lowest balanced cost/latency/quality/availability score (''
       @ float_repr (r_score sel) @ '')'')"

definition reason :: "routing_strategy \<Rightarrow> ranked \<Rightarrow> nat \<Rightarrow> string" where
  "reason st sel n =
    ''Selected '' @ r_provider sel @ '' using '' @ strategy_value st @ '': '' @ reason_basis st sel @
    '' among '' @ show_int (int n) @ '' available candidate(s).''"

definition candidate_entry :: "ranked \<Rightarrow> json" where
  "candidate_entry c = JDict
    [(''provider'', JStr (r_provider c)),
     (''score'', JFloat (Fin (r_score c))),
     (''metrics'', JDict (r_metrics c))]"

text \<open>A provider name: a string that is not blank.\<close>

fun provider_name :: "json \<Rightarrow> string option" where
  "provider_name (JStr s) = (if strip s = [] then None else Some s)"
| "provider_name _ = None"

text \<open>\<open>candidates\<close> as names, if it is a list with provider names only.\<close>

definition candidate_names :: "json \<Rightarrow> string list option" where
  "candidate_names v = (case v of
     JList xs \<Rightarrow> if xs \<noteq> [] \<and> list_all (\<lambda>x. provider_name x \<noteq> None) xs
                then Some (map (\<lambda>x. case provider_name x of Some s \<Rightarrow> s | None \<Rightarrow> []) xs) else None
   | _ \<Rightarrow> None)"

text \<open>The available candidates, ranked, in the stable order of \<open>list.sort\<close>.\<close>

definition rank_available :: "catalog \<Rightarrow> routing_strategy \<Rightarrow> string list \<Rightarrow> string list \<Rightarrow> ranked list" where
  "rank_available cat st available candidates =
    sort_key r_sort_key
      (List.map_filter
        (\<lambda>c. if c \<in> set available
             then map_option (\<lambda>m. ranked_candidate m st True) (map_of cat c) else None)
        candidates)"

definition resolve_routing_decision ::
    "dict \<Rightarrow> string list option \<Rightarrow> catalog \<Rightarrow> dict res" where
  "resolve_routing_decision requested available_providers cat =
    (case dget_or requested ''routing'' (JDict []) of
      JDict routing \<Rightarrow>
        (case RoutingStrategy_of (dget_or routing ''strategy'' (JStr (strategy_value BALANCED))) of
          None \<Rightarrow> Inl (ValueError
            ''routing.strategy must be one of: lowest_latency, lowest_cost, quality_first, balanced'')
        | Some st \<Rightarrow>
            (case candidate_names (dget_or routing ''candidates''
                   (dget_or requested ''provider_order'' (JList [JStr ''deterministic'']))) of
              None \<Rightarrow> Inl (ValueError ''routing.candidates must be a non-empty list of provider names'')
            | Some candidates \<Rightarrow>
                if \<not> distinct candidates
                then Inl (ValueError ''routing.candidates must not contain duplicates'')
                else let unknown = filter (\<lambda>c. map_of cat c = None) candidates in
                if unknown \<noteq> []
                then Inl (ValueError (''routing.candidates contains unknown providers: ''
                                      @ join '', '' unknown))
                else let available = (case available_providers of None \<Rightarrow> map fst cat | Some ps \<Rightarrow> ps);
                         ranked = rank_available cat st available candidates in
                (case ranked of
                  [] \<Rightarrow> Inl (ValueError ''routing.candidates has no currently available provider'')
                | sel # _ \<Rightarrow>
                    Inr [(''strategy'', JStr (strategy_value st)),
                         (''metrics_source'', JStr CATALOG_VERSION),
                         (''selected_provider'', JStr (r_provider sel)),
                         (''provider_order'', JList (map (\<lambda>c. JStr (r_provider c)) ranked)),
                         (''reason'', JStr (reason st sel (length ranked))),
                         (''ranked_candidates'', JList (map candidate_entry ranked))])))
    | _ \<Rightarrow> Inl (ValueError ''routing must be an object''))"

section \<open>Facts\<close>

text \<open>A catalogue whose entries are filed under their own provider's name.\<close>

definition catalog_ok :: "catalog \<Rightarrow> bool" where
  "catalog_ok cat \<longleftrightarrow> distinct (map fst cat) \<and> list_all (\<lambda>kv. provider (snd kv) = fst kv) cat"

lemma default_catalog_ok: "catalog_ok DEFAULT_PROVIDER_CATALOG"
  by (simp add: catalog_ok_def DEFAULT_PROVIDER_CATALOG_def)

lemma catalog_ok_provider: "catalog_ok cat \<Longrightarrow> map_of cat c = Some m \<Longrightarrow> provider m = c"
  by (auto simp: catalog_ok_def list_all_iff dest!: map_of_SomeD)

lemma ranked_candidate_simps [simp]:
  "r_provider (ranked_candidate m st a) = provider m"
  "r_metrics (ranked_candidate m st a) = metrics_snapshot m a"
  "r_score (ranked_candidate m st a) = score_of st m"
  "r_sort_key (ranked_candidate m st a) = sort_key_of st m"
  by (simp_all add: ranked_candidate_def)

lemma candidate_names_not_Nil: "candidate_names v = Some cs \<Longrightarrow> cs \<noteq> []"
  by (auto simp: candidate_names_def split: json.splits if_splits)

lemma providers_map_filter:
  assumes "catalog_ok cat" and "filter (\<lambda>c. map_of cat c = None) cs = []"
  shows "map r_provider
    (List.map_filter
       (\<lambda>c. if c \<in> set avail then map_option (\<lambda>m. ranked_candidate m st True) (map_of cat c) else None)
       cs) = filter (\<lambda>c. c \<in> set avail) cs"
  using assms
proof (induction cs)
  case Nil
  then show ?case by (simp add: List.map_filter_simps)
next
  case (Cons c cs)
  then obtain m where m: "map_of cat c = Some m" by (auto split: if_splits)
  then have "provider m = c" using Cons.prems(1) by (simp add: catalog_ok_provider)
  with Cons m show ?case by (simp add: List.map_filter_simps split: if_splits)
qed

text \<open>The providers of the ranking are exactly the available candidates, each as often as it was named.\<close>

lemma mset_rank_available:
  assumes "catalog_ok cat" and "filter (\<lambda>c. map_of cat c = None) cs = []"
  shows "mset (map r_provider (rank_available cat st avail cs)) = mset (filter (\<lambda>c. c \<in> set avail) cs)"
  unfolding rank_available_def providers_map_filter [OF assms, of avail st, symmetric]
  by simp

lemma sorted_rank_available: "sorted (map r_sort_key (rank_available cat st avail cs))"
  by (simp add: rank_available_def)

lemma resolve_InrE:
  assumes "resolve_routing_decision requested avail cat = Inr decision"
  obtains routing st cs rs where
    "dget_or requested ''routing'' (JDict []) = JDict routing"
    "RoutingStrategy_of (dget_or routing ''strategy'' (JStr (strategy_value BALANCED))) = Some st"
    "candidate_names (dget_or routing ''candidates''
       (dget_or requested ''provider_order'' (JList [JStr ''deterministic'']))) = Some cs"
    "distinct cs" "filter (\<lambda>c. map_of cat c = None) cs = []" "rs \<noteq> []"
    "rs = rank_available cat st (case avail of None \<Rightarrow> map fst cat | Some ps \<Rightarrow> ps) cs"
    "dget decision ''strategy'' = Some (JStr (strategy_value st))"
    "dget decision ''selected_provider'' = Some (JStr (r_provider (hd rs)))"
    "dget decision ''provider_order'' = Some (JList (map (\<lambda>c. JStr (r_provider c)) rs))"
  using assms
  by (simp add: resolve_routing_decision_def Let_def split: json.splits option.splits if_splits list.splits)
    fastforce+

lemma resolve_only_ValueError:
  "resolve_routing_decision requested avail cat = Inl e \<Longrightarrow> is_ValueError e"
  by (auto simp: resolve_routing_decision_def Let_def
      split: json.splits option.splits if_splits list.splits)

lemma rank_available_key:
  assumes "catalog_ok cat" "r \<in> set (rank_available cat st avail cs)"
  shows "r_sort_key r = sort_key_of st (the (map_of cat (r_provider r)))"
  using assms catalog_ok_provider [OF assms(1)]
  by (auto simp: rank_available_def List.map_filter_def split: if_splits)

text \<open>The names in a ranking: the available candidates, each once, in the order of their keys.\<close>

lemma rank_available_names:
  assumes "catalog_ok cat" "distinct cs" "filter (\<lambda>c. map_of cat c = None) cs = []"
    and rs: "rs = rank_available cat st (case avail of None \<Rightarrow> map fst cat | Some ps \<Rightarrow> ps) cs"
  shows "distinct (map r_provider rs)"
    and "set (map r_provider rs) = {c \<in> set cs. case avail of None \<Rightarrow> True | Some ps \<Rightarrow> c \<in> set ps}"
    and "sorted (map (\<lambda>c. sort_key_of st (the (map_of cat c))) (map r_provider rs))"
proof -
  let ?av = "case avail of None \<Rightarrow> map fst cat | Some ps \<Rightarrow> ps"
  have mset: "mset (map r_provider rs) = mset (filter (\<lambda>c. c \<in> set ?av) cs)"
    using mset_rank_available [OF assms(1,3)] rs by simp
  then show "distinct (map r_provider rs)"
    using assms(2) by (metis distinct_filter mset_eq_imp_distinct_iff)
  have "\<forall>c \<in> set cs. c \<in> fst ` set cat"
    using assms(3) by (simp add: filter_empty_conv map_of_eq_None_iff)
  then show "set (map r_provider rs) =
      {c \<in> set cs. case avail of None \<Rightarrow> True | Some ps \<Rightarrow> c \<in> set ps}"
    using mset_eq_setD [OF mset] by (auto split: option.splits)
  have "map (\<lambda>c. sort_key_of st (the (map_of cat c))) (map r_provider rs) = map r_sort_key rs"
    using rank_available_key [OF assms(1)] rs by auto
  then show "sorted (map (\<lambda>c. sort_key_of st (the (map_of cat c))) (map r_provider rs))"
    using rs sorted_rank_available by metis
qed

lemma resolve_order:
  assumes "catalog_ok cat" "resolve_routing_decision requested avail cat = Inr decision"
  obtains order where "dget decision ''provider_order'' = Some (JList (map JStr order))"
    "order \<noteq> []" "distinct order" "\<And>c. c \<in> set order \<Longrightarrow> map_of cat c \<noteq> None"
    "\<And>c ps. c \<in> set order \<Longrightarrow> avail = Some ps \<Longrightarrow> c \<in> set ps"
  using assms(2)
proof (rule resolve_InrE)
  fix routing st cs rs
  assume d: "distinct cs" "filter (\<lambda>c. map_of cat c = None) cs = []" "rs \<noteq> []"
    and rs: "rs = rank_available cat st (case avail of None \<Rightarrow> map fst cat | Some ps \<Rightarrow> ps) cs"
    and o: "dget decision ''provider_order'' = Some (JList (map (\<lambda>c. JStr (r_provider c)) rs))"
  note n = rank_available_names [OF assms(1) d(1,2) rs]
  show thesis
  proof (rule that)
    show "dget decision ''provider_order'' = Some (JList (map JStr (map r_provider rs)))"
      using o by (simp add: comp_def)
    show "map r_provider rs \<noteq> []" using d(3) by simp
    show "distinct (map r_provider rs)" by (rule n(1))
    show "map_of cat c \<noteq> None" if "c \<in> set (map r_provider rs)" for c
      using that d(2) unfolding n(2) by (auto simp: filter_empty_conv)
    show "c \<in> set ps" if "c \<in> set (map r_provider rs)" "avail = Some ps" for c ps
      using that unfolding n(2) by auto
  qed
qed

section \<open>The decision is the sorted list of the available candidates\<close>

text \<open>
  A routing decision lists exactly the requested candidates that are available, each once,
  ordered by the sort key of the requested strategy; the selected provider is the first of them.
\<close>

theorem routing_decision_sorted:
  assumes "catalog_ok cat" "resolve_routing_decision requested avail cat = Inr decision"
  shows "\<exists>routing st cs order.
    dget_or requested ''routing'' (JDict []) = JDict routing \<and>
    candidate_names (dget_or routing ''candidates''
       (dget_or requested ''provider_order'' (JList [JStr ''deterministic'']))) = Some cs \<and>
    RoutingStrategy_of (dget_or routing ''strategy'' (JStr ''balanced'')) = Some st \<and>
    dget decision ''strategy'' = Some (JStr (strategy_value st)) \<and>
    dget decision ''provider_order'' = Some (JList (map JStr order)) \<and>
    dget decision ''selected_provider'' = Some (JStr (hd order)) \<and>
    order \<noteq> [] \<and> distinct order \<and>
    set order = {c \<in> set cs. case avail of None \<Rightarrow> True | Some ps \<Rightarrow> c \<in> set ps} \<and>
    sorted (map (\<lambda>c. sort_key_of st (the (map_of cat c))) order)"
proof -
  obtain routing st cs rs where d:
    "dget_or requested ''routing'' (JDict []) = JDict routing"
    "RoutingStrategy_of (dget_or routing ''strategy'' (JStr (strategy_value BALANCED))) = Some st"
    "candidate_names (dget_or routing ''candidates''
       (dget_or requested ''provider_order'' (JList [JStr ''deterministic'']))) = Some cs"
    "distinct cs" "filter (\<lambda>c. map_of cat c = None) cs = []" "rs \<noteq> []"
    "rs = rank_available cat st (case avail of None \<Rightarrow> map fst cat | Some ps \<Rightarrow> ps) cs"
    "dget decision ''strategy'' = Some (JStr (strategy_value st))"
    "dget decision ''selected_provider'' = Some (JStr (r_provider (hd rs)))"
    "dget decision ''provider_order'' = Some (JList (map (\<lambda>c. JStr (r_provider c)) rs))"
    using assms(2) by (rule resolve_InrE)
  show ?thesis
    by (rule exI [of _ routing], rule exI [of _ st], rule exI [of _ cs],
        rule exI [of _ "map r_provider rs"])
      (use d rank_available_names [OF assms(1) d(4,5,7)] in \<open>simp add: hd_map comp_def\<close>)
qed

theorem routing_decision_sorted_witness:
  "\<exists>decision order.
     resolve_routing_decision [(''routing'', JDict [(''strategy'', JStr ''lowest_cost''),
       (''candidates'', JList [JStr ''openai'', JStr ''deterministic''])])] None
       DEFAULT_PROVIDER_CATALOG = Inr decision \<and>
     dget decision ''provider_order'' = Some (JList (map JStr order)) \<and> order \<noteq> [] \<and>
     set order = {''openai'', ''deterministic''}"
  (is "\<exists>decision order. ?run = Inr decision \<and> _")
proof -
  have "case ?run of Inr _ \<Rightarrow> True | Inl _ \<Rightarrow> False" by code_simp
  then obtain decision where "?run = Inr decision" by (cases ?run) auto
  moreover have "candidate_names (JList [JStr ''openai'', JStr ''deterministic'']) =
      Some [''openai'', ''deterministic'']" by code_simp
  ultimately show ?thesis
    using routing_decision_sorted [OF default_catalog_ok \<open>?run = Inr decision\<close>]
    by (auto simp: dget_or_def)
qed

end
