(* ===== verification/Retry.thy ===== *)
theory Retry
  imports Routing
begin

text \<open>
  \<open>domain/policy.py\<close> and \<open>domain/retry.py\<close>: the run policy a caller may send, the immutable retry
  contract resolved from it and stored with the run, the backoff delay, and the classification
  of execution failures.
\<close>

section \<open>The requested policy\<close>

text \<open>
  \<open>RunPolicyRequest.model_validate(d).model_dump(exclude_none=True)\<close>. The schema forbids unknown
  fields. A field that is absent or null is dropped; a strict int field takes ints only, a strict
  float field takes finite ints and floats and dumps a float, a literal list takes one or two of
  the two provider names.
\<close>

definition validation_error :: exn where
  "validation_error = ValueError ''validation error for RunPolicyRequest''"

text \<open>One field: the dumped value, None when it is absent or null, or an error.\<close>

definition opt_field :: "dict \<Rightarrow> string \<Rightarrow> (json \<Rightarrow> json option) \<Rightarrow> json option res" where
  "opt_field d k check = (case dget d k of
     None \<Rightarrow> Inr None
   | Some JNull \<Rightarrow> Inr None
   | Some v \<Rightarrow> (case check v of None \<Rightarrow> Inl validation_error | Some w \<Rightarrow> Inr (Some w)))"

definition strict_int_between :: "int \<Rightarrow> int \<Rightarrow> json \<Rightarrow> json option" where
  "strict_int_between lo hi v = (case v of
     JInt i \<Rightarrow> if lo \<le> i \<and> i \<le> hi then Some (JInt i) else None
   | _ \<Rightarrow> None)"

definition strict_float_between :: "rat \<Rightarrow> rat \<Rightarrow> json \<Rightarrow> json option" where
  "strict_float_between lo hi v = (case v of
     JInt i \<Rightarrow> if lo \<le> of_int i \<and> of_int i \<le> hi then Some (JFloat (Fin (of_int i))) else None
   | JFloat (Fin q) \<Rightarrow> if lo \<le> q \<and> q \<le> hi then Some (JFloat (Fin q)) else None
   | _ \<Rightarrow> None)"

definition literal_str :: "string list \<Rightarrow> json \<Rightarrow> bool" where
  "literal_str allowed v = (case v of JStr s \<Rightarrow> s \<in> set allowed | _ \<Rightarrow> False)"

definition provider_list :: "json \<Rightarrow> json option" where
  "provider_list v = (case v of
     JList xs \<Rightarrow> if 1 \<le> length xs \<and> length xs \<le> 2 \<and>
                   list_all (literal_str [''deterministic'', ''openai'']) xs
                then Some (JList xs) else None
   | _ \<Rightarrow> None)"

definition bounded_str :: "nat \<Rightarrow> nat \<Rightarrow> json \<Rightarrow> json option" where
  "bounded_str lo hi v = (case v of
     JStr s \<Rightarrow> if lo \<le> length s \<and> length s \<le> hi then Some (JStr s) else None
   | _ \<Rightarrow> None)"

definition routing_request :: "json \<Rightarrow> json option" where
  "routing_request v = (case v of
     JDict d \<Rightarrow>
       if \<not> list_all (\<lambda>k. k \<in> {''strategy'', ''candidates''}) (dkeys d) then None
       else if \<not> literal_str [''balanced'', ''lowest_latency'', ''lowest_cost'', ''quality_first'']
                 (dget_or d ''strategy'' (JStr ''balanced'')) then None
       else (case opt_field d ''candidates'' provider_list of
               Inl _ \<Rightarrow> None
             | Inr c \<Rightarrow> Some (JDict
                 ((''strategy'', dget_or d ''strategy'' (JStr ''balanced'')) #
                  (case c of None \<Rightarrow> [] | Some w \<Rightarrow> [(''candidates'', w)]))))
   | _ \<Rightarrow> None)"

definition policy_checks :: "(string \<times> (json \<Rightarrow> json option)) list" where
  "policy_checks =
    [(''max_attempts'', strict_int_between 1 20),
     (''attempt_timeout_seconds'', strict_float_between 1 600),
     (''initial_backoff_seconds'', strict_float_between 1 3600),
     (''max_backoff_seconds'', strict_float_between 1 86400),
     (''provider_order'', provider_list),
     (''routing'', routing_request),
     (''model'', bounded_str 1 128),
     (''instructions'', bounded_str 1 4096),
     (''max_output_tokens'', strict_int_between 1 8192)]"

fun dump_fields :: "(string \<times> (json \<Rightarrow> json option)) list \<Rightarrow> dict \<Rightarrow> dict res" where
  "dump_fields [] d = Inr []"
| "dump_fields ((k, check) # cs) d =
     res_bind (opt_field d k check) (\<lambda>v.
     res_bind (dump_fields cs d) (\<lambda>rest.
       Inr (case v of None \<Rightarrow> rest | Some w \<Rightarrow> (k, w) # rest)))"

definition RunPolicyRequest_dump :: "dict \<Rightarrow> dict res" where
  "RunPolicyRequest_dump d =
    (if list_all (\<lambda>k. k \<in> set (map fst policy_checks)) (dkeys d)
     then dump_fields policy_checks d else Inl validation_error)"

section \<open>Execution failures\<close>

datatype execution_error_code =
    PROVIDER_TIMEOUT | PROVIDER_RATE_LIMITED | PROVIDER_UNAVAILABLE | PROVIDER_SERVER_ERROR
  | PROVIDER_AUTH_FAILED | PROVIDER_BAD_REQUEST | EXECUTION_ERROR | EXECUTION_LEASE_EXPIRED
  | RESOURCE_QUOTA_EXCEEDED

fun error_code_value :: "execution_error_code \<Rightarrow> string" where
  "error_code_value PROVIDER_TIMEOUT = ''PROVIDER_TIMEOUT''"
| "error_code_value PROVIDER_RATE_LIMITED = ''PROVIDER_RATE_LIMITED''"
| "error_code_value PROVIDER_UNAVAILABLE = ''PROVIDER_UNAVAILABLE''"
| "error_code_value PROVIDER_SERVER_ERROR = ''PROVIDER_SERVER_ERROR''"
| "error_code_value PROVIDER_AUTH_FAILED = ''PROVIDER_AUTH_FAILED''"
| "error_code_value PROVIDER_BAD_REQUEST = ''PROVIDER_BAD_REQUEST''"
| "error_code_value EXECUTION_ERROR = ''EXECUTION_ERROR''"
| "error_code_value EXECUTION_LEASE_EXPIRED = ''EXECUTION_LEASE_EXPIRED''"
| "error_code_value RESOURCE_QUOTA_EXCEEDED = ''RESOURCE_QUOTA_EXCEEDED''"

definition error_codes :: "execution_error_code list" where
  "error_codes = [PROVIDER_TIMEOUT, PROVIDER_RATE_LIMITED, PROVIDER_UNAVAILABLE,
     PROVIDER_SERVER_ERROR, PROVIDER_AUTH_FAILED, PROVIDER_BAD_REQUEST, EXECUTION_ERROR,
     EXECUTION_LEASE_EXPIRED, RESOURCE_QUOTA_EXCEEDED]"

definition RETRYABLE_ERROR_CODES :: "execution_error_code list" where
  "RETRYABLE_ERROR_CODES = [PROVIDER_TIMEOUT, PROVIDER_RATE_LIMITED, PROVIDER_UNAVAILABLE,
     PROVIDER_SERVER_ERROR, EXECUTION_ERROR, EXECUTION_LEASE_EXPIRED]"

definition is_retryable_error :: "string \<Rightarrow> bool" where
  "is_retryable_error name = (case find (\<lambda>c. error_code_value c = name) error_codes of
     Some c \<Rightarrow> c \<in> set RETRYABLE_ERROR_CODES | None \<Rightarrow> False)"

text \<open>\<open>getattr(exc, ''status_code'', None)\<close>.\<close>

fun status_code_of :: "exn \<Rightarrow> int option" where
  "status_code_of (ProviderConfigurationError _) = Some 400"
| "status_code_of (ProviderHttpError n) = Some n"
| "status_code_of (ForeignError _ n) = n"
| "status_code_of _ = None"

fun is_QuotaExceededError :: "exn \<Rightarrow> bool" where
  "is_QuotaExceededError (QuotaExceededError _) = True"
| "is_QuotaExceededError _ = False"

definition classify_exception :: "exn \<Rightarrow> execution_error_code" where
  "classify_exception e =
    (if is_QuotaExceededError e then RESOURCE_QUOTA_EXCEEDED
     else if e = TimeoutError then PROVIDER_TIMEOUT
     else case status_code_of e of
       None \<Rightarrow> EXECUTION_ERROR
     | Some n \<Rightarrow>
         if n = 429 then PROVIDER_RATE_LIMITED
         else if n = 401 \<or> n = 403 then PROVIDER_AUTH_FAILED
         else if 500 \<le> n \<and> n \<le> 599 then PROVIDER_SERVER_ERROR
         else if 400 \<le> n \<and> n \<le> 499 then PROVIDER_BAD_REQUEST
         else EXECUTION_ERROR)"

section \<open>The retry contract\<close>

text \<open>A \<open>RetryPolicy\<close> whose construction did not raise: its floats are finite.\<close>

record retry_policy =
  max_attempts :: int
  attempt_timeout_seconds :: rat
  initial_backoff_seconds :: rat
  max_backoff_seconds :: rat
  provider_order :: "string list"

text \<open>The constructor with the checks of \<open>__post_init__\<close>, in their order.\<close>

definition RetryPolicy ::
    "int \<Rightarrow> pyfloat \<Rightarrow> pyfloat \<Rightarrow> pyfloat \<Rightarrow> string list \<Rightarrow> retry_policy res" where
  "RetryPolicy n timeout initial maximum order =
    (if \<not> (1 \<le> n \<and> n \<le> 20) then Inl (ValueError ''max_attempts must be between 1 and 20'')
     else case (timeout, initial, maximum) of
       (Fin t, Fin i, Fin m) \<Rightarrow>
         if t \<le> 0 then Inl (ValueError ''attempt_timeout_seconds must be greater than 0'')
         else if i \<le> 0 then Inl (ValueError ''initial_backoff_seconds must be greater than 0'')
         else if m < i
         then Inl (ValueError ''max_backoff_seconds must be at least initial_backoff_seconds'')
         else if order = [] \<or> list_ex (\<lambda>p. strip p = []) order
         then Inl (ValueError ''provider_order must contain at least one non-empty provider'')
         else Inr \<lparr>max_attempts = n, attempt_timeout_seconds = t, initial_backoff_seconds = i,
                   max_backoff_seconds = m, provider_order = order\<rparr>
     | _ \<Rightarrow> Inl (ValueError ''retry values must be finite''))"

definition delay_after_attempt :: "retry_policy \<Rightarrow> int \<Rightarrow> rat res" where
  "delay_after_attempt p attempt_number =
    (if attempt_number < 1 then Inl (ValueError ''attempt_number must be at least 1'')
     else Inr (max 1 (min (max_backoff_seconds p)
            (fl (initial_backoff_seconds p * 2 ^ nat (min (attempt_number - 1) 20))))))"

definition as_snapshot :: "retry_policy \<Rightarrow> dict" where
  "as_snapshot p =
    [(''max_attempts'', JInt (max_attempts p)),
     (''attempt_timeout_seconds'', JFloat (Fin (attempt_timeout_seconds p))),
     (''initial_backoff_seconds'', JFloat (Fin (initial_backoff_seconds p))),
     (''max_backoff_seconds'', JFloat (Fin (max_backoff_seconds p))),
     (''provider_order'', JList (map JStr (provider_order p)))]"

definition positive_int :: "json \<Rightarrow> string \<Rightarrow> int res" where
  "positive_int v name = (case v of
     JInt i \<Rightarrow> if i < 1 then Inl (ValueError (name @ '' must be a positive integer'')) else Inr i
   | _ \<Rightarrow> Inl (ValueError (name @ '' must be a positive integer'')))"

text \<open>
  \<open>math.isfinite\<close> converts an int to a float first and raises \<open>OverflowError\<close> when the int rounds
  to no finite float.
\<close>

definition int_exceeds_float :: "int \<Rightarrow> bool" where
  "int_exceeds_float i \<longleftrightarrow> 2 ^ 1024 - 2 ^ 970 \<le> \<bar>i\<bar>"

definition positive_float :: "json \<Rightarrow> string \<Rightarrow> pyfloat res" where
  "positive_float v name = (case v of
     JInt i \<Rightarrow>
       if int_exceeds_float i then Inl OverflowError
       else if i \<le> 0 then Inl (ValueError (name @ '' must be a positive number''))
       else Inr (Fin (fl (of_int i)))
   | JFloat (Fin q) \<Rightarrow>
       if q \<le> 0 then Inl (ValueError (name @ '' must be a positive number'')) else Inr (Fin q)
   | _ \<Rightarrow> Inl (ValueError (name @ '' must be a positive number'')))"

fun str_of :: "json \<Rightarrow> string" where
  "str_of (JStr s) = s"
| "str_of _ = []"

definition from_snapshot :: "dict \<Rightarrow> retry_policy res" where
  "from_snapshot value =
    (case dget_or value ''provider_order'' (JList [JStr ''deterministic'']) of
      JList order \<Rightarrow>
        if \<not> list_all is_str order then Inl (ValueError ''provider_order must be a list of strings'')
        else
          res_bind (positive_int (dget_or value ''max_attempts'' (JInt 3)) ''max_attempts'') (\<lambda>n.
          res_bind (positive_float (dget_or value ''attempt_timeout_seconds'' (JInt 60))
                      ''attempt_timeout_seconds'') (\<lambda>t.
          res_bind (positive_float (dget_or value ''initial_backoff_seconds'' (JInt 1))
                      ''initial_backoff_seconds'') (\<lambda>i.
          res_bind (positive_float (dget_or value ''max_backoff_seconds'' (JInt 60))
                      ''max_backoff_seconds'') (\<lambda>m.
            RetryPolicy (min 20 n) t i m (map str_of order)))))
    | _ \<Rightarrow> Inl (ValueError ''provider_order must be a list of strings''))"

section \<open>The stored snapshot\<close>

text \<open>The server's limits, the keyword arguments of \<open>build_policy_snapshot\<close>.\<close>

record policy_limits =
  lim_max_attempts :: int
  lim_attempt_timeout :: rat
  lim_initial_backoff :: rat
  lim_max_backoff :: rat
  lim_available :: "string list option"
  lim_max_output_tokens :: int

definition num_at :: "dict \<Rightarrow> string \<Rightarrow> rat \<Rightarrow> rat" where
  "num_at d k v = (case dget d k of
     None \<Rightarrow> v
   | Some w \<Rightarrow> (case w of JFloat (Fin q) \<Rightarrow> q | JInt i \<Rightarrow> rat_of_int i | _ \<Rightarrow> v))"

definition int_at :: "dict \<Rightarrow> string \<Rightarrow> int \<Rightarrow> int" where
  "int_at d k v = (case dget d k of Some (JInt i) \<Rightarrow> i | _ \<Rightarrow> v)"

definition jfloat :: "rat \<Rightarrow> json" where
  "jfloat q = JFloat (Fin q)"

text \<open>
  The requested values merged with the server's defaults and clamped to its limits: one function
  per assignment to the snapshot, applied in the order of the source. The source may leave the
  int 1 as initial backoff where the model has the float 1; the merge with the contract's own
  snapshot turns either into the float.
\<close>

definition default_fields :: "policy_limits \<Rightarrow> dict \<Rightarrow> dict" where
  "default_fields lm s =
    setdefault ''max_backoff_seconds'' (jfloat (lim_max_backoff lm))
    (setdefault ''initial_backoff_seconds'' (jfloat (lim_initial_backoff lm))
    (setdefault ''attempt_timeout_seconds'' (jfloat (lim_attempt_timeout lm))
    (setdefault ''max_attempts'' (JInt (lim_max_attempts lm)) s)))"

definition cap_max_attempts :: "policy_limits \<Rightarrow> dict \<Rightarrow> dict" where
  "cap_max_attempts lm s = dset ''max_attempts''
     (JInt (min (int_at s ''max_attempts'' (lim_max_attempts lm)) (lim_max_attempts lm))) s"

definition cap_attempt_timeout :: "policy_limits \<Rightarrow> dict \<Rightarrow> dict" where
  "cap_attempt_timeout lm s = dset ''attempt_timeout_seconds''
     (jfloat (min (num_at s ''attempt_timeout_seconds'' (lim_attempt_timeout lm))
                  (lim_attempt_timeout lm))) s"

definition cap_initial_backoff :: "policy_limits \<Rightarrow> dict \<Rightarrow> dict" where
  "cap_initial_backoff lm s = dset ''initial_backoff_seconds''
     (jfloat (min (lim_max_backoff lm) (max (max 1 (lim_initial_backoff lm))
        (num_at s ''initial_backoff_seconds'' (lim_initial_backoff lm))))) s"

definition cap_max_backoff :: "policy_limits \<Rightarrow> dict \<Rightarrow> dict" where
  "cap_max_backoff lm s = dset ''max_backoff_seconds''
     (jfloat (max (num_at s ''initial_backoff_seconds'' (lim_initial_backoff lm))
        (min (num_at s ''max_backoff_seconds'' (lim_max_backoff lm)) (lim_max_backoff lm)))) s"

definition cap_output_tokens :: "policy_limits \<Rightarrow> dict \<Rightarrow> dict" where
  "cap_output_tokens lm s = dset ''max_output_tokens''
     (JInt (min (int_at s ''max_output_tokens'' (lim_max_output_tokens lm))
                (lim_max_output_tokens lm))) s"

definition clamp_policy :: "policy_limits \<Rightarrow> dict \<Rightarrow> dict" where
  "clamp_policy lm s =
    cap_output_tokens lm (cap_max_backoff lm (cap_initial_backoff lm
      (cap_attempt_timeout lm (cap_max_attempts lm (default_fields lm s)))))"

lemmas clamp_policy_defs = clamp_policy_def default_fields_def cap_max_attempts_def
  cap_attempt_timeout_def cap_initial_backoff_def cap_max_backoff_def cap_output_tokens_def

definition build_policy_snapshot :: "dict \<Rightarrow> policy_limits \<Rightarrow> dict res" where
  "build_policy_snapshot requested lm =
    res_bind (RunPolicyRequest_dump requested) (\<lambda>snapshot.
      if num_at snapshot ''max_backoff_seconds'' (lim_max_backoff lm)
         < num_at snapshot ''initial_backoff_seconds'' (lim_initial_backoff lm)
      then Inl (ValueError ''max_backoff_seconds must be at least initial_backoff_seconds'')
      else let s = clamp_policy lm snapshot in
        res_bind (resolve_routing_decision s (lim_available lm) DEFAULT_PROVIDER_CATALOG) (\<lambda>decision.
          let order = dget_or decision ''provider_order'' (JList []);
              s = dset ''provider_order'' order s;
              s = dset ''routing'' (JDict
                    [(''strategy'', dget_or decision ''strategy'' JNull),
                     (''candidates'', order),
                     (''decision'', JDict decision)]) s
          in res_bind (from_snapshot s) (\<lambda>policy. Inr (dmerge s (as_snapshot policy)))))"

section \<open>Facts\<close>

text \<open>The type invariant of a constructed \<open>RetryPolicy\<close>.\<close>

definition retry_ok :: "retry_policy \<Rightarrow> bool" where
  "retry_ok p \<longleftrightarrow> 1 \<le> max_attempts p \<and> max_attempts p \<le> 20 \<and> 0 < attempt_timeout_seconds p \<and>
    0 < initial_backoff_seconds p \<and> initial_backoff_seconds p \<le> max_backoff_seconds p \<and>
    provider_order p \<noteq> [] \<and> list_all (\<lambda>s. strip s \<noteq> []) (provider_order p)"

lemma RetryPolicy_ok: "RetryPolicy n t i m ord = Inr p \<Longrightarrow> retry_ok p"
  by (auto simp: RetryPolicy_def retry_ok_def list_all_iff list_ex_iff
      split: if_splits pyfloat.splits)

lemma RetryPolicy_fields:
  "retry_ok p \<Longrightarrow> RetryPolicy (max_attempts p) (Fin (attempt_timeout_seconds p))
     (Fin (initial_backoff_seconds p)) (Fin (max_backoff_seconds p)) (provider_order p) = Inr p"
  by (auto simp: RetryPolicy_def retry_ok_def list_all_iff list_ex_iff)

lemma RetryPolicy_only_ValueError: "RetryPolicy n t i m ord = Inl e \<Longrightarrow> is_ValueError e"
  by (auto simp: RetryPolicy_def split: if_splits pyfloat.splits)

lemma positive_int_Inr: "positive_int v s = Inr n \<longleftrightarrow> v = JInt n \<and> 1 \<le> n"
  by (auto simp: positive_int_def split: json.splits if_splits)

lemma positive_int_only_ValueError: "positive_int v s = Inl e \<Longrightarrow> is_ValueError e"
  by (auto simp: positive_int_def split: json.splits if_splits)

lemma positive_float_Fin [simp]: "0 < q \<Longrightarrow> positive_float (JFloat (Fin q)) s = Inr (Fin q)"
  by (simp add: positive_float_def)

lemma positive_float_error:
  "positive_float v s = Inl e \<Longrightarrow> is_ValueError e \<or> e = OverflowError \<and> (\<exists>i. v = JInt i \<and> int_exceeds_float i)"
  by (auto simp: positive_float_def split: json.splits if_splits pyfloat.splits)

lemma from_snapshot_ok: "from_snapshot d = Inr p \<Longrightarrow> retry_ok p"
  by (auto simp: from_snapshot_def split: json.splits if_splits dest: RetryPolicy_ok)

text \<open>Reading a snapshot that holds the contract's fields, whatever else it holds.\<close>

lemma from_snapshot_fields:
  assumes "retry_ok p"
    and "dget d ''max_attempts'' = Some (JInt (max_attempts p))"
    and "dget d ''attempt_timeout_seconds'' = Some (JFloat (Fin (attempt_timeout_seconds p)))"
    and "dget d ''initial_backoff_seconds'' = Some (JFloat (Fin (initial_backoff_seconds p)))"
    and "dget d ''max_backoff_seconds'' = Some (JFloat (Fin (max_backoff_seconds p)))"
    and "dget d ''provider_order'' = Some (JList (map JStr (provider_order p)))"
  shows "from_snapshot d = Inr p"
proof -
  have "list_all is_str (map JStr (provider_order p))" by (simp add: list_all_iff)
  moreover have "map str_of (map JStr (provider_order p)) = provider_order p"
    by (simp add: comp_def)
  moreover have "positive_int (JInt (max_attempts p)) ''max_attempts'' = Inr (max_attempts p)"
    "min 20 (max_attempts p) = max_attempts p"
    using assms(1) by (auto simp: positive_int_Inr retry_ok_def)
  moreover have "0 < max_backoff_seconds p" using assms(1) by (auto simp: retry_ok_def)
  ultimately show ?thesis
    using assms by (simp add: from_snapshot_def dget_or_def RetryPolicy_fields retry_ok_def)
qed

lemma dget_as_snapshot:
  "dget (as_snapshot p) ''max_attempts'' = Some (JInt (max_attempts p))"
  "dget (as_snapshot p) ''attempt_timeout_seconds'' = Some (JFloat (Fin (attempt_timeout_seconds p)))"
  "dget (as_snapshot p) ''initial_backoff_seconds'' = Some (JFloat (Fin (initial_backoff_seconds p)))"
  "dget (as_snapshot p) ''max_backoff_seconds'' = Some (JFloat (Fin (max_backoff_seconds p)))"
  "dget (as_snapshot p) ''provider_order'' = Some (JList (map JStr (provider_order p)))"
  by (simp_all add: as_snapshot_def)

lemma from_as_snapshot: "retry_ok p \<Longrightarrow> from_snapshot (as_snapshot p) = Inr p"
  by (rule from_snapshot_fields) (simp_all add: dget_as_snapshot)

lemma from_merged_snapshot: "retry_ok p \<Longrightarrow> from_snapshot (dmerge d (as_snapshot p)) = Inr p"
  by (rule from_snapshot_fields) (simp_all add: dget_dmerge as_snapshot_def)

lemma delay_mono:
  assumes "0 \<le> initial_backoff_seconds p" "m \<le> n"
    and "delay_after_attempt p m = Inr d" "delay_after_attempt p n = Inr e"
  shows "d \<le> e"
proof -
  have "initial_backoff_seconds p * 2 ^ nat (min (m - 1) 20)
      \<le> initial_backoff_seconds p * 2 ^ nat (min (n - 1) 20)"
    using assms(1,2) by (intro mult_left_mono power_increasing) auto
  moreover have "0 \<le> initial_backoff_seconds p * 2 ^ nat (min (m - 1) 20)"
    using assms(1) by simp
  ultimately have "fl (initial_backoff_seconds p * 2 ^ nat (min (m - 1) 20))
      \<le> fl (initial_backoff_seconds p * 2 ^ nat (min (n - 1) 20))"
    by (intro fl_mono_nonneg)
  then show ?thesis
    using assms(3,4) by (auto simp: delay_after_attempt_def max_def min_def split: if_splits)
qed

text \<open>Doubling a float is exact, so the delays before the cap are the exact powers.\<close>

lemma delay_exact:
  assumes "is_double (initial_backoff_seconds p)" "0 < initial_backoff_seconds p" "1 \<le> n"
  shows "delay_after_attempt p n = Inr (max 1 (min (max_backoff_seconds p)
     (initial_backoff_seconds p * 2 ^ nat (min (n - 1) 20))))"
  using assms by (simp add: delay_after_attempt_def fl_scale is_double_def)

lemma delay_bounds:
  "delay_after_attempt p n = Inr d \<Longrightarrow> 1 \<le> d \<and> d \<le> max 1 (max_backoff_seconds p)"
  by (auto simp: delay_after_attempt_def min_le_iff_disj le_max_iff_disj split: if_splits)


text \<open>Every dumped field passed the check of its declaration.\<close>

lemma dump_fields_checked:
  "dump_fields cs d = Inr s \<Longrightarrow> dget s k = Some w \<Longrightarrow>
    \<exists>check v. (k, check) \<in> set cs \<and> check v = Some w"
proof (induction cs d arbitrary: s rule: dump_fields.induct)
  case (2 k' check cs d)
  from "2.prems"(1) obtain v rest where v: "opt_field d k' check = Inr v"
    and rest: "dump_fields cs d = Inr rest"
    and s: "s = (case v of None \<Rightarrow> rest | Some w \<Rightarrow> (k', w) # rest)" by auto
  have "v = Some w' \<Longrightarrow> \<exists>u. check u = Some w'" for w'
    using v by (auto simp: opt_field_def split: option.splits json.splits)
  with 2 v rest s show ?case by (fastforce split: option.splits if_splits)
qed simp

lemma dump_checked:
  "RunPolicyRequest_dump d = Inr s \<Longrightarrow> dget s k = Some w \<Longrightarrow>
    \<exists>check v. (k, check) \<in> set policy_checks \<and> check v = Some w"
  by (auto simp: RunPolicyRequest_dump_def split: if_splits dest: dump_fields_checked)

lemma dumped_max_attempts:
  "RunPolicyRequest_dump d = Inr s \<Longrightarrow> dget s ''max_attempts'' = Some w \<Longrightarrow>
    \<exists>i. w = JInt i \<and> 1 \<le> i \<and> i \<le> 20"
  by (auto simp: policy_checks_def strict_int_between_def
      split: if_splits json.splits dest!: dump_checked)

lemma dumped_timeout:
  "RunPolicyRequest_dump d = Inr s \<Longrightarrow> dget s ''attempt_timeout_seconds'' = Some w \<Longrightarrow>
    \<exists>q. w = JFloat (Fin q) \<and> 1 \<le> q \<and> q \<le> 600"
  by (auto simp: policy_checks_def strict_float_between_def
      split: if_splits json.splits pyfloat.splits dest!: dump_checked)

text \<open>Limits a deployment may have: positive, and a ceiling no lower than the floor.\<close>

definition limits_ok :: "policy_limits \<Rightarrow> bool" where
  "limits_ok lm \<longleftrightarrow> 1 \<le> lim_max_attempts lm \<and> lim_max_attempts lm \<le> 20 \<and>
    0 < lim_attempt_timeout lm \<and> 1 \<le> lim_initial_backoff lm \<and>
    lim_initial_backoff lm \<le> lim_max_backoff lm"

lemma int_at_setdefault [simp]:
  "int_at (setdefault k (JInt v) s) k v = int_at s k v"
  "k' \<noteq> k \<Longrightarrow> int_at (setdefault k' w s) k v = int_at s k v"
  by (auto simp: int_at_def dget_setdefault split: option.splits)

lemma num_at_setdefault [simp]:
  "num_at (setdefault k (jfloat v) s) k v = num_at s k v"
  "k' \<noteq> k \<Longrightarrow> num_at (setdefault k' w s) k v = num_at s k v"
  by (auto simp: num_at_def dget_setdefault jfloat_def split: option.splits)

lemma at_dset [simp]:
  "int_at (dset k (JInt w) s) k v = w"
  "k' \<noteq> k \<Longrightarrow> int_at (dset k' x s) k v = int_at s k v"
  "num_at (dset k (jfloat q) s) k r = q"
  "k' \<noteq> k \<Longrightarrow> num_at (dset k' x s) k r = num_at s k r"
  by (auto simp: int_at_def num_at_def dget_dset jfloat_def)

lemma dget_clamp_policy:
  fixes lm s
  defines "i \<equiv> min (lim_max_backoff lm) (max (max 1 (lim_initial_backoff lm))
    (num_at s ''initial_backoff_seconds'' (lim_initial_backoff lm)))"
  shows
  "dget (clamp_policy lm s) ''max_attempts'' =
     Some (JInt (min (int_at s ''max_attempts'' (lim_max_attempts lm)) (lim_max_attempts lm)))"
  "dget (clamp_policy lm s) ''attempt_timeout_seconds'' =
     Some (jfloat (min (num_at s ''attempt_timeout_seconds'' (lim_attempt_timeout lm))
       (lim_attempt_timeout lm)))"
  "dget (clamp_policy lm s) ''initial_backoff_seconds'' = Some (jfloat i)"
  "dget (clamp_policy lm s) ''max_backoff_seconds'' =
     Some (jfloat (max i (min (num_at s ''max_backoff_seconds'' (lim_max_backoff lm))
       (lim_max_backoff lm))))"
  "dget (clamp_policy lm s) ''max_output_tokens'' =
     Some (JInt (min (int_at s ''max_output_tokens'' (lim_max_output_tokens lm))
       (lim_max_output_tokens lm)))"
  by (simp_all add: clamp_policy_defs dget_dset i_def)

text \<open>What a snapshot with floats in its duration fields reads back as.\<close>

lemma from_snapshot_InrD:
  assumes "from_snapshot d = Inr p"
    and "dget d ''max_attempts'' = Some (JInt n)"
    and "dget d ''attempt_timeout_seconds'' = Some (jfloat t)"
    and "dget d ''initial_backoff_seconds'' = Some (jfloat i)"
    and "dget d ''max_backoff_seconds'' = Some (jfloat m)"
    and "dget d ''provider_order'' = Some (JList (map JStr order))"
  shows "p = \<lparr>max_attempts = min 20 n, attempt_timeout_seconds = t, initial_backoff_seconds = i,
              max_backoff_seconds = m, provider_order = order\<rparr>"
  using assms
  by (auto simp: from_snapshot_def dget_or_def positive_int_Inr positive_float_def jfloat_def
      RetryPolicy_def comp_def split: if_splits)

lemma from_snapshot_only_ValueError:
  assumes "from_snapshot d = Inl e"
    and "dget d ''attempt_timeout_seconds'' = Some (jfloat t)"
    and "dget d ''initial_backoff_seconds'' = Some (jfloat i)"
    and "dget d ''max_backoff_seconds'' = Some (jfloat m)"
  shows "is_ValueError e"
  using assms
  by (auto simp: from_snapshot_def dget_or_def jfloat_def res_bind_def
      split: if_splits json.splits sum.splits
      dest: positive_int_only_ValueError positive_float_error RetryPolicy_only_ValueError)

lemma dump_only_ValueError: "RunPolicyRequest_dump d = Inl e \<Longrightarrow> is_ValueError e"
proof -
  have "opt_field d k c = Inl e' \<Longrightarrow> is_ValueError e'" for k c e'
    by (auto simp: opt_field_def validation_error_def split: option.splits json.splits)
  then have "dump_fields cs d = Inl e' \<Longrightarrow> is_ValueError e'" for cs e'
    by (induction cs d rule: dump_fields.induct) (auto simp: res_bind_def split: sum.splits)
  then show "RunPolicyRequest_dump d = Inl e \<Longrightarrow> is_ValueError e"
    by (auto simp: RunPolicyRequest_dump_def validation_error_def split: if_splits)
qed

text \<open>The pieces of a successful resolution: the validated request, the clamped snapshot and the order.\<close>

lemma build_policy_snapshot_InrE:
  assumes "build_policy_snapshot requested lm = Inr s"
  obtains base decision order s' p where
    "RunPolicyRequest_dump requested = Inr base"
    "num_at base ''initial_backoff_seconds'' (lim_initial_backoff lm)
       \<le> num_at base ''max_backoff_seconds'' (lim_max_backoff lm)"
    "resolve_routing_decision (clamp_policy lm base) (lim_available lm) DEFAULT_PROVIDER_CATALOG
       = Inr decision"
    "dget decision ''provider_order'' = Some (JList (map JStr order))"
    "dget s' ''provider_order'' = Some (JList (map JStr order))"
    "\<And>k. k \<notin> {''provider_order'', ''routing''} \<Longrightarrow> dget s' k = dget (clamp_policy lm base) k"
    "from_snapshot s' = Inr p" "s = dmerge s' (as_snapshot p)"
proof -
  let ?s' = "\<lambda>decision base. dset ''routing'' (JDict
                    [(''strategy'', dget_or decision ''strategy'' JNull),
                     (''candidates'', dget_or decision ''provider_order'' (JList [])),
                     (''decision'', JDict decision)])
         (dset ''provider_order'' (dget_or decision ''provider_order'' (JList []))
           (clamp_policy lm base))"
  from assms obtain base decision p where b: "RunPolicyRequest_dump requested = Inr base"
    and le: "num_at base ''initial_backoff_seconds'' (lim_initial_backoff lm)
       \<le> num_at base ''max_backoff_seconds'' (lim_max_backoff lm)"
    and d: "resolve_routing_decision (clamp_policy lm base) (lim_available lm)
       DEFAULT_PROVIDER_CATALOG = Inr decision"
    and p: "from_snapshot (?s' decision base) = Inr p"
    and s: "s = dmerge (?s' decision base) (as_snapshot p)"
    by (auto simp: build_policy_snapshot_def Let_def split: if_splits)
  obtain order where o: "dget decision ''provider_order'' = Some (JList (map JStr order))"
    using d by (rule resolve_order [OF default_catalog_ok])
  show ?thesis
    by (rule that [OF b le d o _ _ p s]) (auto simp: dget_dset dget_or_def o)
qed

section \<open>What is stored with a run\<close>

text \<open>
  C40. The policy stored with an accepted run reads back as a well-formed retry contract, and
  whatever the caller asked for it stays within the limits of the deployment: attempts, attempt
  timeout, backoff floor and ceiling, output tokens, and providers that are known and available.
\<close>

theorem build_policy_snapshot_within_limits:
  assumes "limits_ok lm" "build_policy_snapshot requested lm = Inr s"
  shows "\<exists>p tokens. from_snapshot s = Inr p \<and> retry_ok p \<and>
    max_attempts p \<le> lim_max_attempts lm \<and>
    attempt_timeout_seconds p \<le> lim_attempt_timeout lm \<and>
    lim_initial_backoff lm \<le> initial_backoff_seconds p \<and>
    max_backoff_seconds p \<le> lim_max_backoff lm \<and>
    distinct (provider_order p) \<and>
    (\<forall>c. c \<in> set (provider_order p) \<longrightarrow> map_of DEFAULT_PROVIDER_CATALOG c \<noteq> None \<and>
      (case lim_available lm of None \<Rightarrow> True | Some ps \<Rightarrow> c \<in> set ps)) \<and>
    dget s ''max_output_tokens'' = Some (JInt tokens) \<and> tokens \<le> lim_max_output_tokens lm"
  using assms(2)
proof (rule build_policy_snapshot_InrE)
  fix base decision order s' p
  assume d: "resolve_routing_decision (clamp_policy lm base) (lim_available lm)
      DEFAULT_PROVIDER_CATALOG = Inr decision"
    "dget decision ''provider_order'' = Some (JList (map JStr order))"
    and s': "dget s' ''provider_order'' = Some (JList (map JStr order))"
      "\<And>k. k \<notin> {''provider_order'', ''routing''} \<Longrightarrow> dget s' k = dget (clamp_policy lm base) k"
    and p: "from_snapshot s' = Inr p" and s: "s = dmerge s' (as_snapshot p)"
  have "distinct order" and ord: "c \<in> set order \<Longrightarrow> map_of DEFAULT_PROVIDER_CATALOG c \<noteq> None \<and>
      (case lim_available lm of None \<Rightarrow> True | Some ps \<Rightarrow> c \<in> set ps)" for c
    using resolve_order [OF default_catalog_ok d(1)] d(2)
    by (auto split: option.splits simp: inj_map_eq_map inj_def)
  moreover note from_snapshot_InrD [OF p trans [OF s'(2) dget_clamp_policy(1)]
      trans [OF s'(2) dget_clamp_policy(2)] trans [OF s'(2) dget_clamp_policy(3)]
      trans [OF s'(2) dget_clamp_policy(4)] s'(1), simplified]
  moreover have "retry_ok p" using p by (rule from_snapshot_ok)
  moreover have "from_snapshot s = Inr p"
    using \<open>retry_ok p\<close> s by (simp add: from_merged_snapshot)
  moreover have "dget s ''max_output_tokens'' = dget (clamp_policy lm base) ''max_output_tokens''"
    by (simp add: s dget_dmerge as_snapshot_def s')
  ultimately show ?thesis
    using assms(1) by (auto simp: dget_clamp_policy limits_ok_def)
qed

theorem build_policy_snapshot_within_limits_witness:
  "\<exists>s p. build_policy_snapshot
      [(''max_attempts'', JInt 20), (''attempt_timeout_seconds'', JInt 600),
       (''routing'', JDict [(''strategy'', JStr ''lowest_cost'')])]
      \<lparr>lim_max_attempts = 3, lim_attempt_timeout = 60, lim_initial_backoff = 1,
       lim_max_backoff = 60, lim_available = None, lim_max_output_tokens = 2048\<rparr> = Inr s \<and>
     from_snapshot s = Inr p \<and> max_attempts p \<le> 3 \<and> attempt_timeout_seconds p \<le> 60"
  (is "\<exists>s p. build_policy_snapshot ?req ?lm = Inr s \<and> _")
proof -
  have "case build_policy_snapshot ?req ?lm of Inr _ \<Rightarrow> True | Inl _ \<Rightarrow> False" by code_simp
  then obtain s where s: "build_policy_snapshot ?req ?lm = Inr s"
    by (cases "build_policy_snapshot ?req ?lm") auto
  have "limits_ok ?lm" by (simp add: limits_ok_def)
  from build_policy_snapshot_within_limits [OF this s] s show ?thesis by auto
qed

text \<open>
  The retry delay is a bounded exponential: with a positive float as initial backoff it is
  exactly the initial delay times two to the number of earlier attempts (at most twenty
  doublings), capped by the maximum and never below one second; it never shrinks from one attempt
  to the next and at most doubles.
\<close>

theorem retry_delay_schedule:
  assumes "retry_ok p" "is_double (initial_backoff_seconds p)" "1 \<le> n"
  shows "\<exists>d e. delay_after_attempt p n = Inr d \<and> delay_after_attempt p (n + 1) = Inr e \<and>
    d = max 1 (min (max_backoff_seconds p)
              (initial_backoff_seconds p * 2 ^ nat (min (n - 1) 20))) \<and>
    1 \<le> d \<and> d \<le> max 1 (max_backoff_seconds p) \<and> d \<le> e \<and> e \<le> 2 * d"
proof -
  define f where "f = (\<lambda>k. initial_backoff_seconds p * 2 ^ nat (min (k - 1) 20))"
  have pos: "0 < initial_backoff_seconds p" "0 < max_backoff_seconds p"
    using assms(1) by (auto simp: retry_ok_def)
  have ex: "1 \<le> k \<Longrightarrow> delay_after_attempt p k = Inr (max 1 (min (max_backoff_seconds p) (f k)))" for k
    using delay_exact [OF assms(2) pos(1)] by (simp add: f_def)
  have "nat (min n 20) \<le> Suc (nat (min (n - 1) 20))" by auto
  then have "(2::rat) ^ nat (min n 20) \<le> 2 * 2 ^ nat (min (n - 1) 20)"
    by (metis power_Suc power_increasing one_le_numeral)
  then have "initial_backoff_seconds p * 2 ^ nat (min n 20)
      \<le> initial_backoff_seconds p * (2 * 2 ^ nat (min (n - 1) 20))"
    using pos(1) by (intro mult_left_mono) simp_all
  then have "f (n + 1) \<le> 2 * f n" by (simp add: f_def)
  then have "max 1 (min (max_backoff_seconds p) (f (n + 1)))
      \<le> 2 * max 1 (min (max_backoff_seconds p) (f n))"
    using pos(2) by (auto simp: max_def min_def)
  moreover have d: "delay_after_attempt p n = Inr (max 1 (min (max_backoff_seconds p) (f n)))"
    and e: "delay_after_attempt p (n + 1) = Inr (max 1 (min (max_backoff_seconds p) (f (n + 1))))"
    using ex assms(3) by simp_all
  moreover have "max 1 (min (max_backoff_seconds p) (f n))
      \<le> max 1 (min (max_backoff_seconds p) (f (n + 1)))"
    by (rule delay_mono [OF _ _ d e]) (use pos in simp_all)
  ultimately show ?thesis
    using delay_bounds [OF d] unfolding f_def by blast
qed

theorem retry_delay_schedule_witness:
  "\<exists>d. delay_after_attempt \<lparr>max_attempts = 5, attempt_timeout_seconds = 60,
     initial_backoff_seconds = 2, max_backoff_seconds = 60, provider_order = [''openai'']\<rparr> 4 = Inr d
     \<and> d = 16"
proof -
  let ?p = "\<lparr>max_attempts = 5, attempt_timeout_seconds = 60, initial_backoff_seconds = 2,
     max_backoff_seconds = 60, provider_order = [''openai'']\<rparr> :: retry_policy"
  have "strip ''openai'' \<noteq> []" by code_simp
  then have "retry_ok ?p" by (simp add: retry_ok_def)
  moreover have "is_double (initial_backoff_seconds ?p)"
    using fl_small_int [of 2] by (simp add: is_double_def)
  ultimately show ?thesis using retry_delay_schedule [of ?p 4] by auto
qed

lemma retryable_code: "is_retryable_error (error_code_value c) \<longleftrightarrow> c \<in> set RETRYABLE_ERROR_CODES"
  by (cases c; simp only:; code_simp)

text \<open>
  A failed attempt is worth another attempt exactly when it is no quota refusal and is a
  timeout, carries no HTTP status, or carries one outside 400--499 other than 429: authentication
  failures and bad requests are final.
\<close>

theorem classify_exception_retryable:
  "is_retryable_error (error_code_value (classify_exception e)) \<longleftrightarrow>
    \<not> is_QuotaExceededError e \<and>
    (case status_code_of e of None \<Rightarrow> True | Some n \<Rightarrow> n = 429 \<or> n < 400 \<or> 499 < n)"
  unfolding retryable_code
  by (cases e) (auto simp: classify_exception_def RETRYABLE_ERROR_CODES_def split: option.splits)

end
