(* ===== verification/Execution_Service.thy ===== *)
theory Execution_Service
  imports Run_Service Retry
begin

text \<open>
  \<open>infrastructure/database/execution_service.py\<close> (\<open>ExecutionPersistenceService\<close>) and the values of
  \<open>application/execution.py\<close>: durable claims with a lease, the two completions, lease recovery and
  the retry scheduler. Every operation is one transaction over the tables of \<open>Db_Model\<close>.
  Metrics are not modelled. \<open>uuid4()\<close> values are taken from the context by position.
\<close>

section \<open>Values\<close>

datatype claim_decision = CLAIMED | MISSING | TERMINAL | ACTIVE_LEASE | NOT_READY

record claim_result =
  cl_decision :: claim_decision
  cl_run_id :: uuid
  cl_attempt_id :: "uuid option"
  cl_input_payload :: "dict option"
  cl_policy_snapshot :: "dict option"
  cl_provider :: "string option"

record execution_result =
  x_provider :: string
  x_result_payload :: dict
  x_usage :: "dict option"

text \<open>The configuration of the service.\<close>

record exec_config =
  lease_seconds :: int
  exec_quotas :: quota_limits
  exec_max_attempts :: int

definition undecided :: "claim_decision \<Rightarrow> uuid \<Rightarrow> claim_result" where
  "undecided decision i =
    \<lparr>cl_decision = decision, cl_run_id = i, cl_attempt_id = None, cl_input_payload = None,
     cl_policy_snapshot = None, cl_provider = None\<rparr>"

section \<open>Queries and small updates\<close>

definition attempts_of :: "uuid \<Rightarrow> db \<Rightarrow> attempt_row list" where
  "attempts_of i d = filter (\<lambda>a. a_run_id a = i) (attempts d)"

definition number_after :: "attempt_row list \<Rightarrow> int" where
  "number_after as = (case map a_number as of [] \<Rightarrow> 1 | n # ns \<Rightarrow> foldl max n ns + 1)"

definition next_attempt_number :: "uuid \<Rightarrow> db \<Rightarrow> int" where
  "next_attempt_number i d = number_after (attempts_of i d)"

definition latest_open_attempt :: "uuid \<Rightarrow> db \<Rightarrow> attempt_row option" where
  "latest_open_attempt i d =
    (case sort_key (\<lambda>a. - a_number a) (filter (\<lambda>a. a_finished_at a = None) (attempts_of i d)) of
       [] \<Rightarrow> None | a # _ \<Rightarrow> Some a)"

definition owns_active_lease :: "run_row \<Rightarrow> string \<Rightarrow> time \<Rightarrow> bool" where
  "owns_active_lease r worker now \<longleftrightarrow> r_execution_status r = RUNNING \<and>
     r_lease_owner r = Some worker \<and>
     (case r_lease_expires_at r of None \<Rightarrow> False | Some t \<Rightarrow> now < t)"

definition clear_lease :: "run_row \<Rightarrow> run_row" where
  "clear_lease r = r\<lparr>r_lease_owner := None, r_lease_expires_at := None\<rparr>"

definition finish_failed_attempt :: "attempt_row \<Rightarrow> time \<Rightarrow> string \<Rightarrow> attempt_row" where
  "finish_failed_attempt a now error_code =
    a\<lparr>a_finished_at := Some now, a_outcome := Some ''FAILED'', a_error_code := Some error_code,
      a_retryable := Some (is_retryable_error error_code),
      a_latency_ms := Some (elapsed_ms (a_started_at a) now)\<rparr>"

section \<open>Evaluation jobs\<close>

definition latest_evaluation_id :: "uuid \<Rightarrow> db \<Rightarrow> uuid option" where
  "latest_evaluation_id i d =
    (case rev (sort_key (\<lambda>v. (v_created_at v, v_id v)) (filter (\<lambda>v. v_run_id v = i) (evaluations d))) of
       [] \<Rightarrow> None | v # _ \<Rightarrow> Some (v_id v))"

text \<open>The evaluation row once its job has ended.\<close>

definition finished_evaluation :: "run_row \<Rightarrow> evaluation_row \<Rightarrow> evaluation_row" where
  "finished_evaluation run v =
    (if r_execution_status run = SUCCEEDED
     then v\<lparr>v_status := (if truthy (jopt (dget (case r_result_payload run of None \<Rightarrow> [] | Some p \<Rightarrow> p)
                            ''passed'')) then PASSED else EVAL_FAILED),
            v_result := r_result_payload run, v_completed_at := r_completed_at run\<rparr>
     else v\<lparr>v_status := ERROR,
            v_details := Some (dmerge (case v_details v of None \<Rightarrow> [] | Some x \<Rightarrow> x)
              [(''error_code'', JStr (str_or (r_error_code run) ''EVALUATION_ERROR''))]),
            v_completed_at := r_completed_at run\<rparr>)"

definition finalize_evaluation_job :: "ctx \<Rightarrow> nat \<Rightarrow> run_row \<Rightarrow> db \<Rightarrow> db res" where
  "finalize_evaluation_job c n run d =
    (if r_work_kind run \<noteq> ''evaluation'' then Inr d
     else case find (\<lambda>v. v_job_run_id v = Some (r_id run)) (evaluations d) of
       None \<Rightarrow> Inl (RuntimeError ''Evaluation job has no lifecycle record'')
     | Some v0 \<Rightarrow>
         let v = finished_evaluation run v0;
             d1 = put_evaluation v d;
             d2 = (case get_row (v_run_id v) d1 of
                     None \<Rightarrow> d1
                   | Some source \<Rightarrow>
                       if latest_evaluation_id (v_run_id v) d1 = Some (v_id v)
                       then put_run (source\<lparr>r_evaluation_status := v_status v\<rparr>) d1 else d1)
         in insert_event (new_event c n (v_run_id v) None
              (''EVALUATION_'' @ evaluation_status_value (v_status v))
              [(''job_run_id'', JStr (uuid_str (r_id run)))]) d2)"

section \<open>Claiming\<close>

definition running_count :: "(run_row \<Rightarrow> bool) \<Rightarrow> db \<Rightarrow> int" where
  "running_count p d = count_runs (\<lambda>r. p r \<and> r_execution_status r = RUNNING) d"

definition running_quota_full :: "quota_limits \<Rightarrow> run_row \<Rightarrow> db \<Rightarrow> bool" where
  "running_quota_full lm run d \<longleftrightarrow>
     principal_running lm \<le>
       running_count (\<lambda>r. r_principal_id r = Some (str_or (r_principal_id run) (r_client_id run))) d \<or>
     tenant_running lm \<le> running_count (\<lambda>r. r_client_id r = r_client_id run) d"

text \<open>The quota is full: the run waits one second.\<close>

definition defer_run :: "ctx \<Rightarrow> run_row \<Rightarrow> db \<Rightarrow> (claim_result \<times> db) res" where
  "defer_run c run d =
    res_bind (plus_seconds (c_now c) 1) (\<lambda>t.
      Inr (undecided NOT_READY (r_id run),
           put_run (run\<lparr>r_execution_status := RETRY_SCHEDULED, r_next_attempt_at := Some t\<rparr>) d))"

text \<open>The stored policy is unreadable or its budget is spent: the run fails.\<close>

definition reject_run :: "ctx \<Rightarrow> run_row \<Rightarrow> db \<Rightarrow> (claim_result \<times> db) res" where
  "reject_run c run d =
    (let run' = run\<lparr>r_execution_status := FAILED, r_error_code := Some ''INVALID_STORED_POLICY'',
                    r_completed_at := Some (c_now c)\<rparr>
     in res_bind (finalize_evaluation_job c 0 run' (put_run run' d)) (\<lambda>d.
          Inr (undecided TERMINAL (r_id run), d)))"

definition provider_for :: "retry_policy \<Rightarrow> int \<Rightarrow> string" where
  "provider_for p n = provider_order p ! nat (min (n - 1) (int (length (provider_order p)) - 1))"

definition claimed_policy :: "int \<Rightarrow> retry_policy \<Rightarrow> dict \<Rightarrow> dict" where
  "claimed_policy lease p snapshot = dmerge snapshot
     [(''attempt_timeout_seconds'',
       if of_int (lease - 1) < attempt_timeout_seconds p then JInt (lease - 1)
       else JFloat (Fin (attempt_timeout_seconds p)))]"

definition new_attempt :: "ctx \<Rightarrow> uuid \<Rightarrow> int \<Rightarrow> string \<Rightarrow> string \<Rightarrow> attempt_row" where
  "new_attempt c i n prov worker =
    \<lparr>a_id = c_uuid c 0, a_run_id = i, a_number = n, a_provider = prov, a_worker_id = worker,
     a_started_at = c_db_now c, a_finished_at = None, a_outcome = None, a_error_code = None,
     a_retryable = None, a_latency_ms = None, a_usage = None\<rparr>"

definition start_attempt ::
    "ctx \<Rightarrow> int \<Rightarrow> run_row \<Rightarrow> string \<Rightarrow> retry_policy \<Rightarrow> int \<Rightarrow> db \<Rightarrow> (claim_result \<times> db) res" where
  "start_attempt c lease run worker p n d =
    (let attempt = new_attempt c (r_id run) n (provider_for p n) worker
     in res_bind (plus_seconds (c_now c) (of_int lease)) (\<lambda>expires.
        res_bind (insert_attempt attempt (put_run (run\<lparr>r_execution_status := RUNNING,
            r_lease_owner := Some worker, r_lease_expires_at := Some expires,
            r_started_at := (case r_started_at run of None \<Rightarrow> Some (c_now c) | Some t \<Rightarrow> Some t)\<rparr>) d)) (\<lambda>d.
        res_bind (insert_event (new_event c 1 (r_id run) (Some (a_id attempt)) ''RUN_CLAIMED''
            [(''worker_id'', JStr worker), (''attempt_number'', JInt n)]) d) (\<lambda>d.
          Inr (\<lparr>cl_decision = CLAIMED, cl_run_id = r_id run, cl_attempt_id = Some (a_id attempt),
                cl_input_payload = Some (r_input_payload run),
                cl_policy_snapshot = Some (claimed_policy lease p (r_policy_snapshot run)),
                cl_provider = Some (provider_for p n)\<rparr>, d)))))"

definition claim_queued ::
    "ctx \<Rightarrow> exec_config \<Rightarrow> run_row \<Rightarrow> string \<Rightarrow> db \<Rightarrow> (claim_result \<times> db) res" where
  "claim_queued c cfg run worker d =
    (let n = next_attempt_number (r_id run) d
     in if running_quota_full (exec_quotas cfg) run d then defer_run c run d
        else case from_snapshot (r_policy_snapshot run) of
          Inl e \<Rightarrow> if is_ValueError e then reject_run c run d else Inl e
        | Inr p \<Rightarrow>
            if min (max_attempts p) (exec_max_attempts cfg) < n then reject_run c run d
            else start_attempt c (lease_seconds cfg) run worker p n d)"

definition claim :: "ctx \<Rightarrow> exec_config \<Rightarrow> uuid \<Rightarrow> string \<Rightarrow> db \<Rightarrow> (claim_result \<times> db) res" where
  "claim c cfg i worker d = (case get_row i d of
     None \<Rightarrow> Inr (undecided MISSING i, d)
   | Some run \<Rightarrow>
       if is_terminal_execution_status (r_execution_status run) then Inr (undecided TERMINAL i, d)
       else if r_execution_status run = RUNNING then
         (if (case r_lease_expires_at run of None \<Rightarrow> True | Some t \<Rightarrow> c_now c < t)
          then Inr (undecided ACTIVE_LEASE i, d) else Inr (undecided NOT_READY i, d))
       else if r_execution_status run \<noteq> QUEUED then Inr (undecided NOT_READY i, d)
       else claim_queued c cfg run worker d)"

section \<open>Completion\<close>

definition complete_success ::
    "ctx \<Rightarrow> uuid \<Rightarrow> uuid \<Rightarrow> string \<Rightarrow> execution_result \<Rightarrow> db \<Rightarrow> (bool \<times> db) res" where
  "complete_success c i attempt_id worker result d = (case get_row i d of
     None \<Rightarrow> Inr (False, d)
   | Some run \<Rightarrow>
       if \<not> owns_active_lease run worker (c_now c) then Inr (False, d)
       else case row_with a_id attempt_id (attempts d) of
         None \<Rightarrow> Inr (False, d)
       | Some a \<Rightarrow>
           if a_run_id a \<noteq> i \<or> a_finished_at a \<noteq> None then Inr (False, d)
           else
             let a' = a\<lparr>a_provider := x_provider result, a_usage := x_usage result,
                        a_finished_at := Some (c_now c), a_outcome := Some ''SUCCEEDED'',
                        a_latency_ms := Some (elapsed_ms (a_started_at a) (c_now c))\<rparr>;
                 run' = clear_lease (run\<lparr>r_execution_status := SUCCEEDED,
                          r_result_payload := Some (x_result_payload result),
                          r_completed_at := Some (c_now c), r_error_code := None,
                          r_next_attempt_at := None\<rparr>)
             in res_bind (insert_event (new_event c 0 i (Some attempt_id) ''RUN_SUCCEEDED''
                            [(''provider'', JStr (x_provider result))])
                          (put_run run' (put_attempt a' d))) (\<lambda>d.
                res_bind (finalize_evaluation_job c 1 run' d) (\<lambda>d. Inr (True, d))))"

definition schedule_retry ::
    "ctx \<Rightarrow> nat \<Rightarrow> run_row \<Rightarrow> attempt_row \<Rightarrow> string \<Rightarrow> bool \<Rightarrow> rat \<Rightarrow> db \<Rightarrow> db res" where
  "schedule_retry c n run a error_code recovery delay d =
    res_bind (plus_seconds (c_now c) delay) (\<lambda>t.
      insert_event (new_event c n (r_id run) (Some (a_id a)) ''RUN_RETRY_SCHEDULED''
          [(''error_code'', JStr error_code), (''attempt_number'', JInt (a_number a)),
           (''next_attempt_at'', JStr (isoformat t)), (''delay_seconds'', JFloat (Fin delay)),
           (''recovery'', JBool recovery)])
        (put_run (run\<lparr>r_execution_status := RETRY_SCHEDULED, r_next_attempt_at := Some t\<rparr>) d))"

definition bury_run ::
    "ctx \<Rightarrow> nat \<Rightarrow> run_row \<Rightarrow> attempt_row \<Rightarrow> string \<Rightarrow> bool \<Rightarrow> retry_policy \<Rightarrow> db \<Rightarrow> db res" where
  "bury_run c n run a error_code recovery p d =
    (let retryable = (a_retryable a = Some True);
         run' = run\<lparr>r_next_attempt_at := None, r_completed_at := Some (c_now c),
                    r_execution_status := (if retryable then DEAD_LETTERED else FAILED)\<rparr>
     in res_bind (if retryable
            then insert_outbox (new_outbox c (n + 1) (r_id run) ''RUN_DEAD_LETTERED''
                   [(''trace_context'', JDict (r_trace_context run)), (''error_code'', JStr error_code)])
                   (put_run run' d)
            else Inr (put_run run' d)) (\<lambda>d.
        res_bind (insert_event (if retryable
            then new_event c n (r_id run) (Some (a_id a)) ''RUN_DEAD_LETTERED''
                   [(''error_code'', JStr error_code), (''attempt_number'', JInt (a_number a)),
                    (''max_attempts'', JInt (max_attempts p)), (''recovery'', JBool recovery)]
            else new_event c n (r_id run) (Some (a_id a)) ''RUN_FAILED''
                   [(''error_code'', JStr error_code), (''recovery'', JBool recovery)]) d) (\<lambda>d.
          finalize_evaluation_job c (n + 2) run' d)))"

definition schedule_retry_or_finalize ::
    "ctx \<Rightarrow> nat \<Rightarrow> run_row \<Rightarrow> attempt_row \<Rightarrow> string \<Rightarrow> bool \<Rightarrow> db \<Rightarrow> db res" where
  "schedule_retry_or_finalize c n run0 a error_code recovery d =
    res_bind (from_snapshot (r_policy_snapshot run0)) (\<lambda>p.
      let run = (clear_lease run0)\<lparr>r_error_code := Some error_code\<rparr>
      in if a_retryable a = Some True \<and> a_number a < max_attempts p
         then res_bind (delay_after_attempt p (a_number a)) (\<lambda>delay.
                schedule_retry c n run a error_code recovery delay d)
         else bury_run c n run a error_code recovery p d)"

text \<open>The shared part of a failed completion and of a recovery: the attempt ends, then the run.\<close>

definition fail_attempt ::
    "ctx \<Rightarrow> nat \<Rightarrow> run_row \<Rightarrow> attempt_row \<Rightarrow> string \<Rightarrow> bool \<Rightarrow> db \<Rightarrow> db res" where
  "fail_attempt c n run a error_code recovery d =
    (let a' = finish_failed_attempt a (c_now c) error_code
     in schedule_retry_or_finalize c n run a' error_code recovery (put_attempt a' d))"

definition complete_failure ::
    "ctx \<Rightarrow> uuid \<Rightarrow> uuid \<Rightarrow> string \<Rightarrow> string \<Rightarrow> db \<Rightarrow> (bool \<times> db) res" where
  "complete_failure c i attempt_id worker error_code d = (case get_row i d of
     None \<Rightarrow> Inr (False, d)
   | Some run \<Rightarrow>
       if \<not> owns_active_lease run worker (c_now c) then Inr (False, d)
       else case row_with a_id attempt_id (attempts d) of
         None \<Rightarrow> Inr (False, d)
       | Some a \<Rightarrow>
           if a_run_id a \<noteq> i \<or> a_finished_at a \<noteq> None then Inr (False, d)
           else res_bind (fail_attempt c 0 run a error_code False d) (\<lambda>d. Inr (True, d)))"

section \<open>Recovery and scheduling\<close>

definition lease_expired :: "time \<Rightarrow> run_row \<Rightarrow> bool" where
  "lease_expired now r \<longleftrightarrow> r_execution_status r = RUNNING \<and>
     (case r_lease_expires_at r of None \<Rightarrow> False | Some t \<Rightarrow> t \<le> now)"

definition expired_runs :: "ctx \<Rightarrow> int \<Rightarrow> db \<Rightarrow> run_row list" where
  "expired_runs c batch_size d = take (nat batch_size)
     (sort_key (\<lambda>r. the (r_lease_expires_at r))
       (filter (\<lambda>r. lease_expired (c_now c) r \<and> r_id r \<notin> set (c_locked c)) (runs d)))"

fun recover_each :: "ctx \<Rightarrow> nat \<Rightarrow> uuid list \<Rightarrow> db \<Rightarrow> db res" where
  "recover_each c n [] d = Inr d"
| "recover_each c n (i # is) d = (case (get_row i d, latest_open_attempt i d) of
     (Some run, Some a) \<Rightarrow>
       res_bind (fail_attempt c n run a ''EXECUTION_LEASE_EXPIRED'' True d) (recover_each c (n + 3) is)
   | _ \<Rightarrow> recover_each c (n + 3) is d)"

definition recover_expired_leases :: "ctx \<Rightarrow> int \<Rightarrow> db \<Rightarrow> (int \<times> db) res" where
  "recover_expired_leases c batch_size d =
    res_bind (recover_each c 0 (map r_id (expired_runs c batch_size d)) d) (\<lambda>d'.
      Inr (int (length (expired_runs c batch_size d)), d'))"

definition retry_due :: "time \<Rightarrow> run_row \<Rightarrow> bool" where
  "retry_due now r \<longleftrightarrow> r_execution_status r = RETRY_SCHEDULED \<and>
     (case r_next_attempt_at r of None \<Rightarrow> False | Some t \<Rightarrow> t \<le> now)"

definition due_runs :: "ctx \<Rightarrow> int \<Rightarrow> db \<Rightarrow> run_row list" where
  "due_runs c batch_size d = take (nat batch_size)
     (sort_key (\<lambda>r. the (r_next_attempt_at r))
       (filter (\<lambda>r. retry_due (c_now c) r \<and> r_id r \<notin> set (c_locked c)) (runs d)))"

definition requeue_run :: "ctx \<Rightarrow> nat \<Rightarrow> run_row \<Rightarrow> db \<Rightarrow> db res" where
  "requeue_run c n run d =
    res_bind (insert_outbox (new_outbox c n (r_id run) ''RUN_QUEUED''
        [(''trace_context'', JDict (r_trace_context run)), (''reason'', JStr ''retry_due'')])
      (put_run (run\<lparr>r_execution_status := QUEUED, r_next_attempt_at := None\<rparr>) d)) (\<lambda>d.
    insert_event (new_event c (n + 1) (r_id run) None ''RUN_RETRY_QUEUED''
        [(''scheduled_at'', JStr (isoformat (c_now c)))]) d)"

fun requeue_each :: "ctx \<Rightarrow> nat \<Rightarrow> uuid list \<Rightarrow> db \<Rightarrow> db res" where
  "requeue_each c n [] d = Inr d"
| "requeue_each c n (i # is) d = (case get_row i d of
     Some run \<Rightarrow> res_bind (requeue_run c n run d) (requeue_each c (n + 2) is)
   | None \<Rightarrow> requeue_each c (n + 2) is d)"

definition schedule_due_retries :: "ctx \<Rightarrow> int \<Rightarrow> db \<Rightarrow> (int \<times> db) res" where
  "schedule_due_retries c batch_size d =
    res_bind (requeue_each c 0 (map r_id (due_runs c batch_size d)) d) (\<lambda>d'.
      Inr (int (length (due_runs c batch_size d)), d'))"

end
