(* ===== verification/Run_Lifecycle.thy ===== *)
theory Run_Lifecycle
  imports Execution_Service
begin

text \<open>
  The abstract life of one run: its row without the evaluation annotation and the version counter,
  together with its attempts in the order of their creation. \<open>life_step\<close> is the specification of
  what the services may do to a run, \<open>life_ok\<close> the invariant every run satisfies at all times.
\<close>

section \<open>The view of one run\<close>

definition core :: "run_row \<Rightarrow> run_row" where
  "core r = r\<lparr>r_evaluation_status := NOT_RUN, r_version := 0\<rparr>"

type_synonym life = "run_row \<times> attempt_row list"

definition life_of :: "uuid \<Rightarrow> db \<Rightarrow> life option" where
  "life_of i d = map_option (\<lambda>r. (core r, attempts_of i d)) (get_row i d)"

definition replace_attempt :: "attempt_row \<Rightarrow> attempt_row list \<Rightarrow> attempt_row list" where
  "replace_attempt a as = map (\<lambda>x. if a_id x = a_id a then a else x) as"

definition is_open :: "attempt_row \<Rightarrow> bool" where
  "is_open a \<longleftrightarrow> a_finished_at a = None"

text \<open>An attempt has an outcome exactly when it has finished.\<close>

definition outcome_ok :: "attempt_row \<Rightarrow> bool" where
  "outcome_ok a \<longleftrightarrow> (a_finished_at a = None \<longleftrightarrow> a_outcome a = None)"

text \<open>A finished version of an open attempt.\<close>

definition finishes :: "attempt_row \<Rightarrow> attempt_row \<Rightarrow> bool" where
  "finishes a a' \<longleftrightarrow> is_open a \<and> \<not> is_open a' \<and> outcome_ok a' \<and>
     a_id a' = a_id a \<and> a_run_id a' = a_run_id a \<and> a_number a' = a_number a \<and>
     a_worker_id a' = a_worker_id a \<and> a_started_at a' = a_started_at a"

section \<open>What may happen to a run\<close>

inductive life_step :: "int \<Rightarrow> life \<Rightarrow> life \<Rightarrow> bool" for budget :: int where
  claim_step: "r_execution_status r = QUEUED \<Longrightarrow> from_snapshot (r_policy_snapshot r) = Inr p \<Longrightarrow>
    number_after as \<le> min (max_attempts p) budget \<Longrightarrow>
    a_number a = number_after as \<Longrightarrow> a_run_id a = r_id r \<Longrightarrow> a_id a \<notin> a_id ` set as \<Longrightarrow>
    is_open a \<Longrightarrow> outcome_ok a \<Longrightarrow> a_worker_id a = w \<Longrightarrow>
    (case r_started_at r of None \<Rightarrow> True | Some s' \<Rightarrow> s = s') \<Longrightarrow>
    life_step budget (r, as)
      (r\<lparr>r_execution_status := RUNNING, r_lease_owner := Some w, r_lease_expires_at := Some t,
         r_started_at := Some s\<rparr>, as @ [a])"
| defer_step: "r_execution_status r = QUEUED \<Longrightarrow>
    life_step budget (r, as)
      (r\<lparr>r_execution_status := RETRY_SCHEDULED, r_next_attempt_at := Some t\<rparr>, as)"
| reject_step: "r_execution_status r = QUEUED \<Longrightarrow>
    life_step budget (r, as)
      (r\<lparr>r_execution_status := FAILED, r_error_code := Some e, r_completed_at := Some t\<rparr>, as)"
| succeed_step: "r_execution_status r = RUNNING \<Longrightarrow> a \<in> set as \<Longrightarrow> finishes a a' \<Longrightarrow>
    life_step budget (r, as)
      (r\<lparr>r_execution_status := SUCCEEDED, r_result_payload := Some p, r_completed_at := Some t,
         r_error_code := None, r_next_attempt_at := None, r_lease_owner := None,
         r_lease_expires_at := None\<rparr>, replace_attempt a' as)"
| retry_step: "r_execution_status r = RUNNING \<Longrightarrow> a \<in> set as \<Longrightarrow> finishes a a' \<Longrightarrow>
    from_snapshot (r_policy_snapshot r) = Inr p \<Longrightarrow> a_number a < max_attempts p \<Longrightarrow>
    life_step budget (r, as)
      (r\<lparr>r_lease_owner := None, r_lease_expires_at := None, r_error_code := Some e,
         r_execution_status := RETRY_SCHEDULED, r_next_attempt_at := Some t\<rparr>, replace_attempt a' as)"
| bury_step: "r_execution_status r = RUNNING \<Longrightarrow> a \<in> set as \<Longrightarrow> finishes a a' \<Longrightarrow>
    s = FAILED \<or> s = DEAD_LETTERED \<Longrightarrow>
    life_step budget (r, as)
      (r\<lparr>r_lease_owner := None, r_lease_expires_at := None, r_error_code := Some e,
         r_next_attempt_at := None, r_completed_at := Some t, r_execution_status := s\<rparr>,
       replace_attempt a' as)"
| requeue_step: "r_execution_status r = RETRY_SCHEDULED \<Longrightarrow>
    life_step budget (r, as) (r\<lparr>r_execution_status := QUEUED, r_next_attempt_at := None\<rparr>, as)"

inductive_cases life_stepE: "life_step budget l l'"

section \<open>The invariant of a run\<close>

definition attempts_ok :: "run_row \<Rightarrow> attempt_row list \<Rightarrow> bool" where
  "attempts_ok r as \<longleftrightarrow>
     map a_number as = map (\<lambda>k. int k + 1) [0..<length as] \<and> distinct (map a_id as) \<and>
     (\<forall>a \<in> set as. a_run_id a = r_id r \<and> outcome_ok a) \<and>
     (\<forall>a \<in> set (butlast as). \<not> is_open a) \<and>
     (as \<noteq> [] \<longrightarrow> (is_open (last as) \<longleftrightarrow> r_execution_status r = RUNNING))"

definition budget_kept :: "int \<Rightarrow> run_row \<Rightarrow> attempt_row list \<Rightarrow> bool" where
  "budget_kept budget r as \<longleftrightarrow> as = [] \<or>
     (\<exists>p. from_snapshot (r_policy_snapshot r) = Inr p \<and>
        int (length as) \<le> max_attempts p \<and> int (length as) \<le> budget)"

definition fields_ok :: "run_row \<Rightarrow> attempt_row list \<Rightarrow> bool" where
  "fields_ok r as \<longleftrightarrow>
     (r_execution_status r = RUNNING \<longleftrightarrow> r_lease_owner r \<noteq> None) \<and>
     (r_execution_status r = RUNNING \<longleftrightarrow> r_lease_expires_at r \<noteq> None) \<and>
     (r_execution_status r = RUNNING \<longrightarrow> as \<noteq> [] \<and> r_lease_owner r = Some (a_worker_id (last as))) \<and>
     (r_execution_status r = RETRY_SCHEDULED \<longleftrightarrow> r_next_attempt_at r \<noteq> None) \<and>
     (is_terminal_execution_status (r_execution_status r) \<longleftrightarrow> r_completed_at r \<noteq> None) \<and>
     (r_execution_status r = SUCCEEDED \<longleftrightarrow> r_result_payload r \<noteq> None) \<and>
     (r_execution_status r \<in> {FAILED, DEAD_LETTERED} \<longrightarrow> r_error_code r \<noteq> None) \<and>
     (r_execution_status r = SUCCEEDED \<longrightarrow> r_error_code r = None) \<and>
     (r_started_at r = None \<longleftrightarrow> as = [])"

fun life_ok :: "int \<Rightarrow> life \<Rightarrow> bool" where
  "life_ok budget (r, as) \<longleftrightarrow> attempts_ok r as \<and> budget_kept budget r as \<and> fields_ok r as"

section \<open>The invariant is kept\<close>

lemma attempts_okD:
  assumes "attempts_ok r as"
  shows "map a_number as = map (\<lambda>k. int k + 1) [0..<length as]" "distinct (map a_id as)"
    "\<And>a. a \<in> set as \<Longrightarrow> a_run_id a = r_id r"
    "\<And>a. a \<in> set as \<Longrightarrow> outcome_ok a"
    "\<And>a. a \<in> set (butlast as) \<Longrightarrow> \<not> is_open a"
    "as \<noteq> [] \<Longrightarrow> is_open (last as) \<longleftrightarrow> r_execution_status r = RUNNING"
  using assms unfolding attempts_ok_def by blast+

lemma set_butlast_last: "as \<noteq> [] \<Longrightarrow> set as = set (butlast as) \<union> {last as}"
  by (metis append_butlast_last_id set_append list.simps(15) empty_set)

lemma all_finished:
  assumes "attempts_ok r as" "r_execution_status r \<noteq> RUNNING" "a \<in> set as"
  shows "\<not> is_open a"
proof -
  have "as \<noteq> []" using assms(3) by auto
  then have "a \<in> set (butlast as) \<or> a = last as" using assms(3) set_butlast_last by blast
  then show ?thesis
    using attempts_okD(5,6) [OF assms(1)] assms(2) \<open>as \<noteq> []\<close> by blast
qed

lemma attempts_ok_same:
  "attempts_ok r as \<Longrightarrow> r_id r' = r_id r \<Longrightarrow>
    (r_execution_status r' = RUNNING \<longleftrightarrow> r_execution_status r = RUNNING) \<Longrightarrow> attempts_ok r' as"
  by (simp add: attempts_ok_def)

lemma attempts_ok_append:
  assumes "attempts_ok r as" "r_execution_status r \<noteq> RUNNING" "a_number a = int (length as) + 1"
    "a_run_id a = r_id r" "a_id a \<notin> a_id ` set as" "is_open a" "outcome_ok a"
    and "r_id r' = r_id r" "r_execution_status r' = RUNNING"
  shows "attempts_ok r' (as @ [a])"
  unfolding attempts_ok_def
  using attempts_okD [OF assms(1)] all_finished [OF assms(1,2)] assms(3-9) by simp

lemma foldl_max_upt: "foldl max 1 (map (\<lambda>k. int k + 1) [1..<Suc n]) = int n + 1"
  by (induction n) (auto simp: max_def)

lemma number_after_ok:
  assumes "attempts_ok r as"
  shows "number_after as = int (length as) + 1"
proof (cases as)
  case (Cons x xs)
  have "[0..<length as] = 0 # [1..<Suc (length xs)]" using Cons by (simp add: upt_rec)
  moreover have "map a_number as = map (\<lambda>k. int k + 1) [0..<length as]"
    using assms by (simp add: attempts_ok_def)
  ultimately have "map a_number as = 1 # map (\<lambda>k. int k + 1) [1..<Suc (length xs)]" by simp
  then show ?thesis
    unfolding number_after_def using foldl_max_upt [of "length xs"] Cons by (simp del: upt_Suc)
qed (simp add: number_after_def)

lemma length_replace_attempt [simp]: "length (replace_attempt a as) = length as"
  by (simp add: replace_attempt_def)

lemma replace_last:
  assumes "distinct (map a_id as)" "as \<noteq> []" "a_id a' = a_id (last as)"
  shows "replace_attempt a' as = butlast as @ [a']"
proof -
  obtain xs y where as: "as = xs @ [y]" using assms(2) by (cases as rule: rev_cases) auto
  then have "a_id a' \<notin> a_id ` set xs" using assms(1,3) by simp
  then have "\<forall>x \<in> set xs. a_id x \<noteq> a_id a'" by (metis imageI)
  then have "map (\<lambda>x. if a_id x = a_id a' then a' else x) xs = xs" by (simp add: map_idI)
  then show ?thesis using as assms(3) by (simp add: replace_attempt_def)
qed

text \<open>In a run the only open attempt is the last one, so finishing an attempt replaces the last.\<close>

lemma finishing_last:
  assumes "attempts_ok r as" "a \<in> set as" "finishes a a'"
  shows "replace_attempt a' as = butlast as @ [a']" "a = last as" "as \<noteq> []"
proof -
  show ne: "as \<noteq> []" using assms(2) by auto
  have "a \<notin> set (butlast as)" using attempts_okD(5) [OF assms(1)] assms(3) by (auto simp: finishes_def)
  then show last: "a = last as" using set_butlast_last [OF ne] assms(2) by auto
  show "replace_attempt a' as = butlast as @ [a']"
    using attempts_okD(2) [OF assms(1)] assms(3) ne last by (intro replace_last) (auto simp: finishes_def)
qed

lemma attempts_ok_finish:
  assumes "attempts_ok r as" "a \<in> set as" "finishes a a'"
    and "r_id r' = r_id r" "r_execution_status r' \<noteq> RUNNING"
  shows "attempts_ok r' (replace_attempt a' as)"
proof -
  note f = finishing_last [OF assms(1-3)] and ok = attempts_okD [OF assms(1)]
  obtain xs y where as: "as = xs @ [y]" using f(3) by (cases as rule: rev_cases) auto
  have a': "a_id a' = a_id (last as)" "a_number a' = a_number (last as)"
    "a_run_id a' = a_run_id (last as)" "\<not> is_open a'" "outcome_ok a'"
    using assms(3) f(2) by (auto simp: finishes_def)
  have maps: "map a_number (butlast as @ [a']) = map a_number as"
    "map a_id (butlast as @ [a']) = map a_id as"
    using a' as by simp_all
  have len: "length (butlast as @ [a']) = length as" using f(3) by simp
  have old: "x \<in> set (butlast as) \<Longrightarrow> x \<in> set as" for x by (rule in_set_butlastD)
  show ?thesis
    unfolding f(1) attempts_ok_def maps len
    using ok old a' assms(4,5) last_in_set [OF f(3)] by (auto simp del: map_append)
qed

lemma life_ok_step:
  assumes "life_step budget l l'" "life_ok budget l"
  shows "life_ok budget l'"
  using assms
proof (induction rule: life_step.induct)
  case (claim_step r p as a w s t)
  then have ok: "attempts_ok r as" by simp
  then have n: "number_after as = int (length as) + 1" by (rule number_after_ok)
  have "attempts_ok (r\<lparr>r_execution_status := RUNNING, r_lease_owner := Some w,
      r_lease_expires_at := Some t, r_started_at := Some s\<rparr>) (as @ [a])"
    using claim_step n by (intro attempts_ok_append [OF ok]) auto
  moreover have "budget_kept budget r (as @ [a])"
    using claim_step n by (auto simp: budget_kept_def)
  moreover have "fields_ok (r\<lparr>r_execution_status := RUNNING, r_lease_owner := Some w,
      r_lease_expires_at := Some t, r_started_at := Some s\<rparr>) (as @ [a])"
    using claim_step by (auto simp: fields_ok_def)
  ultimately show ?case by (simp add: budget_kept_def)
next
  case (succeed_step r a as a' p t)
  then have ok: "attempts_ok r as" by simp
  show ?case
    using succeed_step(1,4) attempts_ok_finish [OF ok succeed_step(2,3)]
      finishing_last(1,3) [OF ok succeed_step(2,3)]
    by (auto simp: budget_kept_def fields_ok_def)
next
  case (retry_step r a as a' p e t)
  then have ok: "attempts_ok r as" by simp
  show ?case
    using retry_step(1,6) attempts_ok_finish [OF ok retry_step(2,3)]
      finishing_last(1,3) [OF ok retry_step(2,3)]
    by (auto simp: budget_kept_def fields_ok_def)
next
  case (bury_step r a as a' s e t)
  then have ok: "attempts_ok r as" by simp
  show ?case
    using bury_step(1,4,5) attempts_ok_finish [OF ok bury_step(2,3)]
      finishing_last(1,3) [OF ok bury_step(2,3)]
    by (auto simp: budget_kept_def fields_ok_def)
qed (auto simp: budget_kept_def fields_ok_def elim!: attempts_ok_same)

end
