(* ===== verification/Lifecycle_Refinement.thy ===== *)
theory Lifecycle_Refinement
  imports Run_Lifecycle
begin

text \<open>
  The transactions of the two services refine the abstract life of runs: each one leaves every run
  as it is, moves runs along \<open>life_step\<close>, or creates one run in its initial state. The facts about
  single statements come first, then one lemma per operation.
\<close>

section \<open>The part of the database the lifecycle is about\<close>

definition cores :: "db \<Rightarrow> run_row list" where
  "cores d = map core (runs d)"

definition put_core :: "run_row \<Rightarrow> run_row list \<Rightarrow> run_row list" where
  "put_core r rs = map (\<lambda>x. if r_id x = r_id r then r else x) rs"

lemma core_fields [simp]:
  "r_id (core r) = r_id r" "r_client_id (core r) = r_client_id r"
  "r_principal_id (core r) = r_principal_id r" "r_work_kind (core r) = r_work_kind r"
  "r_idempotency_key (core r) = r_idempotency_key r" "r_request_hash (core r) = r_request_hash r"
  "r_input_payload (core r) = r_input_payload r" "r_policy_snapshot (core r) = r_policy_snapshot r"
  "r_trace_context (core r) = r_trace_context r" "r_execution_status (core r) = r_execution_status r"
  "r_result_payload (core r) = r_result_payload r" "r_error_code (core r) = r_error_code r"
  "r_created_at (core r) = r_created_at r" "r_started_at (core r) = r_started_at r"
  "r_completed_at (core r) = r_completed_at r" "r_lease_owner (core r) = r_lease_owner r"
  "r_lease_expires_at (core r) = r_lease_expires_at r"
  "r_next_attempt_at (core r) = r_next_attempt_at r" "r_replay_of (core r) = r_replay_of r"
  by (simp_all add: core_def)

lemma core_stamp [simp]: "core (stamp r old) = core r"
  by (simp add: core_def stamp_def)

lemma core_annotate [simp]: "core (r\<lparr>r_evaluation_status := s\<rparr>) = core r"
  by (simp add: core_def)

lemma map_id_cores: "map r_id (cores d) = map r_id (runs d)"
  by (simp add: cores_def)

lemma set_id_cores: "r_id ` set (cores d) = r_id ` set (runs d)"
  by (metis list.set_map map_id_cores)

lemma row_with_cores: "row_with r_id i (cores d) = map_option core (get_row i d)"
proof -
  have "row_with r_id i (map core rs) = map_option core (row_with r_id i rs)" for rs
    by (induction rs) simp_all
  then show ?thesis by (simp add: cores_def get_row_def)
qed

lemma life_of_eq: "life_of i d = map_option (\<lambda>r. (r, attempts_of i d)) (row_with r_id i (cores d))"
  by (simp add: life_of_def row_with_cores option.map_comp comp_def)

lemma cores_put_run: "cores (put_run r d) = put_core (core r) (cores d)"
  by (simp add: cores_def put_core_def put_run_def rewrite_def)

lemma put_core_same:
  assumes "distinct (map r_id rs)" "r \<in> set rs"
  shows "put_core r rs = rs"
proof -
  have "x \<in> set rs \<Longrightarrow> r_id x = r_id r \<Longrightarrow> x = r" for x
    using assms by (auto simp: distinct_map dest: inj_onD)
  then show ?thesis unfolding put_core_def by (intro map_idI) auto
qed

lemma map_id_put_core [simp]: "map r_id (put_core r rs) = map r_id rs"
  by (simp add: put_core_def)

lemma row_with_put_core:
  "row_with r_id i (put_core r rs) =
    (if i = r_id r then map_option (\<lambda>_. r) (row_with r_id i rs) else row_with r_id i rs)"
  by (induction rs) (auto simp: put_core_def)

section \<open>Well-formed databases\<close>

definition db_wf :: "db \<Rightarrow> bool" where
  "db_wf d \<longleftrightarrow> distinct (map r_id (cores d)) \<and> distinct (map a_id (attempts d)) \<and>
     a_run_id ` set (attempts d) \<subseteq> r_id ` set (cores d)"

lemma db_wf_attempt: "db_wf d \<Longrightarrow> a \<in> set (attempts d) \<Longrightarrow> a_run_id a \<in> r_id ` set (cores d)"
  unfolding db_wf_def by blast

lemma db_wf_empty [simp]: "db_wf empty_db"
  by (simp add: db_wf_def cores_def empty_db_def)

lemma annotate_cores:
  assumes "db_wf d" "get_row i d = Some r"
  shows "cores (put_run (r\<lparr>r_evaluation_status := s\<rparr>) d) = cores d"
proof -
  have "core r \<in> set (cores d)" using get_row_SomeD [OF assms(2)] by (simp add: cores_def)
  then show ?thesis
    using assms(1) by (simp add: cores_put_run db_wf_def put_core_same)
qed

section \<open>Inserted rows\<close>

lemma insert_eventD: "insert_event e d = Inr d' \<Longrightarrow> d' = d\<lparr>events := events d @ [e]\<rparr>"
  by (auto simp: insert_event_def split: if_splits)

lemma insert_outboxD: "insert_outbox x d = Inr d' \<Longrightarrow> d' = d\<lparr>outbox := outbox d @ [x]\<rparr>"
  by (auto simp: insert_outbox_def split: if_splits)

lemma insert_evaluationD:
  "insert_evaluation v d = Inr d' \<Longrightarrow> d' = d\<lparr>evaluations := evaluations d @ [v]\<rparr>"
  by (auto simp: insert_evaluation_def split: if_splits)

lemma insert_runD:
  "insert_run r d = Inr d' \<Longrightarrow> d' = d\<lparr>runs := runs d @ [r]\<rparr> \<and> r_id r \<notin> r_id ` set (runs d) \<and>
    find_by_idempotency_key (r_client_id r) (r_idempotency_key r) d = None"
  by (auto simp: insert_run_def list_ex_iff find_by_idempotency_key_def find_None_iff split: if_splits)

lemma insert_attemptD:
  "insert_attempt a d = Inr d' \<Longrightarrow> d' = d\<lparr>attempts := attempts d @ [a]\<rparr> \<and>
    a_id a \<notin> a_id ` set (attempts d) \<and> get_row (a_run_id a) d \<noteq> None"
  by (auto simp: insert_attempt_def list_ex_iff split: if_splits)

lemmas insert_dests = insert_eventD insert_outboxD insert_evaluationD

lemma cores_upd [simp]:
  "cores (d\<lparr>events := es\<rparr>) = cores d" "cores (d\<lparr>outbox := xs\<rparr>) = cores d"
  "cores (d\<lparr>evaluations := vs\<rparr>) = cores d" "cores (d\<lparr>attempts := as\<rparr>) = cores d"
  "cores (put_attempt a d) = cores d" "cores (put_evaluation v d) = cores d"
  "cores (set_quota q d) = cores d"
  by (simp_all add: cores_def)

lemma get_row_upd [simp]:
  "get_row i (d\<lparr>events := es\<rparr>) = get_row i d" "get_row i (d\<lparr>outbox := xs\<rparr>) = get_row i d"
  "get_row i (d\<lparr>evaluations := vs\<rparr>) = get_row i d" "get_row i (d\<lparr>attempts := as\<rparr>) = get_row i d"
  "get_row i (put_attempt a d) = get_row i d" "get_row i (put_evaluation v d) = get_row i d"
  "get_row i (set_quota q d) = get_row i d"
  by (simp_all add: get_row_def)

lemma attempts_of_upd [simp]:
  "attempts_of i (d\<lparr>events := es\<rparr>) = attempts_of i d"
  "attempts_of i (d\<lparr>outbox := xs\<rparr>) = attempts_of i d"
  "attempts_of i (d\<lparr>evaluations := vs\<rparr>) = attempts_of i d"
  "attempts_of i (put_run r d) = attempts_of i d" "attempts_of i (put_evaluation v d) = attempts_of i d"
  "attempts_of i (set_quota q d) = attempts_of i d" "attempts_of i (d\<lparr>runs := rs\<rparr>) = attempts_of i d"
  by (simp_all add: attempts_of_def)

section \<open>Finished attempts\<close>

lemma put_attempt_facts:
  assumes "distinct (map a_id (attempts d))" "a \<in> set (attempts d)"
    and "a_id a' = a_id a" "a_run_id a' = a_run_id a"
  shows "attempts_of (a_run_id a) (put_attempt a' d) = replace_attempt a' (attempts_of (a_run_id a) d)"
    and "j \<noteq> a_run_id a \<Longrightarrow> attempts_of j (put_attempt a' d) = attempts_of j d"
    and "map a_id (attempts (put_attempt a' d)) = map a_id (attempts d)"
    and "map a_run_id (attempts (put_attempt a' d)) = map a_run_id (attempts d)"
proof -
  let ?up = "\<lambda>x. if a_id x = a_id a' then a' else x"
  have at: "attempts (put_attempt a' d) = map ?up (attempts d)"
    by (simp add: put_attempt_def rewrite_def)
  have same: "x \<in> set (attempts d) \<Longrightarrow> a_run_id (?up x) = a_run_id x" for x
    using assms by (auto simp: distinct_map inj_on_eq_iff)
  then have fil: "filter (\<lambda>x. a_run_id x = j) (map ?up (attempts d)) =
      map ?up (filter (\<lambda>x. a_run_id x = j) (attempts d))" for j
    unfolding filter_map comp_def by (intro arg_cong [of _ _ "map ?up"] filter_cong) auto
  then show "attempts_of (a_run_id a) (put_attempt a' d) =
      replace_attempt a' (attempts_of (a_run_id a) d)"
    by (simp add: attempts_of_def at replace_attempt_def)
  have "x \<in> set (attempts d) \<Longrightarrow> a_run_id x = j \<Longrightarrow> ?up x = x" if "j \<noteq> a_run_id a" for x
    using that assms by (auto simp: distinct_map inj_on_eq_iff)
  then show "j \<noteq> a_run_id a \<Longrightarrow> attempts_of j (put_attempt a' d) = attempts_of j d"
    unfolding attempts_of_def at fil by (intro map_idI) auto
  show "map a_id (attempts (put_attempt a' d)) = map a_id (attempts d)" by (simp add: at)
  show "map a_run_id (attempts (put_attempt a' d)) = map a_run_id (attempts d)"
    unfolding at map_map comp_def by (intro map_cong refl same)
qed

section \<open>Moves and creations\<close>

text \<open>
  One run moves: its life takes one step, everything else stays. A move into \<open>RUNNING\<close> happens only
  below both running quotas.
\<close>

definition moves :: "exec_config \<Rightarrow> uuid \<Rightarrow> db \<Rightarrow> db \<Rightarrow> bool" where
  "moves cfg i d d' \<longleftrightarrow> (\<exists>r r'. row_with r_id i (cores d) = Some r \<and>
     life_step (exec_max_attempts cfg) (r, attempts_of i d) (r', attempts_of i d') \<and>
     (r_execution_status r' = RUNNING \<longrightarrow> \<not> running_quota_full (exec_quotas cfg) r d) \<and>
     cores d' = put_core r' (cores d) \<and>
     (\<forall>j. j \<noteq> i \<longrightarrow> attempts_of j d' = attempts_of j d) \<and>
     distinct (map a_id (attempts d')) \<and> a_run_id ` set (attempts d') \<subseteq> r_id ` set (cores d))"

text \<open>Several different runs move in turn, or stay.\<close>

inductive moves_list :: "exec_config \<Rightarrow> uuid list \<Rightarrow> db \<Rightarrow> db \<Rightarrow> bool" for cfg where
  no_moves: "cores d' = cores d \<Longrightarrow> attempts d' = attempts d \<Longrightarrow> moves_list cfg is d d'"
| more_moves: "moves cfg i d e \<Longrightarrow> moves_list cfg is e d' \<Longrightarrow> i \<notin> set is \<Longrightarrow> moves_list cfg (i # is) d d'"
| skip_move: "moves_list cfg is d d' \<Longrightarrow> moves_list cfg (i # is) d d'"

text \<open>A new run in its initial state, admitted below both active quotas.\<close>

definition initial_run :: "run_row \<Rightarrow> bool" where
  "initial_run r \<longleftrightarrow> r_execution_status r = QUEUED \<and> r_result_payload r = None \<and> r_error_code r = None \<and>
     r_started_at r = None \<and> r_completed_at r = None \<and> r_lease_owner r = None \<and>
     r_lease_expires_at r = None \<and> r_next_attempt_at r = None \<and>
     (\<exists>p. r_principal_id r = Some p \<and> str_or (Some p) (r_client_id r) = p)"

definition admitted :: "quota_limits \<Rightarrow> run_row \<Rightarrow> db \<Rightarrow> bool" where
  "admitted lm r d \<longleftrightarrow>
     count_runs (\<lambda>x. r_principal_id x = r_principal_id r \<and> is_active x) d < principal_active lm \<and>
     count_runs (\<lambda>x. r_client_id x = r_client_id r \<and> is_active x) d < tenant_active lm"

definition creates :: "quota_limits \<Rightarrow> db \<Rightarrow> db \<Rightarrow> bool" where
  "creates lm d d' \<longleftrightarrow> (\<exists>r. initial_run r \<and> admitted lm r d \<and> r_id r \<notin> r_id ` set (cores d) \<and>
     cores d' = cores d @ [core r] \<and> attempts d' = attempts d)"

section \<open>What moves and creations keep\<close>

lemma life_step_fixed:
  assumes "life_step budget (r, as) (r', as')"
  shows "r_id r' = r_id r" "r_client_id r' = r_client_id r" "r_principal_id r' = r_principal_id r"
    "r_work_kind r' = r_work_kind r" "r_idempotency_key r' = r_idempotency_key r"
    "r_request_hash r' = r_request_hash r" "r_input_payload r' = r_input_payload r"
    "r_policy_snapshot r' = r_policy_snapshot r" "r_trace_context r' = r_trace_context r"
    "r_created_at r' = r_created_at r" "r_replay_of r' = r_replay_of r"
  using assms by (auto elim!: life_stepE)

lemma moves_life:
  assumes "moves cfg i d d'"
  shows "\<exists>l l'. life_of i d = Some l \<and> life_of i d' = Some l' \<and> life_step (exec_max_attempts cfg) l l'"
    and "j \<noteq> i \<Longrightarrow> life_of j d' = life_of j d"
proof -
  obtain r r' where r: "row_with r_id i (cores d) = Some r"
    and step: "life_step (exec_max_attempts cfg) (r, attempts_of i d) (r', attempts_of i d')"
    and cores: "cores d' = put_core r' (cores d)"
    and other: "\<forall>j. j \<noteq> i \<longrightarrow> attempts_of j d' = attempts_of j d"
    using assms by (auto simp: moves_def)
  have "r_id r = i" using r by (auto dest: row_with_SomeD)
  then have "r_id r' = i" using life_step_fixed(1) [OF step] by simp
  then show "\<exists>l l'. life_of i d = Some l \<and> life_of i d' = Some l' \<and>
      life_step (exec_max_attempts cfg) l l'"
    using r step by (auto simp: life_of_eq cores row_with_put_core)
  show "j \<noteq> i \<Longrightarrow> life_of j d' = life_of j d"
    using \<open>r_id r' = i\<close> other by (simp add: life_of_eq cores row_with_put_core)
qed

lemma moves_wf: "moves cfg i d d' \<Longrightarrow> db_wf d \<Longrightarrow> db_wf d'"
proof -
  assume m: "moves cfg i d d'" and wf: "db_wf d"
  then obtain r' where c: "cores d' = put_core r' (cores d)" by (auto simp: moves_def)
  then have "map r_id (cores d') = map r_id (cores d)" by simp
  then have "r_id ` set (cores d') = r_id ` set (cores d)" by (metis list.set_map)
  then show "db_wf d'"
    using m wf \<open>map r_id (cores d') = map r_id (cores d)\<close> by (auto simp: moves_def db_wf_def)
qed

lemma same_life: "cores d' = cores d \<Longrightarrow> attempts d' = attempts d \<Longrightarrow> life_of j d' = life_of j d"
  by (simp add: life_of_eq attempts_of_def)

lemma same_wf: "cores d' = cores d \<Longrightarrow> attempts d' = attempts d \<Longrightarrow> db_wf d' = db_wf d"
  by (simp add: db_wf_def)

lemma moves_list_wf: "moves_list cfg is d d' \<Longrightarrow> db_wf d \<Longrightarrow> db_wf d'"
  by (induction rule: moves_list.induct) (blast dest: same_wf moves_wf)+

text \<open>In a transaction every run takes at most one step.\<close>

lemma moves_list_life:
  assumes "moves_list cfg is d d'"
  shows "j \<notin> set is \<Longrightarrow> life_of j d' = life_of j d"
    and "life_of j d' = life_of j d \<or> (\<exists>l l'. life_of j d = Some l \<and> life_of j d' = Some l' \<and>
      life_step (exec_max_attempts cfg) l l')"
  using assms
proof (induction arbitrary: rule: moves_list.induct)
  case (more_moves i d e "is" d')
  {
    case 1
    then show ?case using more_moves moves_life(2) [OF more_moves(1), of j] by simp
  next
    case 2
    show ?case
    proof (cases "j = i")
      case True
      then have "life_of j d' = life_of j e" using more_moves by simp
      then show ?thesis using moves_life(1) [OF more_moves(1)] True by auto
    next
      case False
      then show ?thesis using more_moves.IH(2) moves_life(2) [OF more_moves(1) False] by simp
    qed
  }
qed (auto dest: same_life)

lemma creates_life:
  assumes "creates lm d d'" "db_wf d"
  shows "life_of j d \<noteq> None \<Longrightarrow> life_of j d' = life_of j d"
    and "life_of j d = None \<Longrightarrow> life_of j d' = None \<or> (\<exists>r. initial_run r \<and> life_of j d' = Some (core r, []))"
proof -
  obtain r where r: "initial_run r" "r_id r \<notin> r_id ` set (cores d)"
    and c: "cores d' = cores d @ [core r]" "attempts d' = attempts d"
    using assms(1) by (auto simp: creates_def)
  have at: "attempts_of j d' = attempts_of j d" for j using c(2) by (simp add: attempts_of_def)
  have "attempts_of (r_id r) d = []"
    using r(2) db_wf_attempt [OF assms(2)] unfolding attempts_of_def filter_empty_conv by metis
  then show "life_of j d = None \<Longrightarrow> life_of j d' = None \<or> (\<exists>r. initial_run r \<and> life_of j d' = Some (core r, []))"
    using r(1) by (auto simp: life_of_eq c(1) at row_with_append)
  show "life_of j d \<noteq> None \<Longrightarrow> life_of j d' = life_of j d"
    by (auto simp: life_of_eq c(1) at row_with_append)
qed

lemma creates_wf: "creates lm d d' \<Longrightarrow> db_wf d \<Longrightarrow> db_wf d'"
  unfolding creates_def db_wf_def by (elim exE conjE) (simp add: subset_insertI2)

end
