(* ===== verification/Service_Refinement.thy ===== *)
theory Service_Refinement
  imports Lifecycle_Refinement
begin

text \<open>
  One lemma per transaction of \<open>ExecutionPersistenceService\<close> and \<open>SqlAlchemyRunService\<close>: which moves
  or creations of \<open>Lifecycle_Refinement\<close> it amounts to.
\<close>

lemma core_upd [simp]:
  "core (r\<lparr>r_execution_status := x1\<rparr>) = (core r)\<lparr>r_execution_status := x1\<rparr>"
  "core (r\<lparr>r_result_payload := x2\<rparr>) = (core r)\<lparr>r_result_payload := x2\<rparr>"
  "core (r\<lparr>r_error_code := x3\<rparr>) = (core r)\<lparr>r_error_code := x3\<rparr>"
  "core (r\<lparr>r_started_at := x4\<rparr>) = (core r)\<lparr>r_started_at := x4\<rparr>"
  "core (r\<lparr>r_completed_at := x5\<rparr>) = (core r)\<lparr>r_completed_at := x5\<rparr>"
  "core (r\<lparr>r_lease_owner := x6\<rparr>) = (core r)\<lparr>r_lease_owner := x6\<rparr>"
  "core (r\<lparr>r_lease_expires_at := x7\<rparr>) = (core r)\<lparr>r_lease_expires_at := x7\<rparr>"
  "core (r\<lparr>r_next_attempt_at := x8\<rparr>) = (core r)\<lparr>r_next_attempt_at := x8\<rparr>"
  by (cases r, simp add: core_def)+

lemma running_count_put_evaluation [simp]: "running_count p (put_evaluation v d) = running_count p d"
  by (simp add: running_count_def count_runs_def)

text \<open>Settling an evaluation job touches no life: it only annotates the source run.\<close>

lemma finalize_same:
  assumes "finalize_evaluation_job c n run d = Inr d'" "db_wf d"
  shows "cores d' = cores d" "attempts d' = attempts d" "outbox d' = outbox d" "quotas d' = quotas d"
proof -
  have wf: "db_wf (put_evaluation v d)" for v using assms(2) by (simp add: db_wf_def)
  have "cores d' = cores d \<and> attempts d' = attempts d \<and> outbox d' = outbox d \<and> quotas d' = quotas d"
    using assms(1) annotate_cores [OF wf]
    by (auto simp: finalize_evaluation_job_def Let_def split: if_splits option.splits dest!: insert_eventD)
  then show "cores d' = cores d" "attempts d' = attempts d" "outbox d' = outbox d"
    "quotas d' = quotas d" by auto
qed

lemma get_row_core: "get_row i d = Some r \<Longrightarrow> row_with r_id i (cores d) = Some (core r)"
  by (simp add: row_with_cores)

lemma running_quota_core [simp]: "running_quota_full lm (core r) d = running_quota_full lm r d"
  by (simp add: running_quota_full_def)

text \<open>A run that moves without touching its attempts.\<close>

lemma moves_status:
  assumes "db_wf d" "get_row i d = Some r" "cores d' = put_core r' (cores d)" "attempts d' = attempts d"
    and "life_step (exec_max_attempts cfg) (core r, attempts_of i d) (r', attempts_of i d)"
    and "r_execution_status r' \<noteq> RUNNING"
  shows "moves cfg i d d'"
proof -
  have "attempts_of j d' = attempts_of j d" for j using assms(4) by (simp add: attempts_of_def)
  moreover have "distinct (map a_id (attempts d'))" "a_run_id ` set (attempts d') \<subseteq> r_id ` set (cores d)"
    using assms(1,4) by (simp_all add: db_wf_def)
  ultimately show ?thesis using assms(2,3,5,6) get_row_core [OF assms(2)] by (auto simp: moves_def)
qed

lemma defer_moves:
  assumes "defer_run c run d = Inr (res, d')" "db_wf d" "get_row i d = Some run"
    "r_execution_status run = QUEUED"
  shows "moves cfg i d d'"
proof -
  obtain t where d': "d' = put_run (run\<lparr>r_execution_status := RETRY_SCHEDULED, r_next_attempt_at := Some t\<rparr>) d"
    using assms(1) by (auto simp: defer_run_def)
  show ?thesis
  proof (rule moves_status [OF assms(2,3)])
    show "cores d' = put_core ((core run)\<lparr>r_execution_status := RETRY_SCHEDULED,
        r_next_attempt_at := Some t\<rparr>) (cores d)"
      by (simp add: d' cores_put_run)
  qed (simp_all add: d' defer_step assms(4))
qed

lemma reject_moves:
  assumes "reject_run c run d = Inr (res, d')" "db_wf d" "get_row i d = Some run"
    "r_execution_status run = QUEUED"
  shows "moves cfg i d d'"
proof -
  let ?run = "run\<lparr>r_execution_status := FAILED, r_error_code := Some ''INVALID_STORED_POLICY'',
    r_completed_at := Some (c_now c)\<rparr>"
  have f: "finalize_evaluation_job c 0 ?run (put_run ?run d) = Inr d'"
    using assms(1) by (auto simp: reject_run_def Let_def)
  have wf: "db_wf (put_run ?run d)"
    using assms(2) by (simp add: db_wf_def cores_put_run flip: set_map)
  show ?thesis
  proof (rule moves_status [OF assms(2,3)])
    show "cores d' = put_core ((core run)\<lparr>r_execution_status := FAILED,
        r_error_code := Some ''INVALID_STORED_POLICY'', r_completed_at := Some (c_now c)\<rparr>) (cores d)"
      using finalize_same(1) [OF f wf] by (simp add: cores_put_run)
    show "attempts d' = attempts d" using finalize_same(2) [OF f wf] by simp
  qed (simp_all add: reject_step assms(4))
qed

lemma start_moves:
  assumes "start_attempt c lease run w p n d = Inr (res, d')" "db_wf d" "get_row i d = Some run"
    "r_execution_status run = QUEUED" "from_snapshot (r_policy_snapshot run) = Inr p"
    "n = next_attempt_number i d" "n \<le> min (max_attempts p) (exec_max_attempts cfg)"
    "\<not> running_quota_full (exec_quotas cfg) run d"
  shows "moves cfg i d d'"
proof -
  let ?a = "new_attempt c i n (provider_for p n) w"
  have i: "r_id run = i" using assms(3) by (auto dest: get_row_SomeD)
  obtain t s d1 where ins: "insert_attempt ?a (put_run (run\<lparr>r_execution_status := RUNNING,
      r_lease_owner := Some w, r_lease_expires_at := Some t, r_started_at := Some s\<rparr>) d) = Inr d1"
    and s: "case r_started_at run of None \<Rightarrow> True | Some s' \<Rightarrow> s = s'"
    and d': "cores d' = cores d1" "attempts d' = attempts d1"
    using assms(1) i by (auto simp: start_attempt_def Let_def split: option.splits dest!: insert_eventD)
  let ?r = "(core run)\<lparr>r_execution_status := RUNNING, r_lease_owner := Some w,
      r_lease_expires_at := Some t, r_started_at := Some s\<rparr>"
  have at: "attempts d' = attempts d @ [?a]" and fresh: "a_id ?a \<notin> a_id ` set (attempts d)"
    and cores: "cores d' = put_core ?r (cores d)"
    using insert_attemptD [OF ins] d' by (auto simp: cores_put_run)
  have of_i: "attempts_of i d' = attempts_of i d @ [?a]"
    by (simp add: attempts_of_def at new_attempt_def)
  have "a_id ?a \<notin> a_id ` set (attempts_of i d)" using fresh by (auto simp: attempts_of_def)
  then have "life_step (exec_max_attempts cfg) (core run, attempts_of i d) (?r, attempts_of i d @ [?a])"
    using assms(4-7) s i
    by (intro claim_step [where p = p])
      (auto simp: new_attempt_def next_attempt_number_def is_open_def outcome_ok_def)
  moreover have "j \<noteq> i \<Longrightarrow> attempts_of j d' = attempts_of j d" for j
    by (simp add: attempts_of_def at new_attempt_def)
  moreover have "i \<in> r_id ` set (cores d)"
    using row_with_SomeD [OF get_row_core [OF assms(3)]] by (metis image_eqI)
  then have "a_run_id ` set (attempts d') \<subseteq> r_id ` set (cores d)"
    using assms(2) by (simp add: at db_wf_def new_attempt_def)
  moreover have "distinct (map a_id (attempts d'))" using assms(2) fresh by (simp add: at db_wf_def)
  ultimately show ?thesis
    using get_row_core [OF assms(3)] cores of_i assms(8)
    unfolding moves_def by (intro exI [of _ "core run"] exI [of _ ?r]) simp
qed

lemma claim_moves:
  assumes "claim c cfg i w d = Inr (res, d')" "db_wf d"
  shows "moves_list cfg [i] d d'"
proof (cases "d' = d")
  case False
  then obtain run where run: "get_row i d = Some run" "r_execution_status run = QUEUED"
    and q: "claim_queued c cfg run w d = Inr (res, d')"
    using assms(1) by (auto simp: claim_def split: option.splits if_splits)
  have i: "r_id run = i" using run(1) by (auto dest: get_row_SomeD)
  have "moves cfg i d d'"
    using q i start_moves [OF _ assms(2) run(1,2)] defer_moves [OF _ assms(2) run(1,2)]
      reject_moves [OF _ assms(2) run(1,2)]
    by (auto simp: claim_queued_def Let_def not_less split: if_splits sum.splits)
  then show ?thesis by (rule more_moves) (simp_all add: no_moves)
qed (simp add: no_moves)

text \<open>A run whose open attempt ends with it.\<close>

lemma moves_finish:
  assumes "db_wf d" "get_row i d = Some run" "a \<in> set (attempts d)" "a_run_id a = i" "finishes a a'"
    and "cores d' = put_core r' (cores d)" "attempts d' = attempts (put_attempt a' d)"
    and step: "life_step (exec_max_attempts cfg) (core run, attempts_of i d)
      (r', replace_attempt a' (attempts_of i d))"
    and "r_execution_status r' \<noteq> RUNNING"
  shows "moves cfg i d d'"
proof -
  have ids: "a_id a' = a_id a" "a_run_id a' = a_run_id a" using assms(5) by (auto simp: finishes_def)
  have dist: "distinct (map a_id (attempts d))" using assms(1) by (simp add: db_wf_def)
  note f = put_attempt_facts [OF dist assms(3) ids]
  have of: "attempts_of j d' = attempts_of j (put_attempt a' d)" for j
    using assms(7) by (simp add: attempts_of_def)
  have "a_run_id ` set (attempts d') = a_run_id ` set (attempts d)"
    using f(4) assms(7) by (metis list.set_map)
  moreover have "distinct (map a_id (attempts d'))" using f(3) dist assms(7) by simp
  moreover have "attempts_of i d' = replace_attempt a' (attempts_of i d)"
    using of f(1) assms(4) by simp
  moreover have "j \<noteq> i \<Longrightarrow> attempts_of j d' = attempts_of j d" for j
    using of f(2) assms(4) by simp
  ultimately show ?thesis
    using get_row_core [OF assms(2)] assms(1,6,9) step unfolding moves_def
    by (intro exI [of _ "core run"] exI [of _ r']) (simp add: db_wf_def)
qed

lemma in_attempts_of: "a \<in> set (attempts d) \<Longrightarrow> a_run_id a = i \<Longrightarrow> a \<in> set (attempts_of i d)"
  by (simp add: attempts_of_def)

lemma wf_finish:
  assumes "db_wf d" "a \<in> set (attempts d)" "finishes a a'"
  shows "db_wf (put_run r (put_attempt a' d))"
proof -
  have ids: "a_id a' = a_id a" "a_run_id a' = a_run_id a" using assms(3) by (auto simp: finishes_def)
  have dist: "distinct (map a_id (attempts d))" using assms(1) by (simp add: db_wf_def)
  note f = put_attempt_facts(3,4) [OF dist assms(2) ids]
  have "a_run_id ` set (attempts (put_attempt a' d)) = a_run_id ` set (attempts d)"
    using f(2) by (metis list.set_map)
  moreover have "r_id ` set (put_core (core r) (cores d)) = r_id ` set (cores d)"
    by (metis list.set_map map_id_put_core)
  ultimately show ?thesis
    using assms(1) f(1) by (simp add: db_wf_def cores_put_run)
qed

lemma wf_upd [simp]:
  "db_wf (d\<lparr>events := es\<rparr>) = db_wf d" "db_wf (d\<lparr>outbox := xs\<rparr>) = db_wf d"
  "db_wf (d\<lparr>evaluations := vs\<rparr>) = db_wf d" "db_wf (set_quota q d) = db_wf d"
  by (simp_all add: db_wf_def)

lemma success_moves:
  assumes "complete_success c i aid w result d = Inr (ok, d')" "db_wf d"
  shows "moves_list cfg [i] d d' \<and> (ok \<longrightarrow> moves cfg i d d')"
proof (cases ok)
  case False
  then have "d' = d"
    using assms(1) by (auto simp: complete_success_def Let_def split: option.splits if_splits)
  then show ?thesis using False by (simp add: no_moves)
next
  case True
  then obtain run a where run: "get_row i d = Some run" "owns_active_lease run w (c_now c)"
    and a: "row_with a_id aid (attempts d) = Some a" "a_run_id a = i" "a_finished_at a = None"
    using assms(1) by (auto simp: complete_success_def Let_def split: option.splits if_splits)
  let ?a = "a\<lparr>a_provider := x_provider result, a_usage := x_usage result, a_finished_at := Some (c_now c),
    a_outcome := Some ''SUCCEEDED'', a_latency_ms := Some (elapsed_ms (a_started_at a) (c_now c))\<rparr>"
  let ?run = "clear_lease (run\<lparr>r_execution_status := SUCCEEDED,
    r_result_payload := Some (x_result_payload result), r_completed_at := Some (c_now c),
    r_error_code := None, r_next_attempt_at := None\<rparr>)"
  have mem: "a \<in> set (attempts d)" using a(1) by (auto dest: row_with_SomeD)
  have fin: "finishes a ?a" using a(3) by (simp add: finishes_def is_open_def outcome_ok_def)
  obtain es where f: "finalize_evaluation_job c 1 ?run
      ((put_run ?run (put_attempt ?a d))\<lparr>events := es\<rparr>) = Inr d'"
    using assms(1) True run a
    by (auto simp: complete_success_def Let_def dest!: insert_eventD)
  have wf: "db_wf ((put_run ?run (put_attempt ?a d))\<lparr>events := es\<rparr>)"
    by (simp add: wf_finish [OF assms(2) mem fin])
  have "moves cfg i d d'"
  proof (rule moves_finish [OF assms(2) run(1) mem a(2) fin])
    show "cores d' = put_core (core ?run) (cores d)" using finalize_same(1) [OF f wf] by (simp add: cores_put_run)
    show "attempts d' = attempts (put_attempt ?a d)" using finalize_same(2) [OF f wf] by simp
    show "life_step (exec_max_attempts cfg) (core run, attempts_of i d)
        (core ?run, replace_attempt ?a (attempts_of i d))"
      unfolding clear_lease_def core_upd using run(2) fin in_attempts_of [OF mem a(2)]
      by (intro succeed_step) (auto simp: owns_active_lease_def)
  qed (simp add: clear_lease_def)
  then show ?thesis by (auto intro: more_moves no_moves)
qed

section \<open>Failures, recovery and scheduling\<close>

lemma finishes_failed: "a_finished_at a = None \<Longrightarrow> finishes a (finish_failed_attempt a now e)"
  by (simp add: finishes_def is_open_def outcome_ok_def finish_failed_attempt_def)

lemma bury_effect:
  assumes "bury_run c n run a e recovery p d = Inr d'" "db_wf (put_run run' d)"
    and "run' = run\<lparr>r_next_attempt_at := None, r_completed_at := Some (c_now c),
      r_execution_status := (if a_retryable a = Some True then DEAD_LETTERED else FAILED)\<rparr>"
  shows "cores d' = put_core (core run') (cores d)" "attempts d' = attempts d"
proof -
  have "\<exists>d1. finalize_evaluation_job c (n + 2) run' d1 = Inr d' \<and>
      cores d1 = cores (put_run run' d) \<and> attempts d1 = attempts d"
    using assms(1) unfolding bury_run_def Let_def assms(3) [symmetric]
    by (fastforce split: if_splits dest: insert_eventD insert_outboxD)
  then obtain d1 where f: "finalize_evaluation_job c (n + 2) run' d1 = Inr d'"
    and d1: "cores d1 = cores (put_run run' d)" "attempts d1 = attempts d" by blast
  have wf: "db_wf d1" using assms(2) d1 by (simp add: db_wf_def)
  show "cores d' = put_core (core run') (cores d)" "attempts d' = attempts d"
    using finalize_same(1,2) [OF f wf] d1 by (simp_all add: cores_put_run)
qed

lemma fail_moves:
  assumes "fail_attempt c n run a e recovery d = Inr d'" "db_wf d" "get_row i d = Some run"
    "r_execution_status run = RUNNING" "a \<in> set (attempts d)" "a_run_id a = i" "a_finished_at a = None"
  shows "moves cfg i d d'"
proof -
  let ?a = "finish_failed_attempt a (c_now c) e"
  let ?run = "(clear_lease run)\<lparr>r_error_code := Some e\<rparr>"
  have fin: "finishes a ?a" using assms(7) by (rule finishes_failed)
  note mem = in_attempts_of [OF assms(5,6)]
  note rule = moves_finish [OF assms(2,3,5,6) fin]
  obtain p where p: "from_snapshot (r_policy_snapshot run) = Inr p"
    using assms(1) by (auto simp: fail_attempt_def schedule_retry_or_finalize_def Let_def)
  show ?thesis
  proof (cases "a_retryable ?a = Some True \<and> a_number ?a < max_attempts p")
    case True
    then obtain t es where d': "d' = (put_run (?run\<lparr>r_execution_status := RETRY_SCHEDULED,
        r_next_attempt_at := Some t\<rparr>) (put_attempt ?a d))\<lparr>events := es\<rparr>"
      using assms(1) p
      by (auto simp: fail_attempt_def schedule_retry_or_finalize_def schedule_retry_def Let_def
          dest!: insert_eventD)
    show ?thesis
    proof (rule rule)
      show "cores d' = put_core (core (?run\<lparr>r_execution_status := RETRY_SCHEDULED,
          r_next_attempt_at := Some t\<rparr>)) (cores d)" by (simp add: d' cores_put_run)
      show "life_step (exec_max_attempts cfg) (core run, attempts_of i d)
          (core (?run\<lparr>r_execution_status := RETRY_SCHEDULED, r_next_attempt_at := Some t\<rparr>),
           replace_attempt ?a (attempts_of i d))"
        unfolding clear_lease_def core_upd using assms(4) p True fin mem
        by (intro retry_step [where p = p]) (auto simp: finish_failed_attempt_def)
    qed (simp_all add: d')
  next
    case False
    let ?run' = "?run\<lparr>r_next_attempt_at := None, r_completed_at := Some (c_now c),
      r_execution_status := (if a_retryable ?a = Some True then DEAD_LETTERED else FAILED)\<rparr>"
    have b: "bury_run c n ?run ?a e recovery p (put_attempt ?a d) = Inr d'"
      using assms(1) p False
      by (auto simp: fail_attempt_def schedule_retry_or_finalize_def Let_def split: if_splits)
    note eff = bury_effect [OF b wf_finish [OF assms(2,5) fin] refl]
    show ?thesis
    proof (rule rule)
      show "cores d' = put_core (core ?run') (cores d)" using eff(1) by simp
      show "attempts d' = attempts (put_attempt ?a d)" using eff(2) by simp
      show "life_step (exec_max_attempts cfg) (core run, attempts_of i d)
          (core ?run', replace_attempt ?a (attempts_of i d))"
        unfolding clear_lease_def core_upd using assms(4) fin mem by (intro bury_step) auto
    qed (simp add: clear_lease_def)
  qed
qed

lemma failure_moves:
  assumes "complete_failure c i aid w e d = Inr (ok, d')" "db_wf d"
  shows "moves_list cfg [i] d d' \<and> (ok \<longrightarrow> moves cfg i d d')"
proof (cases ok)
  case False
  then have "d' = d"
    using assms(1) by (auto simp: complete_failure_def split: option.splits if_splits)
  then show ?thesis using False by (simp add: no_moves)
next
  case True
  then obtain run a where "get_row i d = Some run" "owns_active_lease run w (c_now c)"
    and "row_with a_id aid (attempts d) = Some a" "a_run_id a = i" "a_finished_at a = None"
    and "fail_attempt c 0 run a e False d = Inr d'"
    using assms(1) by (auto simp: complete_failure_def split: option.splits if_splits)
  then have "moves cfg i d d'"
    using fail_moves [OF _ assms(2)] by (auto simp: owns_active_lease_def dest: row_with_SomeD)
  then show ?thesis by (auto intro: more_moves no_moves)
qed

lemma moves_other_row: "moves cfg i d d' \<Longrightarrow> j \<noteq> i \<Longrightarrow> row_with r_id j (cores d') = row_with r_id j (cores d)"
proof -
  assume "moves cfg i d d'" "j \<noteq> i"
  then obtain r r' where r: "row_with r_id i (cores d) = Some r"
    and s: "life_step (exec_max_attempts cfg) (r, attempts_of i d) (r', attempts_of i d')"
    and c: "cores d' = put_core r' (cores d)" by (auto simp: moves_def)
  have "r_id r' = i" using life_step_fixed(1) [OF s] row_with_SomeD [OF r] by simp
  then show ?thesis using \<open>j \<noteq> i\<close> by (simp add: c row_with_put_core)
qed

lemma latest_open_attemptD:
  "latest_open_attempt i d = Some a \<Longrightarrow> a \<in> set (attempts d) \<and> a_run_id a = i \<and> a_finished_at a = None"
proof -
  let ?open = "filter (\<lambda>a. a_finished_at a = None) (attempts_of i d)"
  assume "latest_open_attempt i d = Some a"
  then obtain rest where "sort_key (\<lambda>a. - a_number a) ?open = a # rest"
    by (auto simp: latest_open_attempt_def split: list.splits)
  then have "a \<in> set ?open" by (metis list.set_intros(1) set_sort)
  then show ?thesis by (simp add: attempts_of_def)
qed

lemma recover_each_moves:
  assumes "recover_each c n ids d = Inr d'" "db_wf d" "distinct ids"
    "\<forall>i \<in> set ids. \<exists>r. row_with r_id i (cores d) = Some r \<and> r_execution_status r = RUNNING"
  shows "moves_list cfg ids d d'"
  using assms
proof (induction ids arbitrary: n d)
  case (Cons i ids)
  then obtain run where run: "get_row i d = Some run" "r_execution_status run = RUNNING"
    by (auto simp: row_with_cores)
  show ?case
  proof (cases "latest_open_attempt i d")
    case None
    then have "moves_list cfg ids d d'" using Cons run by auto
    then show ?thesis by (rule skip_move)
  next
    case (Some a)
    then obtain e where e: "fail_attempt c n run a ''EXECUTION_LEASE_EXPIRED'' True d = Inr e"
      and rest: "recover_each c (n + 3) ids e = Inr d'" using Cons.prems(1) run by auto
    have m: "moves cfg i d e"
      using fail_moves [OF e Cons.prems(2) run] latest_open_attemptD [OF Some] by auto
    have "\<forall>j \<in> set ids. row_with r_id j (cores e) = row_with r_id j (cores d)"
      using moves_other_row [OF m] Cons.prems(3) by (metis distinct.simps(2))
    then have "moves_list cfg ids e d'"
      using Cons.prems(3,4) by (intro Cons.IH [OF rest] moves_wf [OF m Cons.prems(2)]) auto
    then show ?thesis using m Cons.prems(3) by (intro more_moves) auto
  qed
qed (simp add: no_moves)

lemma row_in_runs:
  assumes "db_wf d" "r \<in> set (runs d)"
  shows "row_with r_id (r_id r) (cores d) = Some (core r)" "get_row (r_id r) d = Some r"
proof -
  have "distinct (map r_id (runs d))" using assms(1) by (simp add: db_wf_def map_id_cores)
  then show "get_row (r_id r) d = Some r" using assms(2) by (simp add: get_row_def row_with_distinct)
  then show "row_with r_id (r_id r) (cores d) = Some (core r)" by (rule get_row_core)
qed

lemma distinct_selected:
  assumes "distinct (map r_id (runs d))"
  shows "distinct (map r_id (take k (sort_key key (filter p (runs d)))))"
proof -
  have "distinct (map r_id (filter p (runs d)))" using assms by (rule distinct_map_filter)
  moreover have "mset (map r_id (sort_key key (filter p (runs d)))) = mset (map r_id (filter p (runs d)))"
    by simp
  ultimately have "distinct (map r_id (sort_key key (filter p (runs d))))"
    by (metis mset_eq_imp_distinct_iff)
  then show ?thesis by (simp add: take_map [symmetric])
qed

lemma set_selected: "r \<in> set (take k (sort_key key (filter p rs))) \<Longrightarrow> r \<in> set rs \<and> p r"
  by (auto dest!: in_set_takeD)

lemma recover_moves:
  assumes "recover_expired_leases c batch d = Inr (n, d')" "db_wf d"
  shows "moves_list cfg (map r_id (expired_runs c batch d)) d d'"
proof (rule recover_each_moves)
  show "recover_each c 0 (map r_id (expired_runs c batch d)) d = Inr d'"
    using assms(1) by (auto simp: recover_expired_leases_def)
  show "distinct (map r_id (expired_runs c batch d))"
    using assms(2) unfolding expired_runs_def
    by (intro distinct_selected) (simp add: db_wf_def map_id_cores)
  show "\<forall>i \<in> set (map r_id (expired_runs c batch d)).
      \<exists>r. row_with r_id i (cores d) = Some r \<and> r_execution_status r = RUNNING"
    unfolding expired_runs_def
    by (auto dest!: set_selected simp: lease_expired_def row_in_runs(1) [OF assms(2)])
qed (rule assms(2))

lemma requeue_moves:
  assumes "requeue_run c n run d = Inr d'" "db_wf d" "get_row i d = Some run"
    "r_execution_status run = RETRY_SCHEDULED"
  shows "moves cfg i d d'"
proof (rule moves_status [OF assms(2,3)])
  show "cores d' = put_core ((core run)\<lparr>r_execution_status := QUEUED, r_next_attempt_at := None\<rparr>) (cores d)"
    "attempts d' = attempts d"
    using assms(1) by (auto simp: requeue_run_def cores_put_run dest!: insert_eventD insert_outboxD)
  show "life_step (exec_max_attempts cfg) (core run, attempts_of i d)
      ((core run)\<lparr>r_execution_status := QUEUED, r_next_attempt_at := None\<rparr>, attempts_of i d)"
    using assms(4) by (intro requeue_step) simp
qed simp

lemma requeue_each_moves:
  assumes "requeue_each c n ids d = Inr d'" "db_wf d" "distinct ids"
    "\<forall>i \<in> set ids. \<exists>r. row_with r_id i (cores d) = Some r \<and> r_execution_status r = RETRY_SCHEDULED"
  shows "moves_list cfg ids d d'"
  using assms
proof (induction ids arbitrary: n d)
  case (Cons i ids)
  then obtain run where run: "get_row i d = Some run" "r_execution_status run = RETRY_SCHEDULED"
    by (auto simp: row_with_cores)
  then obtain e where e: "requeue_run c n run d = Inr e"
    and rest: "requeue_each c (n + 2) ids e = Inr d'" using Cons.prems(1) by auto
  have m: "moves cfg i d e" by (rule requeue_moves [OF e Cons.prems(2) run])
  have "\<forall>j \<in> set ids. row_with r_id j (cores e) = row_with r_id j (cores d)"
    using moves_other_row [OF m] Cons.prems(3) by (metis distinct.simps(2))
  then have "moves_list cfg ids e d'"
    using Cons.prems(3,4) by (intro Cons.IH [OF rest] moves_wf [OF m Cons.prems(2)]) auto
  then show ?case using m Cons.prems(3) by (intro more_moves) auto
qed (simp add: no_moves)

lemma schedule_moves:
  assumes "schedule_due_retries c batch d = Inr (n, d')" "db_wf d"
  shows "moves_list cfg (map r_id (due_runs c batch d)) d d'"
proof (rule requeue_each_moves)
  show "requeue_each c 0 (map r_id (due_runs c batch d)) d = Inr d'"
    using assms(1) by (auto simp: schedule_due_retries_def)
  show "distinct (map r_id (due_runs c batch d))"
    using assms(2) unfolding due_runs_def
    by (intro distinct_selected) (simp add: db_wf_def map_id_cores)
  show "\<forall>i \<in> set (map r_id (due_runs c batch d)).
      \<exists>r. row_with r_id i (cores d) = Some r \<and> r_execution_status r = RETRY_SCHEDULED"
    unfolding due_runs_def
    by (auto dest!: set_selected simp: retry_due_def row_in_runs(1) [OF assms(2)])
qed (rule assms(2))

section \<open>Submission, replay and evaluation jobs\<close>

lemma str_or_idem: "str_or (Some (str_or p c)) c = str_or p c"
  by (cases p) auto

lemma initial_new_run: "prin = str_or p client \<Longrightarrow> initial_run (new_run c n client prin kind key h inp pol rep)"
  by (simp add: initial_run_def new_run_def str_or_idem del: str_or.simps)

lemma check_admission_admitted:
  "check_admission c prin client lm d = Inr u \<Longrightarrow> r_principal_id r = Some prin \<Longrightarrow> r_client_id r = client \<Longrightarrow>
    admitted lm r d"
  by (auto simp: check_admission_def admitted_def)

lemma createsI:
  assumes "insert_run r d = Inr d1" "initial_run r" "admitted lm r d"
    "cores d' = cores d1" "attempts d' = attempts d1"
  shows "creates lm d d'"
  using insert_runD [OF assms(1)] assms(2-5) unfolding creates_def
  by (intro exI [of _ r]) (simp add: cores_def set_id_cores [unfolded cores_def] image_image)

lemma routing_event_same:
  "routing_event c n i policy d = Inr d' \<Longrightarrow> \<exists>es. d' = d\<lparr>events := es\<rparr>"
  by (auto simp: routing_event_def split: option.splits dest!: insert_eventD
      intro: exI [of _ "events d"])

lemma new_run_fields [simp]:
  "r_principal_id (new_run c n client prin kind key h inp pol rep) = Some prin"
  "r_client_id (new_run c n client prin kind key h inp pol rep) = client"
  "r_idempotency_key (new_run c n client prin kind key h inp pol rep) = key"
  "r_id (new_run c n client prin kind key h inp pol rep) = c_uuid c n"
  by (simp_all add: new_run_def)

lemma submit_new_creates:
  assumes "submit_new c lm client prin key inp pol kind d = Inr ((snap, dup), d')" "prin = str_or p client"
  shows "creates lm d d' \<and> \<not> dup"
proof -
  let ?run = "new_run c 0 client prin kind key (submission_hash kind inp pol) inp pol None"
  obtain u d1 where adm: "check_admission c prin client lm d = Inr u" and ins: "insert_run ?run d = Inr d1"
    and same: "cores d' = cores d1" "attempts d' = attempts d1" and dup: "\<not> dup"
    using assms(1) by (auto simp: submit_new_def Let_def dest!: insert_eventD insert_outboxD routing_event_same)
  have "admitted lm ?run d" by (rule check_admission_admitted [OF adm]) simp_all
  then show ?thesis
    using createsI [OF ins initial_new_run [OF assms(2)] _ same] dup by blast
qed

lemma submit_creates:
  assumes "submit c lm client key inp pol principal_id kind d = Inr ((snap, dup), d')"
  shows "if dup then d' = d else creates lm d d'"
  using assms submit_new_creates
  by (auto simp: submit_def Let_def match_or_raise_def get_idempotent_run_after_race_def
      split: option.splits sum.splits exn.splits if_splits) blast+

lemma replay_new_creates:
  assumes "replay_new c lm client prin key source d = Inr ((snap, dup), d')" "prin = str_or p client"
  shows "creates lm d d' \<and> \<not> dup"
proof -
  let ?run = "new_run c 0 client prin ''execution'' key (replay_hash source)
    (r_input_payload source) (r_policy_snapshot source) (Some (r_id source))"
  obtain u d1 where adm: "check_admission c prin client lm d = Inr u" and ins: "insert_run ?run d = Inr d1"
    and same: "cores d' = cores d1" "attempts d' = attempts d1" and dup: "\<not> dup"
    using assms(1) by (auto simp: replay_new_def Let_def dest!: insert_eventD insert_outboxD)
  have "admitted lm ?run d" by (rule check_admission_admitted [OF adm]) simp_all
  then show ?thesis
    using createsI [OF ins initial_new_run [OF assms(2)] _ same] dup by blast
qed

lemma replay_creates:
  assumes "replay c lm client i key principal_id d = Inr ((snap, dup), d')"
  shows "if dup then d' = d else creates lm d d'"
  using assms replay_new_creates
  by (auto simp: replay_def Let_def match_replay_or_raise_def get_idempotent_run_after_race_def
      split: option.splits sum.splits exn.splits if_splits) blast+

lemma evaluate_creates:
  assumes "evaluate schema_ok c lm jt client i rules principal_id d = Inr (snap, d')" "db_wf d"
  shows "creates lm d d'"
proof -
  let ?prin = "str_or principal_id client"
  let ?job = "evaluation_job c jt client ?prin i rules"
  obtain run u d1 where run: "get_run_for_client client i d = Inr run"
    and adm: "check_admission c ?prin client lm d = Inr u" and ins: "insert_run ?job d = Inr d1"
    and same: "cores d' = cores (put_run (run\<lparr>r_evaluation_status := PENDING\<rparr>) d1)"
      "attempts d' = attempts d1"
    using assms(1) by (auto simp: evaluate_def Let_def dest!: insert_dests)
  have fields: "r_principal_id ?job = Some ?prin" "r_client_id ?job = client"
    by (simp_all add: evaluation_job_def)
  have c1: "creates lm d d1"
    using createsI [OF ins _ check_admission_admitted [OF adm fields] refl refl] initial_new_run
    by (auto simp: evaluation_job_def)
  have "run \<in> set (runs d)"
    using run by (auto simp: get_run_for_client_def find_Some_iff split: option.splits)
  then have "run \<in> set (runs d1)" using insert_runD [OF ins] by simp
  then have "cores d' = cores d1"
    using annotate_cores row_in_runs(2) creates_wf [OF c1 assms(2)] same(1) by metis
  then show ?thesis using c1 same(2) by (simp add: creates_def)
qed

end
