(* ===== verification/Service_Invariants.thy ===== *)
theory Service_Invariants
  imports Service_Refinement
begin

text \<open>
  The two database services as one transition system, and the invariants every reachable database
  satisfies: each run's life is well formed, and the active and running quotas of every principal
  and tenant are respected.
\<close>

section \<open>Invariants of a transition system\<close>

locale inductive_invariant =
  fixes start :: "'s \<Rightarrow> bool" and step :: "'s \<Rightarrow> 's \<Rightarrow> bool" and inv :: "'s \<Rightarrow> bool"
  assumes inv_start: "start s \<Longrightarrow> inv s"
    and inv_step: "step s t \<Longrightarrow> inv s \<Longrightarrow> inv t"
begin

lemma inv_steps: "step\<^sup>*\<^sup>* s t \<Longrightarrow> inv s \<Longrightarrow> inv t"
  by (induction rule: rtranclp_induct) (auto intro: inv_step)

lemma inv_reachable: "start s \<Longrightarrow> step\<^sup>*\<^sup>* s t \<Longrightarrow> inv t"
  using inv_start inv_steps by blast

text \<open>A relation that holds across every step from an invariant state, composed along a path.\<close>

lemma path_relation:
  assumes "step\<^sup>*\<^sup>* s t" "inv s" "\<And>u. rel u u" "\<And>u v w. rel u v \<Longrightarrow> rel v w \<Longrightarrow> rel u w"
    and "\<And>u v. inv u \<Longrightarrow> step u v \<Longrightarrow> rel u v"
  shows "rel s t"
  using assms(1,2)
proof (induction rule: rtranclp_induct)
  case base
  then show ?case using assms(3) by simp
next
  case (step u v)
  then have "inv u" using inv_steps by blast
  then show ?case using step assms(4,5) by blast
qed

end

section \<open>The services as a transition system\<close>

text \<open>
  One step is one committed transaction, with any context and any arguments. The services share
  one configuration: the quotas of the run service are those of the execution service. \<open>submit\<close> is
  called with the kinds of its two callers, \<open>execution\<close> by the API and \<open>regression\<close> by
  \<open>submit_regression\<close>.
\<close>

inductive svc_step :: "exec_config \<Rightarrow> db \<Rightarrow> db \<Rightarrow> bool" for cfg where
  step_submit: "submit c (exec_quotas cfg) client key inp pol prin kind d = Inr (out, d') \<Longrightarrow>
    kind = ''execution'' \<or> kind = ''regression'' \<Longrightarrow> svc_step cfg d d'"
| step_replay: "replay c (exec_quotas cfg) client i key prin d = Inr (out, d') \<Longrightarrow> svc_step cfg d d'"
| step_evaluate: "evaluate schema_ok c (exec_quotas cfg) jt client i rules prin d = Inr (snap, d') \<Longrightarrow>
    svc_step cfg d d'"
| step_claim: "claim c cfg i w d = Inr (cl, d') \<Longrightarrow> svc_step cfg d d'"
| step_success: "complete_success c i aid w result d = Inr (ok, d') \<Longrightarrow> svc_step cfg d d'"
| step_failure: "complete_failure c i aid w e d = Inr (ok, d') \<Longrightarrow> svc_step cfg d d'"
| step_recover: "recover_expired_leases c batch d = Inr (n, d') \<Longrightarrow> svc_step cfg d d'"
| step_schedule: "schedule_due_retries c batch d = Inr (n, d') \<Longrightarrow> svc_step cfg d d'"
| step_charge: "charge_provider_call c p t (exec_quotas cfg) d = Inr d' \<Longrightarrow> svc_step cfg d d'"

definition reachable_db :: "exec_config \<Rightarrow> db \<Rightarrow> bool" where
  "reachable_db cfg d \<longleftrightarrow> (svc_step cfg)\<^sup>*\<^sup>* empty_db d"

lemma charge_same:
  assumes "charge_provider_call c p t lm d = Inr d'"
  shows "cores d' = cores d" "attempts d' = attempts d"
  using assms by (auto simp: charge_Inr_iff)

text \<open>Every step moves different runs or creates one run.\<close>

lemma svc_step_cases:
  assumes "svc_step cfg d d'" "db_wf d"
  obtains (moved) ids where "moves_list cfg ids d d'" | (created) "creates (exec_quotas cfg) d d'"
  using assms(1)
proof cases
  case (step_submit c client key inp pol prin kind out)
  obtain snap dup where "out = (snap, dup)" by (cases out)
  then have "if dup then d' = d else creates (exec_quotas cfg) d d'"
    using step_submit submit_creates by blast
  then show thesis using that no_moves by (metis (full_types))
next
  case (step_replay c client i key prin out)
  obtain snap dup where "out = (snap, dup)" by (cases out)
  then have "if dup then d' = d else creates (exec_quotas cfg) d d'"
    using step_replay replay_creates by blast
  then show thesis using that no_moves by (metis (full_types))
next
  case (step_evaluate schema_ok c jt client i rules prin snap)
  then show thesis using evaluate_creates assms(2) that(2) by blast
next
  case (step_claim c i w cl)
  then show thesis using claim_moves assms(2) that(1) by blast
next
  case (step_success c i aid w result ok)
  then show thesis using success_moves assms(2) that(1) by blast
next
  case (step_failure c i aid w e ok)
  then show thesis using failure_moves assms(2) that(1) by blast
next
  case (step_recover c batch n)
  then show thesis using recover_moves assms(2) that(1) by blast
next
  case (step_schedule c batch n)
  then show thesis using schedule_moves assms(2) that(1) by blast
next
  case (step_charge c p t)
  then show thesis using charge_same that(1) by (blast intro: no_moves)
qed

section \<open>Counting\<close>

lemma count_runs_cores:
  assumes "\<And>r. P (core r) = P r"
  shows "count_runs P d = int (length (filter P (cores d)))"
  unfolding count_runs_def cores_def filter_map comp_def assms by simp

lemma put_core_Cons: "put_core r (x # rs) = (if r_id x = r_id r then r else x) # put_core r rs"
  by (simp add: put_core_def)

lemma length_filter_put_core:
  assumes "distinct (map r_id rs)" "r \<in> set rs" "r_id r' = r_id r"
  shows "int (length (filter P (put_core r' rs))) =
    int (length (filter P rs)) - (if P r then 1 else 0) + (if P r' then 1 else 0)"
  using assms
proof (induction rs)
  case (Cons x rs)
  show ?case
  proof (cases "x = r")
    case True
    then have "r_id r' \<notin> r_id ` set rs" using Cons.prems by auto
    then have "\<forall>y \<in> set rs. r_id y \<noteq> r_id r'" by (metis imageI)
    then have "put_core r' rs = rs" unfolding put_core_def by (intro map_idI) simp
    then show ?thesis using True Cons.prems by (simp add: put_core_Cons)
  next
    case False
    then have r: "r \<in> set rs" using Cons.prems by simp
    then have "r_id x \<noteq> r_id r'" using Cons.prems by (metis distinct.simps(2) image_eqI list.simps(9) list.set_map)
    then show ?thesis using Cons r by (cases "P r"; cases "P r'"; simp add: put_core_Cons)
  qed
qed simp

definition below :: "(run_row \<Rightarrow> bool) \<Rightarrow> int \<Rightarrow> db \<Rightarrow> bool" where
  "below P n d \<longleftrightarrow> int (length (filter P (cores d))) \<le> n"

lemma below_moves:
  assumes "moves cfg i d d'" "db_wf d" "below P n d"
    and "\<And>r r'. r \<in> set (cores d) \<Longrightarrow>
      life_step (exec_max_attempts cfg) (r, attempts_of i d) (r', attempts_of i d') \<Longrightarrow>
      (r_execution_status r' = RUNNING \<longrightarrow> \<not> running_quota_full (exec_quotas cfg) r d) \<Longrightarrow>
      P r' \<Longrightarrow> P r \<or> int (length (filter P (cores d))) < n"
  shows "below P n d'"
proof -
  obtain r r' where r: "row_with r_id i (cores d) = Some r"
    and step: "life_step (exec_max_attempts cfg) (r, attempts_of i d) (r', attempts_of i d')"
    and guard: "r_execution_status r' = RUNNING \<longrightarrow> \<not> running_quota_full (exec_quotas cfg) r d"
    and c: "cores d' = put_core r' (cores d)" using assms(1) by (auto simp: moves_def)
  have mem: "r \<in> set (cores d)" using r by (auto dest: row_with_SomeD)
  have "distinct (map r_id (cores d))" using assms(2) by (simp add: db_wf_def)
  then have "int (length (filter P (cores d'))) =
      int (length (filter P (cores d))) - (if P r then 1 else 0) + (if P r' then 1 else 0)"
    unfolding c using length_filter_put_core mem life_step_fixed(1) [OF step] by blast
  then show ?thesis
    using assms(3) assms(4) [OF mem step guard] by (auto simp: below_def split: if_splits)
qed

section \<open>The invariant of the database\<close>

definition principals_ok :: "db \<Rightarrow> bool" where
  "principals_ok d \<longleftrightarrow> (\<forall>r \<in> set (cores d). \<exists>p. r_principal_id r = Some p \<and> str_or (Some p) (r_client_id r) = p)"

definition quotas_sane :: "quota_limits \<Rightarrow> bool" where
  "quotas_sane lm \<longleftrightarrow> 0 \<le> principal_active lm \<and> 0 \<le> tenant_active lm \<and>
     0 \<le> principal_running lm \<and> 0 \<le> tenant_running lm"

definition quotas_kept :: "quota_limits \<Rightarrow> db \<Rightarrow> bool" where
  "quotas_kept lm d \<longleftrightarrow>
     (\<forall>p. below (\<lambda>r. r_principal_id r = Some p \<and> is_active r) (principal_active lm) d) \<and>
     (\<forall>t. below (\<lambda>r. r_client_id r = t \<and> is_active r) (tenant_active lm) d) \<and>
     (\<forall>p. below (\<lambda>r. r_principal_id r = Some p \<and> r_execution_status r = RUNNING) (principal_running lm) d) \<and>
     (\<forall>t. below (\<lambda>r. r_client_id r = t \<and> r_execution_status r = RUNNING) (tenant_running lm) d)"

definition lives_ok :: "int \<Rightarrow> db \<Rightarrow> bool" where
  "lives_ok budget d \<longleftrightarrow> (\<forall>i l. life_of i d = Some l \<longrightarrow> life_ok budget l)"

definition db_ok :: "exec_config \<Rightarrow> db \<Rightarrow> bool" where
  "db_ok cfg d \<longleftrightarrow> db_wf d \<and> principals_ok d \<and> lives_ok (exec_max_attempts cfg) d \<and>
     (quotas_sane (exec_quotas cfg) \<longrightarrow> quotas_kept (exec_quotas cfg) d)"

lemma life_step_source: "life_step b (r, as) (r', as') \<Longrightarrow> is_active r"
  by (auto elim!: life_stepE simp: is_active_def)

lemma life_step_running:
  "life_step b (r, as) (r', as') \<Longrightarrow> r_execution_status r' = RUNNING \<Longrightarrow> r_execution_status r = QUEUED"
  by (auto elim!: life_stepE)

lemma core_insensitive [simp]:
  "is_active (core r) = is_active r"
  by (simp add: is_active_def)

lemma not_full_below:
  assumes "\<not> running_quota_full lm r d"
  shows "int (length (filter (\<lambda>x. r_client_id x = r_client_id r \<and> r_execution_status x = RUNNING) (cores d)))
      < tenant_running lm"
    and "r_principal_id r = Some p \<Longrightarrow> str_or (Some p) (r_client_id r) = p \<Longrightarrow>
      int (length (filter (\<lambda>x. r_principal_id x = Some p \<and> r_execution_status x = RUNNING) (cores d)))
      < principal_running lm"
  using assms unfolding running_quota_full_def running_count_def
  by (simp_all add: count_runs_cores del: str_or.simps)

lemma quotas_kept_moves:
  assumes m: "moves cfg i d d'" and wf: "db_wf d" and pr: "principals_ok d"
    and q: "quotas_kept (exec_quotas cfg) d"
  shows "quotas_kept (exec_quotas cfg) d'"
  unfolding quotas_kept_def
proof (intro conjI allI)
  fix x
  show "below (\<lambda>r. r_principal_id r = Some x \<and> is_active r) (principal_active (exec_quotas cfg)) d'"
    using q life_step_source life_step_fixed(3)
    by (intro below_moves [OF m wf]) (auto simp: quotas_kept_def)
  show "below (\<lambda>r. r_client_id r = x \<and> is_active r) (tenant_active (exec_quotas cfg)) d'"
    using q life_step_source life_step_fixed(2)
    by (intro below_moves [OF m wf]) (auto simp: quotas_kept_def)
  show "below (\<lambda>r. r_principal_id r = Some x \<and> r_execution_status r = RUNNING)
      (principal_running (exec_quotas cfg)) d'"
  proof (rule below_moves [OF m wf])
    fix r r' assume r: "r \<in> set (cores d)"
      and s: "life_step (exec_max_attempts cfg) (r, attempts_of i d) (r', attempts_of i d')"
      and g: "r_execution_status r' = RUNNING \<longrightarrow> \<not> running_quota_full (exec_quotas cfg) r d"
      and p: "r_principal_id r' = Some x \<and> r_execution_status r' = RUNNING"
    have "r_principal_id r = Some x" using p life_step_fixed(3) [OF s] by simp
    moreover have "str_or (Some x) (r_client_id r) = x" using pr r calculation by (auto simp: principals_ok_def)
    ultimately show "r_principal_id r = Some x \<and> r_execution_status r = RUNNING \<or>
        int (length (filter (\<lambda>r. r_principal_id r = Some x \<and> r_execution_status r = RUNNING) (cores d)))
        < principal_running (exec_quotas cfg)"
      using not_full_below(2) g p by blast
  qed (use q in \<open>simp add: quotas_kept_def\<close>)
  show "below (\<lambda>r. r_client_id r = x \<and> r_execution_status r = RUNNING) (tenant_running (exec_quotas cfg)) d'"
  proof (rule below_moves [OF m wf])
    fix r r' assume s: "life_step (exec_max_attempts cfg) (r, attempts_of i d) (r', attempts_of i d')"
      and g: "r_execution_status r' = RUNNING \<longrightarrow> \<not> running_quota_full (exec_quotas cfg) r d"
      and p: "r_client_id r' = x \<and> r_execution_status r' = RUNNING"
    have "r_client_id r = x" using p life_step_fixed(2) [OF s] by simp
    then show "r_client_id r = x \<and> r_execution_status r = RUNNING \<or>
        int (length (filter (\<lambda>r. r_client_id r = x \<and> r_execution_status r = RUNNING) (cores d)))
        < tenant_running (exec_quotas cfg)"
      using not_full_below(1) g p by blast
  qed (use q in \<open>simp add: quotas_kept_def\<close>)
qed

lemma db_ok_moves: "moves cfg i d d' \<Longrightarrow> db_ok cfg d \<Longrightarrow> db_ok cfg d'"
proof -
  assume m: "moves cfg i d d'" and ok: "db_ok cfg d"
  have wf: "db_wf d" and pr: "principals_ok d" using ok by (simp_all add: db_ok_def)
  obtain r r' where r: "row_with r_id i (cores d) = Some r" and c: "cores d' = put_core r' (cores d)"
    and s: "life_step (exec_max_attempts cfg) (r, attempts_of i d) (r', attempts_of i d')"
    using m by (auto simp: moves_def)
  have "r \<in> set (cores d)" using r by (auto dest: row_with_SomeD)
  then have "\<exists>p. r_principal_id r' = Some p \<and> str_or (Some p) (r_client_id r') = p"
    using pr unfolding principals_ok_def life_step_fixed(2,3) [OF s] by blast
  then have "principals_ok d'"
    using pr unfolding principals_ok_def c put_core_def by (auto split: if_splits)
  moreover have "lives_ok (exec_max_attempts cfg) d'"
    unfolding lives_ok_def
  proof (intro allI impI)
    fix j l assume l: "life_of j d' = Some l"
    show "life_ok (exec_max_attempts cfg) l"
    proof (cases "j = i")
      case True
      then show ?thesis
        using l moves_life(1) [OF m] ok life_ok_step unfolding db_ok_def lives_ok_def by (metis option.inject)
    next
      case False
      then show ?thesis using l moves_life(2) [OF m False] ok unfolding db_ok_def lives_ok_def by metis
    qed
  qed
  ultimately show "db_ok cfg d'"
    using ok moves_wf [OF m wf] quotas_kept_moves [OF m wf pr] by (simp add: db_ok_def)
qed

lemma db_ok_same: "cores d' = cores d \<Longrightarrow> attempts d' = attempts d \<Longrightarrow> db_ok cfg d \<Longrightarrow> db_ok cfg d'"
  using same_wf [of d' d] same_life [of d' d]
  by (simp add: db_ok_def lives_ok_def principals_ok_def quotas_kept_def below_def)

lemma db_ok_moves_list: "moves_list cfg ids d d' \<Longrightarrow> db_ok cfg d \<Longrightarrow> db_ok cfg d'"
  by (induction rule: moves_list.induct) (blast intro: db_ok_same db_ok_moves)+

lemma initial_life_ok: "initial_run r \<Longrightarrow> life_ok b (core r, [])"
  by (auto simp: initial_run_def attempts_ok_def budget_kept_def fields_ok_def)

lemma db_ok_creates:
  assumes "creates (exec_quotas cfg) d d'" "db_ok cfg d"
  shows "db_ok cfg d'"
proof -
  have wf: "db_wf d" using assms(2) by (simp add: db_ok_def)
  obtain r where r: "initial_run r" "admitted (exec_quotas cfg) r d"
    and c: "cores d' = cores d @ [core r]" using assms(1) by (auto simp: creates_def)
  have st: "r_execution_status r = QUEUED" using r(1) by (simp add: initial_run_def)
  have "lives_ok (exec_max_attempts cfg) d'"
    unfolding lives_ok_def
  proof (intro allI impI)
    fix i l assume "life_of i d' = Some l"
    then show "life_ok (exec_max_attempts cfg) l"
      using creates_life [OF assms(1) wf, of i] assms(2) initial_life_ok
      unfolding db_ok_def lives_ok_def by (metis option.distinct(1) option.inject)
  qed
  moreover have "principals_ok d'"
    using assms(2) r(1) by (simp add: db_ok_def principals_ok_def c initial_run_def del: str_or.simps)
  moreover have "quotas_kept (exec_quotas cfg) d'" if "quotas_kept (exec_quotas cfg) d"
    using that r(2) st
    by (auto simp: quotas_kept_def below_def c admitted_def count_runs_cores)
  ultimately show ?thesis
    using assms(2) creates_wf [OF assms(1) wf] by (simp add: db_ok_def)
qed

lemma db_ok_empty: "db_ok cfg empty_db"
  by (simp add: db_ok_def principals_ok_def lives_ok_def quotas_kept_def below_def quotas_sane_def)
    (simp add: cores_def empty_db_def life_of_def get_row_def)

interpretation svc: inductive_invariant "\<lambda>d. d = empty_db" "svc_step cfg" "db_ok cfg" for cfg
proof
  show "d = empty_db \<Longrightarrow> db_ok cfg d" for d by (simp add: db_ok_empty)
  fix d d' assume "svc_step cfg d d'" "db_ok cfg d"
  moreover have "db_wf d" using \<open>db_ok cfg d\<close> by (simp add: db_ok_def)
  ultimately show "db_ok cfg d'" by (metis svc_step_cases db_ok_moves_list db_ok_creates)
qed

end
