(* ===== verification/Sample_Run.thy ===== *)
theory Sample_Run
  imports Service_Invariants
begin

text \<open>
  A small concrete history used as an example throughout: a run is submitted, claimed by a worker
  and completed. The request hash stays symbolic; everything else is evaluated.
\<close>

definition sample_cfg :: exec_config where
  "sample_cfg = \<lparr>lease_seconds = 30, exec_quotas = default_quotas, exec_max_attempts = 3\<rparr>"

definition sample_run :: run_row where
  "sample_run = new_run sample_ctx 0 ''acme'' ''acme'' ''execution'' ''key-1''
     (submission_hash ''execution'' [] []) [] [] None"

definition sample_queued :: db where
  "sample_queued = \<lparr>runs = [sample_run], attempts = [],
     events = [new_event sample_ctx 2 1 None ''RUN_QUEUED'' [(''source'', JStr ''api'')]],
     outbox = [new_outbox sample_ctx 1 1 ''RUN_QUEUED'' [(''trace_context'', JDict [])]],
     evaluations = [], quotas = []\<rparr>"

definition claim_ctx :: ctx where
  "claim_ctx = sample_ctx\<lparr>c_now := 6000000, c_db_now := 6000000, c_uuid := (\<lambda>n. of_nat (n + 10))\<rparr>"

definition sample_attempt :: attempt_row where
  "sample_attempt = new_attempt claim_ctx 1 1 ''deterministic'' ''worker-1''"

definition running_run :: run_row where
  "running_run = sample_run\<lparr>r_execution_status := RUNNING, r_lease_owner := Some ''worker-1'',
     r_lease_expires_at := Some 36000000, r_started_at := Some 6000000, r_version := 2\<rparr>"

definition sample_running :: db where
  "sample_running = sample_queued\<lparr>runs := [running_run], attempts := [sample_attempt],
     events := events sample_queued @ [new_event claim_ctx 1 1 (Some 10) ''RUN_CLAIMED''
       [(''worker_id'', JStr ''worker-1''), (''attempt_number'', JInt 1)]]\<rparr>"

lemma sample_run_id: "r_id sample_run = 1"
  by (simp add: sample_run_def sample_ctx_def)

lemma trace_sample: "r_trace_context sample_run = []"
  by (simp add: sample_run_def new_run_def inject_trace_context_def sample_ctx_def
      sanitize_trace_context_def dget_or_def traceparent_matches_def)

lemma submit_sample:
  "submit sample_ctx default_quotas ''acme'' ''key-1'' [] [] None ''execution'' empty_db
    = Inr ((to_run_snapshot sample_run, False), sample_queued)"
proof -
  have adm: "check_admission sample_ctx ''acme'' ''acme'' default_quotas empty_db = Inr ()"
    by code_simp
  have ins: "insert_run sample_run empty_db = Inr (empty_db\<lparr>runs := [sample_run]\<rparr>)"
    by (simp add: insert_run_def empty_db_def sample_run_def new_run_def)
  have "submit_new sample_ctx default_quotas ''acme'' ''acme'' ''key-1'' [] [] ''execution'' empty_db
    = Inr ((to_run_snapshot sample_run, False), sample_queued)"
    unfolding submit_new_def sample_run_def [symmetric] Let_def adm ins
    by (simp add: ins insert_outbox_def insert_event_def empty_db_def sample_queued_def new_outbox_def
        new_event_def get_row_def sample_run_id routing_event_def routing_decision_def
        first_provider_def dget_or_def sample_ctx_def trace_sample)
  then show ?thesis
    by (simp add: submit_def find_by_idempotency_key_def empty_db_def Let_def)
qed

lemma policy_sample: "from_snapshot [] = Inr \<lparr>max_attempts = 3, attempt_timeout_seconds = 60,
    initial_backoff_seconds = 1, max_backoff_seconds = 60, provider_order = [''deterministic'']\<rparr>"
proof -
  have "fl 60 = 60" "fl 1 = 1" using fl_small_int [of 60] fl_small_int [of 1] by simp_all
  moreover have "strip ''deterministic'' \<noteq> []" by code_simp
  ultimately show ?thesis
    by (simp add: from_snapshot_def dget_or_def positive_int_def positive_float_def
        int_exceeds_float_def RetryPolicy_def)
qed

lemma reachable_queued: "reachable_db sample_cfg sample_queued"
  using step_submit [of sample_ctx sample_cfg "''acme''" "''key-1''" "[]" "[]" None "''execution''" empty_db]
    submit_sample
  by (auto simp: reachable_db_def sample_cfg_def)

definition sample_claim :: claim_result where
  "sample_claim = \<lparr>cl_decision = CLAIMED, cl_run_id = 1, cl_attempt_id = Some 10, cl_input_payload = Some [],
     cl_policy_snapshot = Some [(''attempt_timeout_seconds'', JInt 29)], cl_provider = Some ''deterministic''\<rparr>"

lemma claim_sample: "claim claim_ctx sample_cfg 1 ''worker-1'' sample_queued = Inr (sample_claim, sample_running)"
proof -
  let ?running = "sample_run\<lparr>r_execution_status := RUNNING, r_lease_owner := Some ''worker-1'',
     r_lease_expires_at := Some 36000000, r_started_at := Some 6000000\<rparr>"
  have row: "get_row 1 sample_queued = Some sample_run"
    by (simp add: get_row_def sample_queued_def sample_run_id)
  have fields: "r_execution_status sample_run = QUEUED" "r_policy_snapshot sample_run = []"
    "r_started_at sample_run = None" "r_version sample_run = 1" "r_input_payload sample_run = []"
    by (simp_all add: sample_run_def new_run_def)
  have quota: "\<not> running_quota_full (exec_quotas sample_cfg) sample_run sample_queued"
    by (simp add: running_quota_full_def running_count_def count_runs_def sample_queued_def fields
        sample_cfg_def default_quotas_def)
  have n: "next_attempt_number 1 sample_queued = 1"
    by (simp add: next_attempt_number_def number_after_def attempts_of_def sample_queued_def)
  have "timedelta_us 30 = 30 * us_per_second" using timedelta_us_int [of 30] by simp
  then have plus: "plus_seconds 6000000 (rat_of_int 30) = Inr 36000000"
    by (simp add: plus_seconds_def claim_ctx_def us_per_second_def min_time_def max_time_def)
  have "?running \<noteq> sample_run"
  proof
    assume "?running = sample_run"
    then have "r_execution_status ?running = r_execution_status sample_run" by (rule arg_cong)
    then show False by (simp add: fields)
  qed
  then have "stamp ?running sample_run = running_run"
    by (simp add: stamp_def running_run_def fields)
  then have put: "put_run ?running sample_queued = sample_queued\<lparr>runs := [running_run]\<rparr>"
    by (simp add: put_run_def sample_queued_def sample_run_id)
  have rid: "r_id running_run = 1" by (simp add: running_run_def sample_run_id)
  have now: "c_now claim_ctx = 6000000" by (simp add: claim_ctx_def)
  have lease: "lease_seconds sample_cfg = 30" "exec_max_attempts sample_cfg = 3"
    by (simp_all add: sample_cfg_def)
  have prov: "provider_for \<lparr>max_attempts = 3, attempt_timeout_seconds = 60, initial_backoff_seconds = 1,
      max_backoff_seconds = 60, provider_order = [''deterministic'']\<rparr> 1 = ''deterministic''"
    by (simp add: provider_for_def)
  have "claim claim_ctx sample_cfg 1 ''worker-1'' sample_queued =
      start_attempt claim_ctx 30 sample_run ''worker-1'' \<lparr>max_attempts = 3, attempt_timeout_seconds = 60,
        initial_backoff_seconds = 1, max_backoff_seconds = 60, provider_order = [''deterministic'']\<rparr> 1 sample_queued"
    using quota by (simp add: claim_def claim_queued_def Let_def row fields sample_run_id n policy_sample lease)
  also have "\<dots> = Inr (sample_claim, sample_running)"
    unfolding start_attempt_def Let_def prov plus sample_run_id sample_attempt_def [symmetric]
      res_bind_simps fields option.case now put
    by (simp add: insert_attempt_def insert_event_def get_row_def rid sample_queued_def
        sample_running_def sample_attempt_def new_attempt_def new_event_def claim_ctx_def sample_ctx_def
        sample_claim_def claimed_policy_def dmerge_def dset_def)
  finally show ?thesis .
qed

section \<open>Completion\<close>

definition done_ctx :: ctx where
  "done_ctx = claim_ctx\<lparr>c_now := 8000000, c_db_now := 8000000, c_uuid := (\<lambda>n. of_nat (n + 20))\<rparr>"

definition sample_result :: execution_result where
  "sample_result = \<lparr>x_provider = ''deterministic'', x_result_payload = [(''answer'', JInt 42)], x_usage = None\<rparr>"

definition done_run :: run_row where
  "done_run = running_run\<lparr>r_execution_status := SUCCEEDED, r_result_payload := Some [(''answer'', JInt 42)],
     r_completed_at := Some 8000000, r_lease_owner := None, r_lease_expires_at := None, r_version := 3\<rparr>"

definition done_attempt :: attempt_row where
  "done_attempt = sample_attempt\<lparr>a_finished_at := Some 8000000, a_outcome := Some ''SUCCEEDED'',
     a_latency_ms := Some 2000\<rparr>"

definition sample_done :: db where
  "sample_done = sample_running\<lparr>runs := [done_run], attempts := [done_attempt],
     events := events sample_running @ [new_event done_ctx 0 1 (Some 10) ''RUN_SUCCEEDED''
       [(''provider'', JStr ''deterministic'')]]\<rparr>"

lemma success_sample:
  "complete_success done_ctx 1 10 ''worker-1'' sample_result sample_running = Inr (True, sample_done)"
proof -
  let ?done = "running_run\<lparr>r_execution_status := SUCCEEDED, r_result_payload := Some [(''answer'', JInt 42)],
     r_completed_at := Some 8000000, r_lease_owner := None, r_lease_expires_at := None\<rparr>"
  have fields: "r_id running_run = 1" "r_execution_status running_run = RUNNING" "r_version running_run = 2"
    "r_lease_owner running_run = Some ''worker-1''" "r_lease_expires_at running_run = Some 36000000"
    "r_work_kind running_run = ''execution''" "r_error_code running_run = None" "r_next_attempt_at running_run = None"
    by (simp_all add: running_run_def sample_run_def new_run_def sample_ctx_def)
  have row: "get_row 1 sample_running = Some running_run"
    by (simp add: get_row_def sample_running_def fields)
  have same: "running_run\<lparr>r_error_code := None, r_next_attempt_at := None\<rparr> = running_run"
    by (cases running_run) (use fields in simp)
  have "?done \<noteq> running_run"
  proof
    assume "?done = running_run"
    then have "r_execution_status ?done = r_execution_status running_run" by (rule arg_cong)
    then show False by (simp add: fields)
  qed
  then have st: "stamp ?done running_run = done_run"
    by (simp add: stamp_def done_run_def fields)
  have el: "elapsed_ms 6000000 8000000 = 2000" by code_simp
  have upd: "clear_lease (running_run\<lparr>r_execution_status := SUCCEEDED,
      r_result_payload := Some [(''answer'', JInt 42)], r_completed_at := Some 8000000,
      r_error_code := None, r_next_attempt_at := None\<rparr>) = ?done"
    by (cases running_run) (use fields in \<open>simp add: clear_lease_def\<close>)
  have att: "row_with a_id 10 (attempts sample_running) = Some sample_attempt" "a_run_id sample_attempt = 1"
    "a_finished_at sample_attempt = None" "a_started_at sample_attempt = 6000000"
    by (simp_all add: sample_running_def sample_attempt_def new_attempt_def claim_ctx_def)
  have put: "put_run ?done (put_attempt (sample_attempt\<lparr>a_provider := ''deterministic'', a_usage := None,
      a_finished_at := Some 8000000, a_outcome := Some ''SUCCEEDED'', a_latency_ms := Some 2000\<rparr>) sample_running)
    = sample_running\<lparr>runs := [done_run], attempts := [done_attempt]\<rparr>"
    by (simp add: put_run_def put_attempt_def sample_running_def fields st done_attempt_def sample_attempt_def
        new_attempt_def)
  have own: "owns_active_lease running_run ''worker-1'' 8000000"
    by (simp add: owns_active_lease_def fields)
  have fin: "finalize_evaluation_job c n ?done d = Inr d" for c n d
    by (simp add: finalize_evaluation_job_def fields)
  have now: "c_now done_ctx = 8000000" by (simp add: done_ctx_def)
  show ?thesis
    unfolding complete_success_def row option.case att now sample_result_def execution_result.select_convs Let_def
      upd el put
    by (simp add: own att fin insert_event_def get_row_def done_run_def fields sample_done_def sample_running_def
        sample_queued_def done_attempt_def sample_attempt_def new_attempt_def new_event_def done_ctx_def
        claim_ctx_def sample_ctx_def)
qed

definition sample_after :: db where
  "sample_after = sample_done\<lparr>quotas := [\<lparr>q_scope = p_scope ''acme'', q_window_start = 7200, q_used = 1\<rparr>,
     \<lparr>q_scope = t_scope ''acme'', q_window_start = 7200, q_used = 1\<rparr>]\<rparr>"

lemma charge_sample:
  "charge_provider_call done_ctx ''acme'' ''acme'' (exec_quotas sample_cfg) sample_done = Inr sample_after"
  by (simp add: charge_provider_call_def Let_def rolled_row_def quota_row_of_def set_quota_def sample_after_def sample_done_def
      sample_running_def sample_queued_def sample_cfg_def default_quotas_def current_window_def done_ctx_def
      claim_ctx_def sample_ctx_def)

lemma done_sample:
  "get_row 1 sample_done = Some done_run" "attempts_of 1 sample_done = [done_attempt]"
  "r_execution_status done_run = SUCCEEDED"
  by (simp_all add: get_row_def sample_done_def done_run_def running_run_def sample_run_id attempts_of_def
      done_attempt_def sample_attempt_def new_attempt_def)

end
