(* ===== verification/Service_Properties.thy ===== *)
theory Service_Properties
  imports Sample_Run
begin

text \<open>
  What the lifecycle invariant and the refinement give: the guarantees of the run and execution
  services as statements about the tables.
\<close>

section \<open>Library\<close>

lemma life_ok_core: "life_ok b (core r, as) = life_ok b (r, as)"
  by (simp add: attempts_ok_def budget_kept_def fields_ok_def)

lemma reachable_ok: "reachable_db cfg d \<Longrightarrow> db_ok cfg d"
  unfolding reachable_db_def using svc.inv_reachable by blast

lemma reachable_trans: "reachable_db cfg d \<Longrightarrow> (svc_step cfg)\<^sup>*\<^sup>* d d' \<Longrightarrow> reachable_db cfg d'"
  by (simp add: reachable_db_def)

lemma db_ok_life: "db_ok cfg d \<Longrightarrow> get_row i d = Some r \<Longrightarrow> life_ok (exec_max_attempts cfg) (r, attempts_of i d)"
  unfolding db_ok_def lives_ok_def life_of_def using life_ok_core by fastforce

lemma get_row_runs: "db_ok cfg d \<Longrightarrow> r \<in> set (runs d) \<Longrightarrow> get_row (r_id r) d = Some r"
  by (simp add: db_ok_def row_in_runs)

lemma below_count:
  "(\<And>r. P (core r) = P r) \<Longrightarrow> below P n d \<longleftrightarrow> count_runs P d \<le> n"
  by (simp add: below_def count_runs_cores)

text \<open>One step, seen from one run.\<close>

lemma svc_step_life:
  assumes "svc_step cfg d d'" "db_ok cfg d" "life_of i d = Some l"
  shows "\<exists>l'. life_of i d' = Some l' \<and> (l' = l \<or> life_step (exec_max_attempts cfg) l l')"
proof -
  have wf: "db_wf d" using assms(2) by (simp add: db_ok_def)
  show ?thesis
    using assms(1) wf
  proof (cases rule: svc_step_cases)
    case (moved ids)
    then show ?thesis using moves_list_life(2) [OF moved, of i] assms(3) by (cases l) auto
  next
    case created
    then show ?thesis using creates_life(1) [OF created wf, of i] assms(3) by auto
  qed
qed

lemma terminal_inactive: "is_terminal_execution_status (r_execution_status r) \<longleftrightarrow> \<not> is_active r"
  by (cases "r_execution_status r") (auto simp: is_active_def)

lemma sample_reachable: "reachable_db sample_cfg sample_running"
proof -
  have "svc_step sample_cfg sample_queued sample_running" using claim_sample by (rule step_claim)
  then show ?thesis using reachable_queued by (auto simp: reachable_db_def)
qed

lemma sample_rows:
  "get_row 1 sample_running = Some running_run" "get_row 1 sample_queued = Some sample_run"
  "attempts_of 1 sample_running = [sample_attempt]" "r_execution_status running_run = RUNNING"
  "r_execution_status sample_run = QUEUED"
  by (simp_all add: get_row_def sample_running_def sample_queued_def running_run_def sample_run_id
      attempts_of_def sample_attempt_def new_attempt_def sample_run_def new_run_def sample_ctx_def)

section \<open>The lifecycle invariant\<close>

text \<open>
  C1. In every database the services can reach, every run is in a consistent state: its attempts are
  numbered 1, 2, ... without gaps, only the last one may be open, and it is open exactly while the
  run is RUNNING under the lease of that attempt's worker; lease, retry time, completion time and
  result are set exactly in the statuses that own them; and no more attempts exist than the stored
  policy and the service allow.
\<close>

theorem lifecycle_invariant:
  assumes "reachable_db cfg d" "r \<in> set (runs d)"
  shows "life_ok (exec_max_attempts cfg) (r, attempts_of (r_id r) d)"
  using db_ok_life get_row_runs reachable_ok assms by blast

theorem lifecycle_invariant_witness:
  "reachable_db sample_cfg sample_running \<and> running_run \<in> set (runs sample_running) \<and>
   life_ok 3 (running_run, attempts_of 1 sample_running)"
proof -
  have "running_run \<in> set (runs sample_running)" by (simp add: sample_running_def)
  moreover have "exec_max_attempts sample_cfg = 3" "r_id running_run = 1"
    by (simp_all add: sample_cfg_def running_run_def sample_run_id)
  ultimately show ?thesis using lifecycle_invariant [OF sample_reachable] sample_reachable by metis
qed

section \<open>Quotas\<close>

text \<open>
  C2. At no time do more runs of a principal execute than its running quota allows, nor more runs of
  a tenant; and the queued, running and waiting runs together stay within the active quotas.
\<close>

theorem quotas_respected:
  assumes "reachable_db cfg d" "quotas_sane (exec_quotas cfg)"
  shows "running_count (\<lambda>r. r_principal_id r = Some p) d \<le> principal_running (exec_quotas cfg) \<and>
    running_count (\<lambda>r. r_client_id r = t) d \<le> tenant_running (exec_quotas cfg) \<and>
    count_runs (\<lambda>r. r_principal_id r = Some p \<and> is_active r) d \<le> principal_active (exec_quotas cfg) \<and>
    count_runs (\<lambda>r. r_client_id r = t \<and> is_active r) d \<le> tenant_active (exec_quotas cfg)"
proof -
  have "quotas_kept (exec_quotas cfg) d" using reachable_ok [OF assms(1)] assms(2) by (simp add: db_ok_def)
  then show ?thesis by (simp add: quotas_kept_def below_count running_count_def)
qed

theorem quotas_respected_witness:
  "reachable_db sample_cfg sample_running \<and> quotas_sane (exec_quotas sample_cfg) \<and>
   running_count (\<lambda>r. r_client_id r = ''acme'') sample_running \<le> 2"
proof -
  have q: "quotas_sane (exec_quotas sample_cfg)" "tenant_running (exec_quotas sample_cfg) = 2"
    by (simp_all add: sample_cfg_def default_quotas_def quotas_sane_def)
  then show ?thesis using quotas_respected [OF sample_reachable q(1), where t = "''acme''"] sample_reachable by simp
qed

section \<open>Steps\<close>

text \<open>The statuses a transaction may take a run to: the documented table, and the deferral of a claim.\<close>

definition status_edge :: "execution_status \<Rightarrow> execution_status \<Rightarrow> bool" where
  "status_edge s t \<longleftrightarrow> t \<in> set (ALLOWED_EXECUTION_TRANSITIONS s) \<or> s = QUEUED \<and> t = RETRY_SCHEDULED"

lemma life_step_edge: "life_step b (r, as) (r', as') \<Longrightarrow> status_edge (r_execution_status r) (r_execution_status r')"
  by (auto elim!: life_stepE simp: status_edge_def)

definition same_request :: "run_row \<Rightarrow> run_row \<Rightarrow> bool" where
  "same_request r r' \<longleftrightarrow> r_id r' = r_id r \<and> r_client_id r' = r_client_id r \<and>
     r_principal_id r' = r_principal_id r \<and> r_work_kind r' = r_work_kind r \<and>
     r_idempotency_key r' = r_idempotency_key r \<and> r_request_hash r' = r_request_hash r \<and>
     r_input_payload r' = r_input_payload r \<and> r_policy_snapshot r' = r_policy_snapshot r \<and>
     r_trace_context r' = r_trace_context r \<and> r_created_at r' = r_created_at r \<and>
     r_replay_of r' = r_replay_of r"

lemma same_request_core: "same_request (core r) (core r') = same_request r r'"
  by (simp add: same_request_def)

lemma life_step_same_request: "life_step b (r, as) (r', as') \<Longrightarrow> same_request r r'"
  using life_step_fixed [of b r as r' as'] by (simp add: same_request_def)

text \<open>
  C3. Every transaction of the services keeps each existing run, never changes what was requested
  (identity, payload, policy, hash, origin), and changes its status at most once, along the
  documented transition table or from QUEUED to RETRY_SCHEDULED when a claim is deferred.
\<close>

theorem transactions_follow_transitions:
  assumes "reachable_db cfg d" "svc_step cfg d d'" "get_row i d = Some r"
  shows "\<exists>r'. get_row i d' = Some r' \<and> same_request r r' \<and>
    (r_execution_status r' = r_execution_status r \<or>
     status_edge (r_execution_status r) (r_execution_status r'))"
proof -
  have "life_of i d = Some (core r, attempts_of i d)" using assms(3) by (simp add: life_of_def)
  then obtain l' where l': "life_of i d' = Some l'"
    and s: "l' = (core r, attempts_of i d) \<or> life_step (exec_max_attempts cfg) (core r, attempts_of i d) l'"
    using svc_step_life [OF assms(2) reachable_ok [OF assms(1)]] by blast
  obtain r' where r': "get_row i d' = Some r'" "l' = (core r', attempts_of i d')"
    using l' by (auto simp: life_of_def)
  have "same_request r r' \<and> (r_execution_status r' = r_execution_status r \<or>
      status_edge (r_execution_status r) (r_execution_status r'))"
    using s
  proof
    assume "l' = (core r, attempts_of i d)"
    then have "core r' = core r" using r'(2) by simp
    then show ?thesis by (metis core_fields(10) same_request_core same_request_def)
  next
    assume "life_step (exec_max_attempts cfg) (core r, attempts_of i d) l'"
    then show ?thesis
      unfolding r'(2) using life_step_edge life_step_same_request same_request_core by fastforce
  qed
  then show ?thesis using r'(1) by blast
qed

theorem transactions_follow_transitions_witness:
  "\<exists>r'. get_row 1 sample_running = Some r' \<and> same_request sample_run r' \<and> status_edge QUEUED (r_execution_status r')"
  using transactions_follow_transitions [OF reachable_queued step_claim [OF claim_sample] sample_rows(2)]
  by (auto simp: sample_rows)



end
