(* ===== verification/Table_Growth.thy ===== *)
theory Table_Growth
  imports Service_Properties
begin

text \<open>
  Relations between databases that every statement keeps are kept by every transaction of the
  services. \<open>statement_relation\<close> is the interface of the tables for such an argument: a
  reflexive and transitive relation, closed under each kind of statement. Its instances say how
  tables may grow.
\<close>

locale statement_relation =
  fixes rel :: "db \<Rightarrow> db \<Rightarrow> bool"
  assumes rel_refl: "rel d d"
    and rel_trans: "rel d e \<Longrightarrow> rel e f \<Longrightarrow> rel d f"
    and rel_put_run: "rel d (put_run r d)"
    and rel_put_attempt: "rel d (put_attempt a d)"
    and rel_put_evaluation: "rel d (put_evaluation v d)"
    and rel_set_quota: "rel d (set_quota q d)"
    and rel_insert_run: "insert_run r d = Inr d' \<Longrightarrow> rel d d'"
    and rel_insert_attempt: "insert_attempt a d = Inr d' \<Longrightarrow> rel d d'"
    and rel_insert_event: "insert_event ev d = Inr d' \<Longrightarrow> rel d d'"
    and rel_insert_outbox: "insert_outbox x d = Inr d' \<Longrightarrow> rel d d'"
    and rel_insert_evaluation: "insert_evaluation v d = Inr d' \<Longrightarrow> rel d d'"
begin

lemma after_put_run: "rel (put_run r d) e \<Longrightarrow> rel d e"
  using rel_put_run rel_trans by blast

lemma after_put_attempt: "rel (put_attempt a d) e \<Longrightarrow> rel d e"
  using rel_put_attempt rel_trans by blast

lemma after_put_evaluation: "rel (put_evaluation v d) e \<Longrightarrow> rel d e"
  using rel_put_evaluation rel_trans by blast

lemma after_insert:
  "insert_run r d = Inr d1 \<Longrightarrow> rel d1 e \<Longrightarrow> rel d e"
  "insert_attempt a d = Inr d1 \<Longrightarrow> rel d1 e \<Longrightarrow> rel d e"
  "insert_event ev d = Inr d1 \<Longrightarrow> rel d1 e \<Longrightarrow> rel d e"
  "insert_outbox x d = Inr d1 \<Longrightarrow> rel d1 e \<Longrightarrow> rel d e"
  "insert_evaluation v d = Inr d1 \<Longrightarrow> rel d1 e \<Longrightarrow> rel d e"
  using rel_insert_run rel_insert_attempt rel_insert_event rel_insert_outbox rel_insert_evaluation
    rel_trans by blast+

lemmas after_put = after_put_run after_put_attempt after_put_evaluation

lemma rel_routing_event: "routing_event c n i pol d = Inr d' \<Longrightarrow> rel d d'"
  by (auto simp: routing_event_def rel_refl intro: rel_insert_event split: option.splits)

lemma rel_submit_new: "submit_new c lm client prin key inp pol kind d = Inr (out, d') \<Longrightarrow> rel d d'"
  by (auto simp: submit_new_def Let_def) (meson after_insert rel_routing_event)

lemma rel_submit: "submit c lm client key inp pol prin kind d = Inr (out, d') \<Longrightarrow> rel d d'"
  by (auto simp: submit_def Let_def rel_refl dest!: rel_submit_new split: option.splits sum.splits exn.splits)

lemma rel_replay_new: "replay_new c lm client prin key src d = Inr (out, d') \<Longrightarrow> rel d d'"
  by (auto simp: replay_new_def Let_def) (meson after_insert rel_refl)

lemma rel_replay: "replay c lm client i key prin d = Inr (out, d') \<Longrightarrow> rel d d'"
  by (auto simp: replay_def Let_def rel_refl dest!: rel_replay_new split: option.splits sum.splits exn.splits if_splits)

lemma rel_evaluate: "evaluate sk c lm jt client i rules prin d = Inr (out, d') \<Longrightarrow> rel d d'"
  by (auto simp: evaluate_def Let_def) (meson after_insert after_put rel_refl)

lemma rel_finalize: "finalize_evaluation_job c n run d = Inr d' \<Longrightarrow> rel d d'"
  by (auto simp: finalize_evaluation_job_def Let_def rel_refl split: if_splits option.splits
      dest!: rel_insert_event intro: after_put)

lemma rel_claim_queued: "claim_queued c cfg run w d = Inr (cl, d') \<Longrightarrow> rel d d'"
  by (auto simp: claim_queued_def Let_def defer_run_def reject_run_def start_attempt_def rel_put_run
      dest!: rel_finalize split: if_splits sum.splits) (meson after_put after_insert rel_refl)+

lemma rel_claim: "claim c cfg i w d = Inr (cl, d') \<Longrightarrow> rel d d'"
  by (auto simp: claim_def rel_refl dest!: rel_claim_queued split: option.splits if_splits)

lemma rel_success: "complete_success c i aid w result d = Inr (ok, d') \<Longrightarrow> rel d d'"
  by (auto simp: complete_success_def Let_def rel_refl dest!: rel_finalize split: option.splits if_splits)
    (meson after_put after_insert)

lemma rel_fail_attempt: "fail_attempt c n run a e rec d = Inr d' \<Longrightarrow> rel d d'"
  by (auto simp: fail_attempt_def schedule_retry_or_finalize_def schedule_retry_def bury_run_def Let_def
      dest!: rel_finalize split: if_splits) (meson after_put after_insert rel_refl)+

lemma rel_failure: "complete_failure c i aid w e d = Inr (ok, d') \<Longrightarrow> rel d d'"
  by (auto simp: complete_failure_def rel_refl dest!: rel_fail_attempt split: option.splits if_splits)

lemma rel_recover_each: "recover_each c n ids d = Inr d' \<Longrightarrow> rel d d'"
proof (induction ids arbitrary: n d)
  case (Cons i ids)
  then show ?case by (auto split: option.splits dest!: rel_fail_attempt intro: rel_trans)
qed (simp add: rel_refl)

lemma rel_requeue_each: "requeue_each c n ids d = Inr d' \<Longrightarrow> rel d d'"
proof (induction ids arbitrary: n d)
  case (Cons i ids)
  then show ?case
    by (auto simp: requeue_run_def split: option.splits) (meson after_put after_insert)+
qed (simp add: rel_refl)

lemma rel_charge: "charge_provider_call c p t lm d = Inr d' \<Longrightarrow> rel d d'"
  by (auto simp: charge_provider_call_def Let_def) (meson rel_set_quota rel_trans)

lemma rel_step: "svc_step cfg d d' \<Longrightarrow> rel d d'"
  by (cases rule: svc_step.cases)
    (auto simp: recover_expired_leases_def schedule_due_retries_def
      intro: rel_submit rel_replay rel_evaluate rel_claim rel_success rel_failure rel_recover_each
        rel_requeue_each rel_charge)

lemma rel_path: "(svc_step cfg)\<^sup>*\<^sup>* d d' \<Longrightarrow> rel d d'"
  by (induction rule: rtranclp_induct) (auto intro: rel_refl rel_trans rel_step)

end

section \<open>The audit trail\<close>

text \<open>Events and outbox rows are only appended, under fresh identifiers.\<close>

definition trail_extends :: "db \<Rightarrow> db \<Rightarrow> bool" where
  "trail_extends d d' \<longleftrightarrow> (\<exists>es. events d' = events d @ es) \<and>
     (distinct (map e_id (events d)) \<longrightarrow> distinct (map e_id (events d')))"

interpretation trail: statement_relation trail_extends
proof
  show "trail_extends d e \<Longrightarrow> trail_extends e f \<Longrightarrow> trail_extends d f" for d e f
    by (auto simp: trail_extends_def)
  show "insert_event e d = Inr d' \<Longrightarrow> trail_extends d d'" for e d d'
    by (auto simp: trail_extends_def insert_event_def list_ex_iff split: if_splits) blast
qed (auto simp: trail_extends_def insert_run_def insert_attempt_def insert_outbox_def
    insert_evaluation_def set_quota_def Let_def split: if_splits option.splits)

definition outbox_extends :: "db \<Rightarrow> db \<Rightarrow> bool" where
  "outbox_extends d d' \<longleftrightarrow> (\<exists>xs. outbox d' = outbox d @ xs) \<and>
     (distinct (map o_id (outbox d)) \<longrightarrow> distinct (map o_id (outbox d')))"

interpretation mail: statement_relation outbox_extends
proof
  show "outbox_extends d e \<Longrightarrow> outbox_extends e f \<Longrightarrow> outbox_extends d f" for d e f
    by (auto simp: outbox_extends_def)
  show "insert_outbox e d = Inr d' \<Longrightarrow> outbox_extends d d'" for e d d'
    by (auto simp: outbox_extends_def insert_outbox_def list_ex_iff split: if_splits) blast
qed (auto simp: outbox_extends_def insert_run_def insert_attempt_def insert_event_def
    insert_evaluation_def set_quota_def Let_def split: if_splits option.splits)

definition evaluations_extend :: "db \<Rightarrow> db \<Rightarrow> bool" where
  "evaluations_extend d d' \<longleftrightarrow> (\<exists>ids. map v_id (evaluations d') = map v_id (evaluations d) @ ids) \<and>
     (distinct (map v_id (evaluations d)) \<longrightarrow> distinct (map v_id (evaluations d')))"

interpretation evals: statement_relation evaluations_extend
proof
  show "evaluations_extend d e \<Longrightarrow> evaluations_extend e f \<Longrightarrow> evaluations_extend d f" for d e f
    by (auto simp: evaluations_extend_def)
  show "insert_evaluation v d = Inr d' \<Longrightarrow> evaluations_extend d d'" for v d d'
    by (auto simp: evaluations_extend_def insert_evaluation_def list_ex_iff split: if_splits) blast
  show "evaluations_extend d (put_evaluation v d)" for d v
    by (simp add: evaluations_extend_def put_evaluation_def map_key_rewrite)
qed (auto simp: evaluations_extend_def insert_run_def insert_attempt_def insert_event_def
    insert_outbox_def set_quota_def Let_def split: if_splits option.splits)

lemma reachable_histories:
  assumes "reachable_db cfg d"
  shows "distinct (map e_id (events d))" "distinct (map o_id (outbox d))" "distinct (map v_id (evaluations d))"
    "distinct (map a_id (attempts d))"
proof -
  have path: "(svc_step cfg)\<^sup>*\<^sup>* empty_db d" using assms by (simp add: reachable_db_def)
  show "distinct (map e_id (events d))"
    using trail.rel_path [OF path] by (simp add: trail_extends_def empty_db_def)
  show "distinct (map o_id (outbox d))"
    using mail.rel_path [OF path] by (simp add: outbox_extends_def empty_db_def)
  show "distinct (map v_id (evaluations d))"
    using evals.rel_path [OF path] by (simp add: evaluations_extend_def empty_db_def)
  show "distinct (map a_id (attempts d))"
    using reachable_ok [OF assms] by (simp add: db_ok_def db_wf_def)
qed



end
