(* ===== verification/Py_Json_Parse.thy ===== *)
theory Py_Json_Parse
  imports Py_Json
begin

text \<open>
  \<open>json.loads\<close> on text, and that it reads back what \<open>json.dumps\<close> printed. A code point above 255 that
  an escape names is represented by \<open>CHR 0xFF\<close>; the depth limit of the interpreter's recursion is
  not part of the model. Every failure is a \<open>ValueError\<close>, as \<open>JSONDecodeError\<close> is one.
\<close>

section \<open>Scanning\<close>

definition json_error :: exn where
  "json_error = ValueError ''JSONDecodeError''"

definition is_json_space :: "char \<Rightarrow> bool" where
  "is_json_space c \<longleftrightarrow> c \<in> {CHR '' '', CHR 0x09, CHR 0x0a, CHR 0x0d}"

definition skip_space :: "string \<Rightarrow> string" where
  "skip_space s = dropWhile is_json_space s"

definition simple_escape :: "char \<Rightarrow> char option" where
  "simple_escape c =
    (if c = CHR 0x22 then Some (CHR 0x22)
     else if c = CHR 0x5c then Some (CHR 0x5c)
     else if c = CHR ''/'' then Some (CHR ''/'')
     else if c = CHR ''b'' then Some (CHR 0x08)
     else if c = CHR ''f'' then Some (CHR 0x0c)
     else if c = CHR ''n'' then Some (CHR 0x0a)
     else if c = CHR ''r'' then Some (CHR 0x0d)
     else if c = CHR ''t'' then Some (CHR 0x09)
     else None)"

fun hex_run :: "int \<Rightarrow> string \<Rightarrow> int option" where
  "hex_run acc [] = Some acc"
| "hex_run acc (c # cs) = (case hex_value c of None \<Rightarrow> None | Some v \<Rightarrow> hex_run (16 * acc + v) cs)"

definition code_point :: "int \<Rightarrow> char" where
  "code_point n = (if n < 256 then char_of (nat n) else CHR 0xFF)"

definition put_front :: "char \<Rightarrow> (string \<times> string) option \<Rightarrow> (string \<times> string) option" where
  "put_front c r = map_option (\<lambda>(s, rest). (c # s, rest)) r"

text \<open>The characters of a string literal up to the closing quote, and what follows it.\<close>

fun scan_str :: "string \<Rightarrow> (string \<times> string) option" where
  "scan_str [] = None"
| "scan_str (c # cs) =
    (if c = CHR 0x22 then Some ([], cs)
     else if c = CHR 0x5c then
       (case cs of
          [] \<Rightarrow> None
        | e # rest \<Rightarrow>
            if e = CHR ''u'' then
              (case rest of
                 h1 # h2 # h3 # h4 # rest' \<Rightarrow>
                   (case hex_run 0 [h1, h2, h3, h4] of
                      None \<Rightarrow> None
                    | Some n \<Rightarrow> put_front (code_point n) (scan_str rest'))
               | _ \<Rightarrow> None)
            else (case simple_escape e of None \<Rightarrow> None | Some x \<Rightarrow> put_front x (scan_str rest)))
     else if code c < 32 then None
     else put_front c (scan_str cs))"

section \<open>Numbers\<close>

text \<open>The decimal \<open>digits * 10 ^ exponent\<close> as the nearest float.\<close>

definition float_of_decimal :: "bool \<Rightarrow> nat \<Rightarrow> int \<Rightarrow> pyfloat" where
  "float_of_decimal neg digits e =
    (let x = of_nat digits * 10 powi e
     in if 2 ^ 1024 - 2 ^ 970 \<le> x then (if neg then NegInf else PosInf)
        else Fin (fl (if neg then - x else x)))"

definition scan_fraction :: "string \<Rightarrow> (string \<times> string) option" where
  "scan_fraction s = (case s of
     c # cs \<Rightarrow> if c = CHR ''.'' \<and> takeWhile is_ascii_digit cs \<noteq> []
               then Some (takeWhile is_ascii_digit cs, dropWhile is_ascii_digit cs) else None
   | [] \<Rightarrow> None)"

definition scan_exponent :: "string \<Rightarrow> (int \<times> string) option" where
  "scan_exponent s = (case s of
     c # cs \<Rightarrow>
       if c = CHR ''e'' \<or> c = CHR ''E''
       then (let (neg, ds) = (case cs of
                  x # xs \<Rightarrow> if x = CHR ''-'' then (True, xs) else if x = CHR ''+'' then (False, xs) else (False, cs)
                | [] \<Rightarrow> (False, []))
             in if takeWhile is_ascii_digit ds = [] then None
                else Some ((if neg then - 1 else 1) * int (digits_value (takeWhile is_ascii_digit ds)),
                           dropWhile is_ascii_digit ds))
       else None
   | [] \<Rightarrow> None)"

text \<open>Python refuses to read an integer of more than 4300 digits.\<close>

definition number_value :: "bool \<Rightarrow> string \<Rightarrow> string \<Rightarrow> (json \<times> string) res" where
  "number_value neg whole rest = (case (scan_fraction rest, scan_exponent rest) of
     (None, None) \<Rightarrow>
       if 4300 < length whole then Inl (ValueError ''Exceeds the limit (4300 digits) for integer string conversion'')
       else Inr (JInt (if neg then - int (digits_value whole) else int (digits_value whole)), rest)
   | (None, Some (e, rest')) \<Rightarrow> Inr (JFloat (float_of_decimal neg (digits_value whole) e), rest')
   | (Some (decimals, rest1), _) \<Rightarrow>
       let digits = digits_value (whole @ decimals); scale = int (length decimals)
       in case scan_exponent rest1 of
            None \<Rightarrow> Inr (JFloat (float_of_decimal neg digits (- scale)), rest1)
          | Some (e, rest2) \<Rightarrow> Inr (JFloat (float_of_decimal neg digits (e - scale)), rest2))"

definition whole_part :: "string \<Rightarrow> string" where
  "whole_part s = (case s of
     c # _ \<Rightarrow> if c = CHR ''0'' then ''0'' else takeWhile is_ascii_digit s
   | [] \<Rightarrow> [])"

definition scan_unsigned :: "bool \<Rightarrow> string \<Rightarrow> (json \<times> string) res" where
  "scan_unsigned neg s =
    (if whole_part s = [] then Inl json_error
     else number_value neg (whole_part s) (drop (length (whole_part s)) s))"

definition scan_number :: "string \<Rightarrow> (json \<times> string) res" where
  "scan_number s = (case s of
     c # cs \<Rightarrow> if c = CHR ''-'' then scan_unsigned True cs else scan_unsigned False s
   | [] \<Rightarrow> Inl json_error)"

section \<open>Values\<close>

definition constants :: "(string \<times> json) list" where
  "constants = [(''null'', JNull), (''true'', JBool True), (''false'', JBool False), (''NaN'', JFloat NaN),
     (''Infinity'', JFloat PosInf), (''-Infinity'', JFloat NegInf)]"

definition scan_scalar :: "string \<Rightarrow> (json \<times> string) res" where
  "scan_scalar s = (case find (\<lambda>(w, v). take (length w) s = w) constants of
     Some (w, v) \<Rightarrow> Inr (v, drop (length w) s)
   | None \<Rightarrow> scan_number s)"

text \<open>
  The first argument bounds the nesting and the number of items; the length of the text is enough,
  since every call below consumes a character.
\<close>

fun parse_value :: "nat \<Rightarrow> string \<Rightarrow> (json \<times> string) res"
  and parse_items :: "nat \<Rightarrow> json list \<Rightarrow> string \<Rightarrow> (json \<times> string) res"
  and parse_members :: "nat \<Rightarrow> dict \<Rightarrow> string \<Rightarrow> (json \<times> string) res" where
  "parse_value 0 s = Inl json_error"
| "parse_value (Suc n) s = (case s of
     [] \<Rightarrow> Inl json_error
   | c # cs \<Rightarrow>
       if c = CHR 0x22 then
         (case scan_str cs of None \<Rightarrow> Inl json_error | Some (t, rest) \<Rightarrow> Inr (JStr t, rest))
       else if c = CHR ''['' then
         (case skip_space cs of
            [] \<Rightarrow> Inl json_error
          | x # rest \<Rightarrow> if x = CHR '']'' then Inr (JList [], rest) else parse_items n [] (x # rest))
       else if c = CHR ''{'' then
         (case skip_space cs of
            [] \<Rightarrow> Inl json_error
          | x # rest \<Rightarrow> if x = CHR ''}'' then Inr (JDict [], rest) else parse_members n [] (x # rest))
       else scan_scalar (c # cs))"
| "parse_items 0 acc s = Inl json_error"
| "parse_items (Suc n) acc s = res_bind (parse_value n s) (\<lambda>(v, rest). case skip_space rest of
     [] \<Rightarrow> Inl json_error
   | x # rest' \<Rightarrow>
       if x = CHR '']'' then Inr (JList (acc @ [v]), rest')
       else if x = CHR '','' then parse_items n (acc @ [v]) (skip_space rest')
       else Inl json_error)"
| "parse_members 0 acc s = Inl json_error"
| "parse_members (Suc n) acc s = (case s of
     [] \<Rightarrow> Inl json_error
   | q # cs \<Rightarrow>
       if q \<noteq> CHR 0x22 then Inl json_error
       else case scan_str cs of
         None \<Rightarrow> Inl json_error
       | Some (k, r1) \<Rightarrow> (case skip_space r1 of
           [] \<Rightarrow> Inl json_error
         | colon # r2 \<Rightarrow>
             if colon \<noteq> CHR '':'' then Inl json_error
             else res_bind (parse_value n (skip_space r2)) (\<lambda>(v, r3). case skip_space r3 of
               [] \<Rightarrow> Inl json_error
             | x # r4 \<Rightarrow>
                 if x = CHR ''}'' then Inr (JDict (dset k v acc), r4)
                 else if x = CHR '','' then parse_members n (dset k v acc) (skip_space r4)
                 else Inl json_error)))"

definition loads :: "string \<Rightarrow> json res" where
  "loads s = res_bind (parse_value (length s + 1) (skip_space s)) (\<lambda>(v, rest).
     if skip_space rest = [] then Inr v else Inl json_error)"

declare scan_str.simps(2) [simp del] parse_value.simps(2) [simp del] parse_items.simps(2) [simp del]
  parse_members.simps(2) [simp del]

section \<open>Reading back strings\<close>

lemma hex_run_append: "hex_run acc (s @ [c]) =
    (case hex_run acc s of None \<Rightarrow> None | Some n \<Rightarrow> map_option (\<lambda>v. 16 * n + v) (hex_value c))"
  by (induction s arbitrary: acc) (auto split: option.splits)

lemma hex_run_fixed: "0 \<le> n \<Longrightarrow> n < 16 ^ k \<Longrightarrow> hex_run 0 (hex_fixed k n) = Some n"
proof (induction k arbitrary: n)
  case (Suc k)
  then have "hex_run 0 (hex_fixed k (n div 16)) = Some (n div 16)" by simp
  then show ?case using Suc.prems by (simp add: hex_run_append)
qed simp

lemma scan_str_escape: "scan_str (escape_char a c @ t) = put_front c (scan_str t)"
proof (cases "code c < 32 \<or> a \<and> 126 < code c")
  case True
  show ?thesis
  proof (cases "escape_char a c = CHR 0x5c # CHR ''u'' # hex_fixed 4 (int (code c))")
    case True
    obtain h1 h2 h3 h4 where h: "hex_fixed 4 (int (code c)) = [h1, h2, h3, h4]"
      by (simp add: numeral_eq_Suc)
    have "hex_run 0 (hex_fixed 4 (int (code c))) = Some (int (code c))"
      using code_less [of c] by (intro hex_run_fixed) (simp_all del: code_less)
    moreover have "code_point (int (code c)) = c" by (simp add: code_point_def code_def)
    ultimately show ?thesis unfolding True h by (simp add: scan_str.simps(2))
  next
    case False
    then show ?thesis using True
      by (auto simp: escape_char_def scan_str.simps(2) simple_escape_def split: if_splits)
  qed
next
  case False
  then show ?thesis
    by (auto simp: escape_char_def scan_str.simps(2) simple_escape_def split: if_splits)
qed

lemma scan_str_body: "scan_str (concat (map (escape_char a) s) @ CHR 0x22 # t) = Some (s, t)"
  by (induction s) (simp_all add: scan_str_escape put_front_def scan_str.simps(2))

section \<open>Reading back integers\<close>

lemma digit_char_code: "d < 10 \<Longrightarrow> code (digit_char d) = 48 + d"
  by (simp add: digit_char_def code_def)

lemma digit_char_0: "digit_char 0 = CHR ''0''"
  by code_simp

lemma digit_char_zero: "d < 10 \<Longrightarrow> digit_char d = CHR ''0'' \<longleftrightarrow> d = 0"
proof
  assume "d < 10" "digit_char d = CHR ''0''"
  then have "code (CHR ''0'') = 48 + d" using digit_char_code by metis
  then show "d = 0" by (simp add: code_def)
qed (simp add: digit_char_0)

lemma digit_char_is_digit: "d < 10 \<Longrightarrow> is_ascii_digit (digit_char d)"
  by (simp add: is_ascii_digit_def digit_char_code)

lemma digits_value_snoc: "digits_value (s @ [c]) = 10 * digits_value s + (code c - 48)"
  by (simp add: digits_value_def)

lemma show_digits_facts:
  assumes "0 \<le> n"
  shows "show_digits n \<noteq> []" "list_all is_ascii_digit (show_digits n)" "digits_value (show_digits n) = nat n"
    "hd (show_digits n) = CHR ''0'' \<Longrightarrow> n = 0"
proof -
  have "show_digits n \<noteq> [] \<and> list_all is_ascii_digit (show_digits n) \<and> digits_value (show_digits n) = nat n \<and>
    (hd (show_digits n) = CHR ''0'' \<longrightarrow> n = 0)"
    using assms
  proof (induction n rule: show_digits.induct)
    case (1 n)
    show ?case
    proof (cases "n < 10")
      case True
      then show ?thesis
        using 1(2) by (auto simp: show_digits.simps [of n] digit_char_is_digit digits_value_def digit_char_code
            digit_char_zero)
    next
      case False
      then have ih: "show_digits (n div 10) \<noteq> [] \<and> list_all is_ascii_digit (show_digits (n div 10)) \<and>
          digits_value (show_digits (n div 10)) = nat (n div 10) \<and>
          (hd (show_digits (n div 10)) = CHR ''0'' \<longrightarrow> n div 10 = 0)"
        using 1 by simp
      have "10 * nat (n div 10) + nat (n mod 10) = nat n"
        using False by (simp add: nat_div_distrib nat_mod_distrib)
      moreover have "0 < n div 10" using False by (simp add: pos_imp_zdiv_pos_iff)
      ultimately show ?thesis
        using False ih
        by (auto simp: show_digits.simps [of n] digits_value_snoc digit_char_code digit_char_is_digit)
    qed
  qed
  then show "show_digits n \<noteq> []" "list_all is_ascii_digit (show_digits n)" "digits_value (show_digits n) = nat n"
    "hd (show_digits n) = CHR ''0'' \<Longrightarrow> n = 0" by auto
qed

text \<open>What may follow a printed value.\<close>

definition stops :: "string \<Rightarrow> bool" where
  "stops rest \<longleftrightarrow> rest = [] \<or> hd rest \<in> {CHR '','', CHR '']'', CHR ''}''}"

lemma takeWhile_stops: "stops rest \<Longrightarrow> list_all is_ascii_digit ds \<Longrightarrow> takeWhile is_ascii_digit (ds @ rest) = ds"
proof -
  assume "stops rest" "list_all is_ascii_digit ds"
  then have "takeWhile is_ascii_digit rest = []"
    by (cases rest) (auto simp: stops_def is_ascii_digit_def code_def)
  then show ?thesis
    using \<open>list_all is_ascii_digit ds\<close> by (simp add: list_all_iff takeWhile_append2)
qed

lemma scan_tail: "stops rest \<Longrightarrow> scan_fraction rest = None \<and> scan_exponent rest = None"
  by (cases rest) (auto simp: stops_def scan_fraction_def scan_exponent_def)

lemma scan_unsigned_digits:
  assumes "0 \<le> n" "stops rest" "length (show_digits n) \<le> 4300"
  shows "scan_unsigned neg (show_digits n @ rest) = Inr (JInt (if neg then - n else n), rest)"
proof -
  note f = show_digits_facts [OF assms(1)]
  obtain c cs where c: "show_digits n = c # cs" using f(1) by (cases "show_digits n") auto
  have whole: "whole_part (show_digits n @ rest) = show_digits n"
  proof (cases "c = CHR ''0''")
    case True
    then have "n = 0" using f(4) c by simp
    then show ?thesis by (simp add: whole_part_def show_digits.simps digit_char_0)
  next
    case False
    then show ?thesis using takeWhile_stops [OF assms(2) f(2)] c by (simp add: whole_part_def)
  qed
  show ?thesis
    using scan_tail [OF assms(2)] assms(1,3) f(1,3) by (simp add: scan_unsigned_def whole number_value_def)
qed

lemma scan_number_int:
  assumes "stops rest" "length (show_int i) \<le> 4300"
  shows "scan_number (show_int i @ rest) = Inr (JInt i, rest)"
proof (cases "i < 0")
  case True
  then show ?thesis using scan_unsigned_digits [of "- i" rest True] assms by (simp add: show_int_def scan_number_def)
next
  case False
  then obtain c cs where c: "show_digits i = c # cs" using show_digits_facts(1) [of i] by (cases "show_digits i") auto
  then have "is_ascii_digit c" using show_digits_facts(2) [of i] False by simp
  then have "c \<noteq> CHR ''-''" by (auto simp: is_ascii_digit_def code_def)
  then show ?thesis
    using scan_unsigned_digits [of i rest False] assms False c by (simp add: show_int_def scan_number_def)
qed

section \<open>Reading back values\<close>

text \<open>A printed value is read back with its dictionaries in the order they were written.\<close>

function ordered :: "bool \<Rightarrow> json \<Rightarrow> json" where
  "ordered so JNull = JNull"
| "ordered so (JBool b) = JBool b"
| "ordered so (JInt i) = JInt i"
| "ordered so (JFloat f) = JFloat f"
| "ordered so (JStr s) = JStr s"
| "ordered so (JList xs) = JList (map (ordered so) xs)"
| "ordered so (JDict d) = JDict (map (\<lambda>kv. (fst kv, ordered so (snd kv))) (order_keys so d))"
  by pat_completeness auto
termination
  by (relation "measure (\<lambda>(_, v). size v)") (auto simp: size_in_list dest!: size_in_dict)

abbreviation sort_keys :: "json \<Rightarrow> json" where
  "sort_keys \<equiv> ordered True"

lemma ordered_kept [simp]: "ordered False v = v"
proof (induction "False" v rule: ordered.induct)
  case (6 xs)
  then show ?case by (simp add: map_idI)
next
  case (7 d)
  have "map (\<lambda>kv. (fst kv, ordered False (snd kv))) d = d" using 7 by (intro map_idI) (auto simp: order_keys_def)
  then show ?case by (simp add: order_keys_def)
qed simp_all

text \<open>Values without floats and without integers of more than 4300 digits, keys distinct.\<close>

inductive plain :: "json \<Rightarrow> bool" where
  plain_null: "plain JNull"
| plain_bool: "plain (JBool b)"
| plain_int: "length (show_int i) \<le> 4300 \<Longrightarrow> plain (JInt i)"
| plain_str: "plain (JStr s)"
| plain_list: "(\<And>x. x \<in> set xs \<Longrightarrow> plain x) \<Longrightarrow> plain (JList xs)"
| plain_dict: "distinct (map fst d) \<Longrightarrow> (\<And>kv. kv \<in> set d \<Longrightarrow> plain (snd kv)) \<Longrightarrow> plain (JDict d)"

lemma join_Cons: "join sep (p # ps) = p @ (if ps = [] then [] else sep @ join sep ps)"
  by (cases ps) (simp_all add: join_def)

lemma show_int_hd: "show_int i \<noteq> [] \<and> (hd (show_int i) = CHR ''-'' \<and> i < 0 \<or> is_ascii_digit (hd (show_int i)))"
proof (cases "i < 0")
  case False
  then have "show_digits i \<noteq> []" "list_all is_ascii_digit (show_digits i)" using show_digits_facts [of i] by auto
  then show ?thesis using False by (cases "show_digits i") (auto simp: show_int_def)
qed (simp add: show_int_def)

text \<open>The first character of a printed value decides how it is read.\<close>

lemma dumps_hd:
  assumes "plain v"
  shows "json_dump so a v \<noteq> [] \<and> \<not> is_json_space (hd (json_dump so a v)) \<and> hd (json_dump so a v) \<notin> {CHR '']'', CHR ''}''}"
  using assms
proof (cases rule: plain.cases)
  case (plain_int i)
  have "is_ascii_digit c \<Longrightarrow> \<not> is_json_space c \<and> c \<notin> {CHR '']'', CHR ''}''}" for c
    by (auto simp: is_ascii_digit_def is_json_space_def code_def)
  then show ?thesis using plain_int show_int_hd [of i] by (auto simp: is_json_space_def)
qed (auto simp: is_json_space_def dump_str_def json_dump.simps)

lemma skip_space_id: "s \<noteq> [] \<Longrightarrow> \<not> is_json_space (hd s) \<Longrightarrow> skip_space s = s"
  by (cases s) (simp_all add: skip_space_def)

lemma skip_dumps: "plain v \<Longrightarrow> skip_space (json_dump so a v @ rest) = json_dump so a v @ rest"
  using dumps_hd [of v so a] by (intro skip_space_id) auto

definition read_again :: "bool \<Rightarrow> bool \<Rightarrow> json \<Rightarrow> bool" where
  "read_again so a v \<longleftrightarrow> (\<forall>n rest. length (json_dump so a v) \<le> n \<longrightarrow> stops rest \<longrightarrow>
     parse_value n (json_dump so a v @ rest) = Inr (ordered so v, rest))"

lemma skip_punct [simp]:
  "skip_space (CHR '','' # t) = CHR '','' # t" "skip_space (CHR '']'' # t) = CHR '']'' # t"
  "skip_space (CHR ''}'' # t) = CHR ''}'' # t" "skip_space (CHR '':'' # t) = CHR '':'' # t"
  "skip_space (CHR 0x22 # t) = CHR 0x22 # t"
  by (simp_all add: skip_space_def is_json_space_def)

lemma parse_items_join:
  assumes "\<And>x. x \<in> set xs \<Longrightarrow> plain x \<and> read_again so a x" "xs \<noteq> []"
    and "length (join '','' (map (json_dump so a) xs)) < n"
  shows "parse_items n acc (join '','' (map (json_dump so a) xs) @ CHR '']'' # rest)
    = Inr (JList (acc @ map (ordered so) xs), rest)"
  using assms
proof (induction xs arbitrary: n acc)
  case (Cons x xs)
  then obtain m where m: "n = Suc m" by (cases n) auto
  have x: "plain x" "read_again so a x" using Cons.prems(1) by auto
  show ?case
  proof (cases "xs = []")
    case True
    then have "parse_value m (json_dump so a x @ CHR '']'' # rest) = Inr (ordered so x, CHR '']'' # rest)"
      using x(2) Cons.prems(3) m by (simp add: read_again_def join_Cons stops_def)
    then show ?thesis using True m by (simp add: join_Cons parse_items.simps(2))
  next
    case False
    let ?tail = "join '','' (map (json_dump so a) xs) @ CHR '']'' # rest"
    have "parse_value m (json_dump so a x @ CHR '','' # ?tail) = Inr (ordered so x, CHR '','' # ?tail)"
      using x(2) Cons.prems(3) m False by (simp add: read_again_def join_Cons stops_def)
    moreover have "skip_space ?tail = ?tail"
      using False Cons.prems(1) dumps_hd [of "hd xs" so a] by (cases xs) (auto simp: join_Cons intro!: skip_space_id)
    moreover have "parse_items m (acc @ [ordered so x]) ?tail = Inr (JList (acc @ map (ordered so) (x # xs)), rest)"
      using Cons.IH [of m "acc @ [ordered so x]"] Cons.prems False m by (simp add: join_Cons)
    ultimately show ?thesis using False m by (simp add: join_Cons parse_items.simps(2))
  qed
qed simp

lemma distinct_order_keys: "distinct (map fst d) \<Longrightarrow> distinct (map fst (order_keys so d))"
  by (simp add: order_keys_def) (metis distinct_map distinct_sort inj_on_cong set_sort)

lemma dset_fresh: "k \<notin> fst ` set d \<Longrightarrow> dset k v d = d @ [(k, v)]"
  unfolding dset_def by (induction d) auto

lemma sort_key_map: "sort_key f (map g xs) = map g (sort_key (\<lambda>x. f (g x)) xs)"
proof (induction xs)
  case (Cons x xs)
  have "map g (insort_key (\<lambda>x. f (g x)) y ys) = insort_key f (g y) (map g ys)" for y ys
    by (induction ys) auto
  then show ?case using Cons by simp
qed simp

definition print_item :: "bool \<Rightarrow> bool \<Rightarrow> string \<times> json \<Rightarrow> string" where
  "print_item so a kv = dump_str a (fst kv) @ '':'' @ json_dump so a (snd kv)"

lemma dumps_dict: "json_dump so a (JDict d) = CHR ''{'' # join '','' (map (print_item so a) (order_keys so d)) @ ''}''"
  by (simp add: json_dump.simps order_keys_def sort_key_map print_item_def [abs_def] comp_def)

lemma scan_item: "scan_str (tl (print_item so a kv @ t)) = Some (fst kv, CHR '':'' # json_dump so a (snd kv) @ t)"
  by (simp add: print_item_def dump_str_def scan_str_body)

lemma hd_item: "print_item so a kv = CHR 0x22 # tl (print_item so a kv)" "print_item so a kv \<noteq> []"
  by (simp_all add: print_item_def dump_str_def)

lemma length_item: "length (json_dump so a (snd kv)) < length (print_item so a kv)"
  by (simp add: print_item_def dump_str_def)

lemma parse_members_join:
  assumes "\<And>kv. kv \<in> set d \<Longrightarrow> plain (snd kv) \<and> read_again so a (snd kv)" "d \<noteq> []"
    and "length (join '','' (map (print_item so a) d)) < n"
    and "distinct (map fst (acc @ d))"
  shows "parse_members n acc (join '','' (map (print_item so a) d) @ CHR ''}'' # rest)
    = Inr (JDict (acc @ map (\<lambda>kv. (fst kv, ordered so (snd kv))) d), rest)"
  using assms
proof (induction d arbitrary: n acc)
  case (Cons kv d)
  then obtain m where m: "n = Suc m" by (cases n) auto
  have v: "plain (snd kv)" "read_again so a (snd kv)" using Cons.prems(1) by auto
  let ?new = "acc @ [(fst kv, ordered so (snd kv))]"
  have new: "dset (fst kv) (ordered so (snd kv)) acc = ?new" using Cons.prems(4) by (intro dset_fresh) auto
  let ?tail = "(if d = [] then [] else '','' @ join '','' (map (print_item so a) d)) @ CHR ''}'' # rest"
  have shape: "join '','' (map (print_item so a) (kv # d)) @ CHR ''}'' # rest = CHR 0x22 # tl (print_item so a kv @ ?tail)"
    using hd_item [of so a kv] by (simp add: join_Cons)
  have len: "length (json_dump so a (snd kv)) \<le> m"
    using length_item [of so a kv] Cons.prems(3) m by (simp add: join_Cons)
  have stop: "stops ?tail" by (simp add: stops_def)
  have val: "parse_value m (skip_space (json_dump so a (snd kv) @ ?tail)) = Inr (ordered so (snd kv), ?tail)"
    using v len stop unfolding skip_dumps [OF v(1)] by (simp add: read_again_def)
  show ?case
  proof (cases "d = []")
    case True
    then show ?thesis
      unfolding shape m parse_members.simps(2) using val scan_item [of so a kv ?tail] new by simp
  next
    case False
    then have skip: "skip_space (join '','' (map (print_item so a) d) @ CHR ''}'' # rest) = join '','' (map (print_item so a) d) @ CHR ''}'' # rest"
      by (cases d) (simp_all add: join_Cons print_item_def dump_str_def)
    have "parse_members m ?new (join '','' (map (print_item so a) d) @ CHR ''}'' # rest)
      = Inr (JDict (acc @ map (\<lambda>kv. (fst kv, ordered so (snd kv))) (kv # d)), rest)"
      using Cons.IH [of m ?new] Cons.prems False m by (simp add: join_Cons)
    then show ?thesis
      unfolding shape m parse_members.simps(2) using False val scan_item [of so a kv ?tail] new skip by simp
  qed
qed simp

lemma parse_scalar:
  assumes "c \<notin> {CHR 0x22, CHR ''['', CHR ''{''}" "0 < n"
  shows "parse_value n (c # cs) = scan_scalar (c # cs)"
  using assms by (cases n) (simp_all add: parse_value.simps(2))

lemma scan_scalar_int:
  assumes "stops rest" "length (show_int i) \<le> 4300"
  shows "scan_scalar (show_int i @ rest) = Inr (JInt i, rest)"
proof -
  have dig: "c \<noteq> CHR ''n'' \<and> c \<noteq> CHR ''t'' \<and> c \<noteq> CHR ''f'' \<and> c \<noteq> CHR ''N'' \<and> c \<noteq> CHR ''I'' \<and> c \<noteq> CHR ''-''"
    if "is_ascii_digit c" for c
    using that by (auto simp: is_ascii_digit_def code_def)
  obtain c cs where c: "show_digits \<bar>i\<bar> = c # cs" "is_ascii_digit c"
    using show_digits_facts(1,2) [of "\<bar>i\<bar>"] by (cases "show_digits \<bar>i\<bar>") auto
  have "find (\<lambda>(w, v). take (length w) (show_int i @ rest) = w) constants = None"
    using c dig [OF c(2)] by (cases "i < 0") (simp_all add: show_int_def constants_def abs_if)
  then show ?thesis using scan_number_int [OF assms] by (simp add: scan_scalar_def)
qed

lemma read_again_plain: "plain v \<Longrightarrow> read_again so a v"
proof (induction rule: plain.induct)
  case plain_null
  then show ?case by (auto simp: read_again_def parse_scalar scan_scalar_def constants_def)
next
  case (plain_bool b)
  then show ?case by (auto simp: read_again_def parse_scalar scan_scalar_def constants_def)
next
  case (plain_int i)
  have "parse_value n (show_int i @ rest) = scan_scalar (show_int i @ rest)" if "length (show_int i) \<le> n" for n rest
  proof -
    obtain c cs where c: "show_int i = c # cs" "c = CHR ''-'' \<or> is_ascii_digit c"
      using show_int_hd [of i] by (cases "show_int i") auto
    then have "c \<notin> {CHR 0x22, CHR ''['', CHR ''{''}" by (auto simp: is_ascii_digit_def code_def)
    then show ?thesis using parse_scalar [of c n "cs @ rest"] that c(1) by simp
  qed
  then show ?case using plain_int scan_scalar_int by (simp add: read_again_def)
next
  case (plain_str s)
  show ?case
    unfolding read_again_def
  proof (intro allI impI)
    fix n rest assume "length (json_dump so a (JStr s)) \<le> n"
    then obtain m where "n = Suc m" by (cases n) (auto simp: dump_str_def)
    then show "parse_value n (json_dump so a (JStr s) @ rest) = Inr (ordered so (JStr s), rest)"
      by (simp add: dump_str_def parse_value.simps(2) scan_str_body)
  qed
next
  case (plain_list xs)
  show ?case
    unfolding read_again_def
  proof (intro allI impI)
    fix n rest assume len: "length (json_dump so a (JList xs)) \<le> n"
    then obtain m where m: "n = Suc m" by (cases n) (auto simp: json_dump.simps)
    show "parse_value n (json_dump so a (JList xs) @ rest) = Inr (ordered so (JList xs), rest)"
    proof (cases "xs = []")
      case True
      then show ?thesis by (simp add: m json_dump.simps parse_value.simps(2) join_def)
    next
      case False
      then obtain x ys where xs: "xs = x # ys" by (cases xs) auto
      let ?text = "join '','' (map (json_dump so a) xs) @ CHR '']'' # rest"
      have hd: "?text \<noteq> []" "\<not> is_json_space (hd ?text)" "hd ?text \<noteq> CHR '']''"
        using dumps_hd [of x so a] plain_list(1) xs by (auto simp: join_Cons)
      have "parse_items m [] ?text = Inr (JList ([] @ map (ordered so) xs), rest)"
        using plain_list False len m by (intro parse_items_join) (auto simp: json_dump.simps)
      then show ?thesis
        using hd skip_space_id [OF hd(1,2)]
        by (cases ?text) (simp_all add: m json_dump.simps parse_value.simps(2))
    qed
  qed
next
  case (plain_dict d)
  show ?case
    unfolding read_again_def
  proof (intro allI impI)
    fix n rest assume len: "length (json_dump so a (JDict d)) \<le> n"
    then obtain m where m: "n = Suc m" by (cases n) (auto simp: dumps_dict)
    let ?d = "order_keys so d"
    show "parse_value n (json_dump so a (JDict d) @ rest) = Inr (ordered so (JDict d), rest)"
    proof (cases "d = []")
      case True
      then show ?thesis by (simp add: m dumps_dict parse_value.simps(2) join_def)
    next
      case False
      have ne: "?d \<noteq> []" using False by (metis set_empty set_order_keys(1))
      then obtain kv ys where xs: "?d = kv # ys" by (cases ?d) auto
      let ?text = "join '','' (map (print_item so a) ?d) @ CHR ''}'' # rest"
      have hd: "?text = CHR 0x22 # tl ?text" using hd_item [of so a kv] xs by (simp add: join_Cons)
      have "distinct (map fst ?d)" using plain_dict(1) by (rule distinct_order_keys)
      then have "parse_members m [] ?text = Inr (JDict ([] @ map (\<lambda>kv. (fst kv, ordered so (snd kv))) ?d), rest)"
        using plain_dict ne len m by (intro parse_members_join) (auto simp: dumps_dict)
      moreover have "skip_space ?text = ?text" using skip_punct(5) [of "tl ?text"] hd by argo
      moreover have "json_dump so a (JDict d) @ rest = CHR ''{'' # ?text" by (simp add: dumps_dict)
      ultimately show ?thesis
        using hd by (cases ?text) (simp_all add: m parse_value.simps(2))
    qed
  qed
qed

lemma loads_dumps:
  assumes "plain v"
  shows "loads (json_dump so a v) = Inr (ordered so v)"
proof -
  have "parse_value (length (json_dump so a v) + 1) (json_dump so a v @ []) = Inr (ordered so v, [])"
    using read_again_plain [OF assms] by (simp add: read_again_def stops_def)
  then show ?thesis
    using skip_dumps [OF assms, of so a "[]"] by (simp add: loads_def skip_space_def [of "[]"])
qed

section \<open>Failures\<close>

lemma scan_scalar_error: "scan_scalar t = Inl e \<Longrightarrow> \<exists>m. e = ValueError m"
  unfolding scan_scalar_def scan_number_def scan_unsigned_def number_value_def Let_def json_error_def
  by (auto split: option.splits list.splits if_splits prod.splits)

lemma parse_error:
  "parse_value n t = Inl e \<longrightarrow> (\<exists>m. e = ValueError m)" "parse_items n acc t = Inl e \<longrightarrow> (\<exists>m. e = ValueError m)"
  "parse_members n dd t = Inl e \<longrightarrow> (\<exists>m. e = ValueError m)"
  by (induction n t and n acc t and n dd t rule: parse_value_parse_items_parse_members.induct)
    (auto simp: json_error_def parse_value.simps parse_items.simps parse_members.simps res_bind_def
      dest: scan_scalar_error split: list.splits if_splits option.splits sum.splits)

lemma loads_error: "loads t = Inl e \<Longrightarrow> \<exists>m. e = ValueError m"
  using parse_error(1) by (auto simp: loads_def json_error_def res_bind_def split: sum.splits if_splits)

lemma loads_ValueError: "loads t = Inl e \<Longrightarrow> is_ValueError e"
  by (auto dest: loads_error)

end
