(* ===== verification/Outbox_Dispatch.thy ===== *)
theory Outbox_Dispatch
  imports Table_Growth Py_Json_Parse
begin

text \<open>
  The outbox dispatcher and the RabbitMQ publisher (\<open>infrastructure/messaging/dispatcher.py\<close>,
  \<open>publisher.py\<close>). The broker is a third party: what it answers is an argument, and that a
  confirmed message is stored is a hypothesis about it.
\<close>

section \<open>Publisher\<close>

definition EXCHANGE_NAME :: string where "EXCHANGE_NAME = ''agent_runtime''"
definition QUEUE_NAME :: string where "QUEUE_NAME = ''agent_runtime.execution.v2''"
definition ROUTING_KEY :: string where "ROUTING_KEY = ''run.queued''"
definition DEAD_LETTER_EXCHANGE_NAME :: string where "DEAD_LETTER_EXCHANGE_NAME = ''agent_runtime.dlx''"
definition DEAD_LETTER_QUEUE_NAME :: string where "DEAD_LETTER_QUEUE_NAME = ''agent_runtime.dead_letter''"
definition DEAD_LETTER_ROUTING_KEY :: string where "DEAD_LETTER_ROUTING_KEY = ''run.dead_lettered''"
definition POISON_ROUTING_KEY :: string where "POISON_ROUTING_KEY = ''poison''"

record message =
  m_exchange :: string
  m_routing_key :: string
  m_body :: string
  m_correlation_id :: string
  m_message_id :: string

text \<open>The confirmation frame of a publication: none, an acknowledgement, or another frame.\<close>

datatype confirmation = NoFrame | Ack | OtherFrame

text \<open>
  What the broker does with one publication: whether connecting or declaring the topology raises,
  how \<open>exchange.publish\<close> ends, and whether the message is stored in its queue.
\<close>

record broker_io =
  b_connect :: "exn option"
  b_declare :: "exn option"
  b_send :: "confirmation res"
  b_stored :: bool

record publisher =
  pub_connected :: bool
  pub_exchanges :: "string list"

definition close_publisher :: "publisher \<Rightarrow> publisher" where
  "close_publisher p = \<lparr>pub_connected = False, pub_exchanges = []\<rparr>"

definition get_exchanges :: "broker_io \<Rightarrow> publisher \<Rightarrow> string list res \<times> publisher" where
  "get_exchanges io p =
    (if pub_exchanges p \<noteq> [] then (Inr (pub_exchanges p), p)
     else case b_connect io of
       Some e \<Rightarrow> (Inl e, p)
     | None \<Rightarrow> (case b_declare io of
         Some e \<Rightarrow> (Inl e, p\<lparr>pub_connected := True\<rparr>)
       | None \<Rightarrow> (let names = [EXCHANGE_NAME, DEAD_LETTER_EXCHANGE_NAME]
                 in (Inr names, p\<lparr>pub_connected := True, pub_exchanges := names\<rparr>))))"

definition exchange_named :: "string list \<Rightarrow> string \<Rightarrow> string res" where
  "exchange_named names n = (if n \<in> set names then Inr n else Inl (KeyError n))"

definition destination_for :: "broker_io \<Rightarrow> outbox_row \<Rightarrow> publisher \<Rightarrow> (string \<times> string) res \<times> publisher" where
  "destination_for io ev p = (case get_exchanges io p of
     (Inl e, p') \<Rightarrow> (Inl e, p')
   | (Inr names, p') \<Rightarrow>
       (if o_type ev = ''RUN_QUEUED''
        then res_bind (exchange_named names EXCHANGE_NAME) (\<lambda>x. Inr (x, ROUTING_KEY))
        else if o_type ev = ''RUN_DEAD_LETTERED''
        then res_bind (exchange_named names DEAD_LETTER_EXCHANGE_NAME) (\<lambda>x. Inr (x, DEAD_LETTER_ROUTING_KEY))
        else Inl (ValueError (''Unsupported outbox event type: '' @ o_type ev)), p'))"

definition event_trace_context :: "outbox_row \<Rightarrow> dict" where
  "event_trace_context ev = (case dget_or (o_payload ev) ''trace_context'' (JDict []) of
     JDict tc \<Rightarrow> sanitize_trace_context tc | _ \<Rightarrow> sanitize_trace_context [])"

definition message_payload :: "outbox_row \<Rightarrow> dict" where
  "message_payload ev =
    [(''event_id'', JStr (uuid_str (o_id ev))), (''run_id'', JStr (uuid_str (o_aggregate_id ev))),
     (''trace_context'', JDict (event_trace_context ev))]"

definition message_body :: "outbox_row \<Rightarrow> string" where
  "message_body ev = dumps True (JDict (message_payload ev))"

definition message_for :: "string \<Rightarrow> string \<Rightarrow> outbox_row \<Rightarrow> message" where
  "message_for exchange key ev =
    \<lparr>m_exchange = exchange, m_routing_key = key, m_body = message_body ev,
     m_correlation_id = uuid_str (o_aggregate_id ev), m_message_id = uuid_str (o_id ev)\<rparr>"

text \<open>The outcome, the publisher afterwards, and the message if the broker stored one.\<close>

definition publish :: "broker_io \<Rightarrow> outbox_row \<Rightarrow> publisher \<Rightarrow> unit res \<times> publisher \<times> message option" where
  "publish io ev p = (case destination_for io ev p of
     (Inl e, p') \<Rightarrow> (Inl e, p', None)
   | (Inr (exchange, key), p') \<Rightarrow>
       let sent = (if b_stored io then Some (message_for exchange key ev) else None)
       in case b_send io of
            Inl e \<Rightarrow> (Inl e, close_publisher p', sent)
          | Inr frame \<Rightarrow>
              (if frame \<noteq> NoFrame \<and> frame \<noteq> Ack then Inl PublishNotConfirmedError else Inr (), p', sent))"

section \<open>Dispatcher\<close>

record dispatch_result =
  found_event :: bool
  published :: bool

definition put_outbox :: "outbox_row \<Rightarrow> db \<Rightarrow> db" where
  "put_outbox x d = d\<lparr>outbox := rewrite (\<lambda>old. o_id old = o_id x) (\<lambda>_. x) (outbox d)\<rparr>"

text \<open>The oldest unpublished event that no other dispatcher has locked.\<close>

definition next_event :: "ctx \<Rightarrow> db \<Rightarrow> outbox_row option" where
  "next_event c d =
    (case sort_key o_created_at
       (filter (\<lambda>x. o_published_at x = None \<and> o_id x \<notin> set (c_locked c)) (outbox d)) of
       [] \<Rightarrow> None | x # _ \<Rightarrow> Some x)"

definition record_failure :: "ctx \<Rightarrow> outbox_row \<Rightarrow> exn \<Rightarrow> db \<Rightarrow> (dispatch_result \<times> db) res" where
  "record_failure c ev e d =
    res_bind (insert_event (new_event c 0 (o_aggregate_id ev) None ''OUTBOX_PUBLISH_FAILED''
        [(''event_id'', JStr (uuid_str (o_id ev))), (''error_type'', JStr (exn_name e))])
      (put_outbox (ev\<lparr>o_publish_attempts := o_publish_attempts ev + 1, o_last_error := Some (exn_name e)\<rparr>) d))
      (\<lambda>d. Inr (\<lparr>found_event = True, published = False\<rparr>, d))"

definition record_success :: "ctx \<Rightarrow> outbox_row \<Rightarrow> db \<Rightarrow> (dispatch_result \<times> db) res" where
  "record_success c ev d =
    res_bind (insert_event (new_event c 0 (o_aggregate_id ev) None ''OUTBOX_PUBLISHED''
        [(''event_id'', JStr (uuid_str (o_id ev)))])
      (put_outbox (ev\<lparr>o_publish_attempts := o_publish_attempts ev + 1, o_published_at := Some (c_now c),
         o_last_error := None\<rparr>) d))
      (\<lambda>d. Inr (\<lparr>found_event = True, published = True\<rparr>, d))"

definition dispatch_one ::
    "ctx \<Rightarrow> broker_io \<Rightarrow> publisher \<Rightarrow> db \<Rightarrow> (dispatch_result \<times> db) res \<times> publisher \<times> message option" where
  "dispatch_one c io p d = (case next_event c d of
     None \<Rightarrow> (Inr (\<lparr>found_event = False, published = False\<rparr>, d), p, None)
   | Some ev \<Rightarrow> (case publish io ev p of
       (Inl e, p', sent) \<Rightarrow> (record_failure c ev e d, p', sent)
     | (Inr _, p', sent) \<Rightarrow> (record_success c ev d, p', sent)))"

text \<open>
  At most one batch: one context and one broker answer for each turn of the loop. An exception that
  escapes a turn ends the loop; what earlier turns committed stays.
\<close>

fun dispatch_once ::
    "(ctx \<times> broker_io) list \<Rightarrow> publisher \<Rightarrow> db \<Rightarrow> nat res \<times> publisher \<times> db \<times> message list" where
  "dispatch_once [] p d = (Inr 0, p, d, [])"
| "dispatch_once ((c, io) # turns) p d = (case dispatch_one c io p d of
     (Inl e, p', sent) \<Rightarrow> (Inl e, p', d, case sent of None \<Rightarrow> [] | Some m \<Rightarrow> [m])
   | (Inr (r, d'), p', sent) \<Rightarrow>
       let stored = (case sent of None \<Rightarrow> [] | Some m \<Rightarrow> [m])
       in if \<not> found_event r \<or> \<not> published r then (Inr 0, p', d', stored)
          else case dispatch_once turns p' d' of
            (n, p'', d'', ms) \<Rightarrow> (res_bind n (\<lambda>k. Inr (k + 1)), p'', d'', stored @ ms))"

end
