(* ===== verification/Worker.thy ===== *)
theory Worker
  imports Outbox_Dispatch
begin

text \<open>
  The worker of \<open>infrastructure/messaging/worker.py\<close>: reading a message, handling one delivery against the
  execution service, and settling the message with the broker. The execution service the worker is
  constructed with is a record of operations; \<open>sql_store\<close> is the one of the runtime.
\<close>

section \<open>Messages\<close>

definition read_payload :: "string \<Rightarrow> dict res" where
  "read_payload body = (case loads body of
     Inl e \<Rightarrow> Inl (if e = json_error then ValueError ''Message body is not JSON'' else e)
   | Inr v \<Rightarrow> (case v of JDict p \<Rightarrow> Inr p | _ \<Rightarrow> Inl (ValueError ''Message body is not an object'')))"

definition run_id_from_message :: "string \<Rightarrow> uuid res" where
  "run_id_from_message body = res_bind (read_payload body) (\<lambda>p.
     case dget p ''run_id'' of
       Some (JStr s) \<Rightarrow> (case UUID s of
           Inr u \<Rightarrow> Inr u
         | Inl e \<Rightarrow> Inl (if is_ValueError e then ValueError ''Message run_id is invalid'' else e))
     | _ \<Rightarrow> Inl (ValueError ''Message does not contain a run_id''))"

definition trace_context_from_message :: "string \<Rightarrow> dict" where
  "trace_context_from_message body = (case read_payload body of
     Inl _ \<Rightarrow> []
   | Inr p \<Rightarrow> (case dget_or p ''trace_context'' (JDict []) of
       JDict tc \<Rightarrow> sanitize_trace_context
         (filter (\<lambda>kv. is_str (snd kv) \<and> fst kv \<in> {''traceparent'', ''tracestate''}) tc)
     | _ \<Rightarrow> []))"

section \<open>Handling a delivery\<close>

record exec_store =
  st_claim :: "ctx \<Rightarrow> uuid \<Rightarrow> string \<Rightarrow> db \<Rightarrow> (claim_result \<times> db) res"
  st_success :: "ctx \<Rightarrow> uuid \<Rightarrow> uuid \<Rightarrow> string \<Rightarrow> execution_result \<Rightarrow> db \<Rightarrow> (bool \<times> db) res"
  st_failure :: "ctx \<Rightarrow> uuid \<Rightarrow> uuid \<Rightarrow> string \<Rightarrow> string \<Rightarrow> db \<Rightarrow> (bool \<times> db) res"

definition sql_store :: "exec_config \<Rightarrow> exec_store" where
  "sql_store cfg = \<lparr>st_claim = (\<lambda>c. claim c cfg), st_success = complete_success, st_failure = complete_failure\<rparr>"

lemma sql_store_simps [simp]:
  "st_claim (sql_store cfg) c = claim c cfg" "st_success (sql_store cfg) = complete_success"
  "st_failure (sql_store cfg) = complete_failure"
  by (simp_all add: sql_store_def)

text \<open>
  The executor runs outside any transaction of the delivery: it ends with a result or an exception
  (a \<open>TimeoutError\<close> when \<open>wait_for\<close> gives up), and the database it leaves includes whatever other
  processes committed meanwhile.
\<close>

type_synonym executor = "string \<Rightarrow> dict \<Rightarrow> dict \<Rightarrow> db \<Rightarrow> execution_result res \<times> db"

datatype settlement = Acked | Nacked | Rejected | Unsettled

definition committed :: "('a \<times> db) res \<Rightarrow> db \<Rightarrow> 'a res \<times> db" where
  "committed r d = (case r of Inl e \<Rightarrow> (Inl e, d) | Inr (x, d') \<Rightarrow> (Inr x, d'))"

definition runtime_policy :: "claim_result \<Rightarrow> uuid \<Rightarrow> string \<Rightarrow> dict \<Rightarrow> dict" where
  "runtime_policy cl attempt_id worker pol = dmerge pol
     [(''_runtime_run_id'', JStr (uuid_str (cl_run_id cl))), (''_runtime_worker_id'', JStr worker),
      (''_runtime_attempt_id'', JStr (uuid_str attempt_id))]"

definition report_failure ::
    "exec_store \<Rightarrow> ctx \<Rightarrow> string \<Rightarrow> claim_result \<Rightarrow> uuid \<Rightarrow> exn \<Rightarrow> db \<Rightarrow> bool res \<times> db" where
  "report_failure store c worker cl attempt_id e d =
    committed (st_failure store c (cl_run_id cl) attempt_id worker (error_code_value (classify_exception e)) d) d"

text \<open>The body of the \<open>try\<close> block: the claimed policy is read, then the executor runs.\<close>

definition run_attempt ::
    "executor \<Rightarrow> string \<Rightarrow> claim_result \<Rightarrow> uuid \<Rightarrow> dict \<Rightarrow> dict \<Rightarrow> string \<Rightarrow> db \<Rightarrow> execution_result res \<times> db" where
  "run_attempt execute worker cl attempt_id inp pol prov d = (case from_snapshot pol of
     Inl e \<Rightarrow> (Inl e, d)
   | Inr _ \<Rightarrow> execute prov inp (runtime_policy cl attempt_id worker pol) d)"

definition execute_claim ::
    "exec_store \<Rightarrow> executor \<Rightarrow> ctx \<Rightarrow> string \<Rightarrow> claim_result \<Rightarrow> db \<Rightarrow> bool res \<times> db" where
  "execute_claim store execute c worker cl d =
    (case (cl_attempt_id cl, cl_input_payload cl, cl_policy_snapshot cl, cl_provider cl) of
       (Some attempt_id, Some inp, Some pol, Some prov) \<Rightarrow>
         (case run_attempt execute worker cl attempt_id inp pol prov d of
            (Inl e, d1) \<Rightarrow> report_failure store c worker cl attempt_id e d1
          | (Inr result, d1) \<Rightarrow>
              committed (st_success store c (cl_run_id cl) attempt_id worker result d1) d1)
     | _ \<Rightarrow> (Inl (RuntimeError ''Claimed run must include attempt and execution payload''), d))"

definition handle_run_delivery ::
    "exec_store \<Rightarrow> executor \<Rightarrow> ctx \<Rightarrow> ctx \<Rightarrow> string \<Rightarrow> uuid \<Rightarrow> db \<Rightarrow> settlement \<times> exn option \<times> db" where
  "handle_run_delivery store execute c c' worker i d = (case st_claim store c i worker d of
     Inl e \<Rightarrow> (Nacked, Some e, d)
   | Inr (cl, d1) \<Rightarrow>
       if cl_decision cl \<noteq> CLAIMED then (Acked, None, d1)
       else case execute_claim store execute c' worker cl d1 of
         (Inl e, d2) \<Rightarrow> (Nacked, Some e, d2)
       | (Inr persisted, d2) \<Rightarrow> (if persisted then Acked else Nacked, None, d2))"

definition handle_delivery ::
    "exec_store \<Rightarrow> executor \<Rightarrow> ctx \<Rightarrow> ctx \<Rightarrow> string \<Rightarrow> string \<Rightarrow> db \<Rightarrow> settlement \<times> exn option \<times> db" where
  "handle_delivery store execute c c' worker body d = (case run_id_from_message body of
     Inl e \<Rightarrow> if is_ValueError e then (Rejected, None, d) else (Unsettled, Some e, d)
   | Inr i \<Rightarrow> handle_run_delivery store execute c c' worker i d)"

section \<open>What the publisher writes the worker reads\<close>

lemma plain_sanitized: "plain (JDict (sanitize_trace_context tc))"
  by (auto simp: sanitize_trace_context_def intro!: plain.intros split: json.splits option.splits)

lemma event_trace_context_sanitized: "\<exists>tc. event_trace_context ev = sanitize_trace_context tc"
  unfolding event_trace_context_def by (auto split: json.splits)

lemma sanitized_sorted: "sort_keys (JDict (sanitize_trace_context tc)) = JDict (sanitize_trace_context tc)"
  by (auto simp: sanitize_trace_context_def split: json.splits option.splits)

lemma read_published: "read_payload (message_body ev) = Inr (message_payload ev)"
proof -
  obtain tc where tc: "event_trace_context ev = sanitize_trace_context tc"
    using event_trace_context_sanitized by blast
  have "plain (JDict (message_payload ev))"
    unfolding message_payload_def tc
    by (rule plain_dict) (auto intro: plain_sanitized plain_str)
  moreover have "sort_keys (JDict (message_payload ev)) = JDict (message_payload ev)"
    using sanitized_sorted [of tc] unfolding message_payload_def tc by simp
  ultimately show ?thesis
    by (simp only: read_payload_def message_body_def loads_dumps sum.case json.case)
qed

lemma strings_sanitized:
  "filter (\<lambda>kv. is_str (snd kv) \<and> fst kv \<in> {''traceparent'', ''tracestate''}) (sanitize_trace_context tc)
    = sanitize_trace_context tc"
  by (auto simp: sanitize_trace_context_def split: json.splits option.splits)

lemma published_run_id: "run_id_from_message (message_body ev) = Inr (o_aggregate_id ev)"
  unfolding run_id_from_message_def read_published
  by (simp add: message_payload_def dget_def UUID_uuid_str)

text \<open>
  C14. The worker reads exactly what the publisher wrote: from the body published for an outbox event
  it recovers the identifier of the run the event is about and the trace context the publisher
  sanitised, unchanged.
\<close>

theorem published_message_read_back:
  "run_id_from_message (message_body ev) = Inr (o_aggregate_id ev) \<and>
   trace_context_from_message (message_body ev) = event_trace_context ev"
proof -
  obtain tc where tc: "event_trace_context ev = sanitize_trace_context tc"
    using event_trace_context_sanitized by blast
  have "trace_context_from_message (message_body ev) = event_trace_context ev"
    unfolding trace_context_from_message_def read_published
    by (simp add: message_payload_def dget_or_def dget_def tc strings_sanitized [simplified] sanitize_twice)
  then show ?thesis using published_run_id by blast
qed

lemma run_id_ValueError: "run_id_from_message body = Inl e \<Longrightarrow> is_ValueError e"
  by (auto simp: run_id_from_message_def read_payload_def dest: loads_ValueError UUID_ValueError
      split: sum.splits if_splits json.splits option.splits)

section \<open>The store a worker relies on\<close>

text \<open>
  The contract between the worker and its execution service: every call is a transaction of the
  service, and a successful claim carries everything an execution needs.
\<close>

definition keeps_steps :: "(db \<Rightarrow> db \<Rightarrow> bool) \<Rightarrow> executor \<Rightarrow> bool" where
  "keeps_steps step execute \<longleftrightarrow> (\<forall>prov inp pol d r d'. execute prov inp pol d = (r, d') \<longrightarrow> step\<^sup>*\<^sup>* d d')"

locale execution_store =
  fixes store :: exec_store and step :: "db \<Rightarrow> db \<Rightarrow> bool"
  assumes claim_step: "st_claim store c i w d = Inr (cl, d') \<Longrightarrow> step d d'"
    and success_step: "st_success store c i aid w result d = Inr (ok, d') \<Longrightarrow> step d d'"
    and failure_step: "st_failure store c i aid w err d = Inr (ok, d') \<Longrightarrow> step d d'"
    and claimed_payload: "st_claim store c i w d = Inr (cl, d') \<Longrightarrow> cl_decision cl = CLAIMED \<Longrightarrow>
      cl_run_id cl = i \<and> (\<exists>aid inp pol prov. cl_attempt_id cl = Some aid \<and> cl_input_payload cl = Some inp \<and>
        cl_policy_snapshot cl = Some pol \<and> cl_provider cl = Some prov)"
begin

lemma report_failure_path: "report_failure store c w cl aid e d = (r, d') \<Longrightarrow> step\<^sup>*\<^sup>* d d'"
  by (auto simp: report_failure_def committed_def dest: failure_step split: sum.splits)

lemma run_attempt_path:
  "keeps_steps step execute \<Longrightarrow> run_attempt execute w cl aid inp pol prov d = (r, d') \<Longrightarrow> step\<^sup>*\<^sup>* d d'"
  by (auto simp: run_attempt_def keeps_steps_def split: sum.splits)

lemma execute_claim_path:
  assumes "keeps_steps step execute" "execute_claim store execute c w cl d = (r, d')"
  shows "step\<^sup>*\<^sup>* d d'"
proof (cases "(cl_attempt_id cl, cl_input_payload cl, cl_policy_snapshot cl, cl_provider cl)")
  case (fields aid inp pol prov)
  show ?thesis
  proof (cases aid; cases inp; cases pol; cases prov)
    fix aid' inp' pol' prov'
    assume some: "aid = Some aid'" "inp = Some inp'" "pol = Some pol'" "prov = Some prov'"
    obtain out d1 where att: "run_attempt execute w cl aid' inp' pol' prov' d = (out, d1)" by fastforce
    have "step\<^sup>*\<^sup>* d d1" using run_attempt_path [OF assms(1) att] .
    moreover have "step\<^sup>*\<^sup>* d1 d'"
      using assms(2) fields some att
      by (auto simp: execute_claim_def committed_def report_failure_path dest!: success_step
          split: sum.splits)
    ultimately show ?thesis by simp
  qed (use assms(2) fields in \<open>auto simp: execute_claim_def\<close>)
qed

lemma run_delivery_path:
  assumes "keeps_steps step execute" "handle_run_delivery store execute c c' w i d = (s, e, d')"
  shows "step\<^sup>*\<^sup>* d d'"
proof (cases "st_claim store c i w d")
  case (Inl ex)
  then show ?thesis using assms(2) by (simp add: handle_run_delivery_def)
next
  case (Inr p)
  obtain cl d1 where p: "p = (cl, d1)" by (cases p)
  then have one: "step d d1" using claim_step Inr by simp
  show ?thesis
  proof (cases "cl_decision cl = CLAIMED")
    case True
    obtain r d2 where x: "execute_claim store execute c' w cl d1 = (r, d2)" by fastforce
    then have "d' = d2" using assms(2) Inr p True by (auto simp: handle_run_delivery_def split: sum.splits)
    then show ?thesis using one execute_claim_path [OF assms(1) x] by simp
  qed (use assms(2) Inr p one in \<open>auto simp: handle_run_delivery_def\<close>)
qed

lemma claim_is_executable:
  assumes "st_claim store c i w d = Inr (cl, d1)" "cl_decision cl = CLAIMED"
  shows "\<exists>aid out d2. run_attempt execute w cl aid (the (cl_input_payload cl)) (the (cl_policy_snapshot cl))
      (the (cl_provider cl)) d1 = (out, d2) \<and> cl_attempt_id cl = Some aid \<and>
    execute_claim store execute c' w cl d1 = (case out of
      Inl e \<Rightarrow> committed (st_failure store c' i aid w (error_code_value (classify_exception e)) d2) d2
    | Inr result \<Rightarrow> committed (st_success store c' i aid w result d2) d2)"
proof -
  obtain aid inp pol prov where f: "cl_run_id cl = i" "cl_attempt_id cl = Some aid" "cl_input_payload cl = Some inp"
    "cl_policy_snapshot cl = Some pol" "cl_provider cl = Some prov" using claimed_payload [OF assms] by blast
  obtain out d2 where att: "run_attempt execute w cl aid inp pol prov d1 = (out, d2)" by fastforce
  then show ?thesis
    by (intro exI [of _ aid] exI [of _ out] exI [of _ d2])
      (auto simp: f execute_claim_def report_failure_def split: sum.splits)
qed

end

lemma start_claims:
  "start_attempt c lease run w p n d = Inr (cl, d') \<Longrightarrow> cl_run_id cl = r_id run \<and>
    (\<exists>aid inp pol prov. cl_attempt_id cl = Some aid \<and> cl_input_payload cl = Some inp \<and>
      cl_policy_snapshot cl = Some pol \<and> cl_provider cl = Some prov)"
  by (auto simp: start_attempt_def Let_def)

lemma claim_claims:
  assumes "claim c cfg i w d = Inr (cl, d')" "cl_decision cl = CLAIMED"
  shows "cl_run_id cl = i \<and> (\<exists>aid inp pol prov. cl_attempt_id cl = Some aid \<and> cl_input_payload cl = Some inp \<and>
    cl_policy_snapshot cl = Some pol \<and> cl_provider cl = Some prov)"
  using assms
  by (auto simp: claim_def claim_queued_def Let_def undecided_def defer_run_def reject_run_def
      dest!: start_claims get_row_SomeD split: option.splits if_splits sum.splits)

interpretation sql: execution_store "sql_store cfg" "svc_step cfg" for cfg
  by unfold_locales (auto simp: sql_store_def intro: step_claim step_success step_failure dest: claim_claims)

section \<open>Acknowledged work is durable\<close>

lemma row_of_core: "row_with r_id i (cores d) = Some k \<Longrightarrow> \<exists>r. get_row i d = Some r \<and> core r = k"
  by (auto simp: row_with_cores)

lemma success_row:
  assumes "complete_success c i aid w result d = Inr (True, d')" "db_wf d"
  shows "\<exists>r. get_row i d' = Some r \<and> r_execution_status r = SUCCEEDED \<and>
    r_result_payload r = Some (x_result_payload result)"
proof -
  obtain run a where run: "get_row i d = Some run" "owns_active_lease run w (c_now c)"
    and a: "row_with a_id aid (attempts d) = Some a" "a_run_id a = i" "a_finished_at a = None"
    using assms(1) by (auto simp: complete_success_def Let_def split: option.splits if_splits)
  let ?a = "a\<lparr>a_provider := x_provider result, a_usage := x_usage result, a_finished_at := Some (c_now c),
    a_outcome := Some ''SUCCEEDED'', a_latency_ms := Some (elapsed_ms (a_started_at a) (c_now c))\<rparr>"
  let ?run = "clear_lease (run\<lparr>r_execution_status := SUCCEEDED,
    r_result_payload := Some (x_result_payload result), r_completed_at := Some (c_now c),
    r_error_code := None, r_next_attempt_at := None\<rparr>)"
  obtain es where f: "finalize_evaluation_job c 1 ?run ((put_run ?run (put_attempt ?a d))\<lparr>events := es\<rparr>) = Inr d'"
    using assms(1) run a by (auto simp: complete_success_def Let_def dest!: insert_eventD)
  have "finishes a ?a" using a(3) by (simp add: finishes_def is_open_def outcome_ok_def)
  then have wf: "db_wf ((put_run ?run (put_attempt ?a d))\<lparr>events := es\<rparr>)"
    unfolding wf_upd using row_with_SomeD [OF a(1)] by (intro wf_finish [OF assms(2)]) auto
  have "r_id ?run = i" using get_row_SomeD [OF run(1)] by (simp add: clear_lease_def)
  then have "row_with r_id i (cores d') = Some (core ?run)"
    using finalize_same(1) [OF f wf] get_row_core [OF run(1)] by (simp add: cores_put_run row_with_put_core)
  then obtain r where r: "get_row i d' = Some r" "core r = core ?run" using row_of_core by blast
  have "r_execution_status r = r_execution_status (core r)" "r_result_payload r = r_result_payload (core r)" by simp_all
  then show ?thesis using r unfolding r(2) by (simp add: clear_lease_def)
qed

lemma failure_row:
  assumes "complete_failure c i aid w err d = Inr (True, d')" "db_wf d"
  shows "\<exists>r. get_row i d' = Some r \<and> r_execution_status r \<in> {RETRY_SCHEDULED, FAILED, DEAD_LETTERED} \<and>
    r_error_code r = Some err"
proof -
  obtain run a where run: "get_row i d = Some run" "owns_active_lease run w (c_now c)"
    and a: "row_with a_id aid (attempts d) = Some a" "a_run_id a = i" "a_finished_at a = None"
    and f: "fail_attempt c 0 run a err False d = Inr d'"
    using assms(1) by (auto simp: complete_failure_def split: option.splits if_splits)
  have mem: "a \<in> set (attempts d)" using row_with_SomeD [OF a(1)] by simp
  let ?a = "finish_failed_attempt a (c_now c) err"
  let ?run = "(clear_lease run)\<lparr>r_error_code := Some err\<rparr>"
  have id: "r_id run = i" using get_row_SomeD [OF run(1)] by simp
  obtain p where p: "from_snapshot (r_policy_snapshot run) = Inr p"
    using f by (auto simp: fail_attempt_def schedule_retry_or_finalize_def Let_def)
  have "\<exists>k. cores d' = put_core (core k) (cores d) \<and> r_id k = i \<and>
      r_execution_status k \<in> {RETRY_SCHEDULED, FAILED, DEAD_LETTERED} \<and> r_error_code k = Some err"
  proof (cases "a_retryable ?a = Some True \<and> a_number ?a < max_attempts p")
    case True
    then obtain t es where "d' = (put_run (?run\<lparr>r_execution_status := RETRY_SCHEDULED,
        r_next_attempt_at := Some t\<rparr>) (put_attempt ?a d))\<lparr>events := es\<rparr>"
      using f p by (auto simp: fail_attempt_def schedule_retry_or_finalize_def schedule_retry_def Let_def
          dest!: insert_eventD)
    then show ?thesis
      using id by (intro exI [of _ "?run\<lparr>r_execution_status := RETRY_SCHEDULED, r_next_attempt_at := Some t\<rparr>"])
        (simp add: cores_put_run clear_lease_def)
  next
    case False
    let ?run' = "?run\<lparr>r_next_attempt_at := None, r_completed_at := Some (c_now c),
      r_execution_status := (if a_retryable ?a = Some True then DEAD_LETTERED else FAILED)\<rparr>"
    have b: "bury_run c 0 ?run ?a err False p (put_attempt ?a d) = Inr d'"
      using f p False by (auto simp: fail_attempt_def schedule_retry_or_finalize_def Let_def split: if_splits)
    have "cores d' = put_core (core ?run') (cores d)"
      using bury_effect(1) [OF b wf_finish [OF assms(2) mem finishes_failed [OF a(3)]] refl] by simp
    then show ?thesis using id by (intro exI [of _ ?run']) (simp add: clear_lease_def)
  qed
  then obtain k where k: "cores d' = put_core (core k) (cores d)" "r_id k = i"
    "r_execution_status k \<in> {RETRY_SCHEDULED, FAILED, DEAD_LETTERED}" "r_error_code k = Some err" by blast
  then have "row_with r_id i (cores d') = Some (core k)"
    using get_row_core [OF run(1)] by (simp add: row_with_put_core)
  then obtain r where r: "get_row i d' = Some r" "core r = core k" using row_of_core by blast
  have "r_execution_status r = r_execution_status (core r)" "r_error_code r = r_error_code (core r)" by simp_all
  then show ?thesis using r k unfolding r(2) by simp
qed

text \<open>
  C7. A worker acknowledges an executed run only once the outcome of that execution is durable: when
  a claimed delivery ends acknowledged, the run is stored as SUCCEEDED with exactly the result the
  executor returned, or its failure is stored under the classified error code as a scheduled retry or
  a terminal failure. Nothing is raised.
\<close>

theorem acked_execution_is_durable:
  assumes "reachable_db cfg d" "keeps_steps (svc_step cfg) execute"
    and "handle_run_delivery (sql_store cfg) execute c c' w i d = (Acked, e, d')"
    and "claim c cfg i w d = Inr (cl, d1)" "cl_decision cl = CLAIMED"
  shows "e = None \<and> (\<exists>aid out d2 r. cl_attempt_id cl = Some aid \<and>
    run_attempt execute w cl aid (the (cl_input_payload cl)) (the (cl_policy_snapshot cl)) (the (cl_provider cl)) d1
      = (out, d2) \<and> get_row i d' = Some r \<and>
    (case out of
       Inr result \<Rightarrow> r_execution_status r = SUCCEEDED \<and> r_result_payload r = Some (x_result_payload result)
     | Inl ex \<Rightarrow> r_execution_status r \<in> {RETRY_SCHEDULED, FAILED, DEAD_LETTERED} \<and>
         r_error_code r = Some (error_code_value (classify_exception ex))))"
proof -
  have cl: "st_claim (sql_store cfg) c i w d = Inr (cl, d1)" using assms(4) by (simp add: sql_store_def)
  obtain aid out d2 where att: "run_attempt execute w cl aid (the (cl_input_payload cl)) (the (cl_policy_snapshot cl))
      (the (cl_provider cl)) d1 = (out, d2)" and aid: "cl_attempt_id cl = Some aid"
    and ex: "execute_claim (sql_store cfg) execute c' w cl d1 = (case out of
      Inl e \<Rightarrow> committed (st_failure (sql_store cfg) c' i aid w (error_code_value (classify_exception e)) d2) d2
    | Inr result \<Rightarrow> committed (st_success (sql_store cfg) c' i aid w result d2) d2)"
    using sql.claim_is_executable [OF cl assms(5), of execute] by blast
  have "(svc_step cfg)\<^sup>*\<^sup>* d d2"
    using step_claim [OF assms(4)] sql.run_attempt_path [OF assms(2) att] by simp
  then have wf: "db_wf d2" using reachable_ok [OF reachable_trans [OF assms(1)]] by (simp add: db_ok_def)
  show ?thesis
  proof (cases out)
    case (Inl er)
    then have "e = None" "complete_failure c' i aid w (error_code_value (classify_exception er)) d2 = Inr (True, d')"
      using assms(3,5) cl ex
      by (auto simp: handle_run_delivery_def committed_def sql_store_def split: sum.splits if_splits)
    then show ?thesis using failure_row [OF _ wf] Inl aid att by fastforce
  next
    case (Inr result)
    then have "e = None" "complete_success c' i aid w result d2 = Inr (True, d')"
      using assms(3,5) cl ex
      by (auto simp: handle_run_delivery_def committed_def sql_store_def split: sum.splits if_splits)
    then show ?thesis using success_row [OF _ wf] Inr aid att by fastforce
  qed
qed

definition sample_executor :: executor where
  "sample_executor prov inp pol d = (Inr sample_result, d)"

lemma delivery_sample:
  "handle_run_delivery (sql_store sample_cfg) sample_executor claim_ctx done_ctx ''worker-1'' 1 sample_queued
    = (Acked, None, sample_done)"
proof -
  have "fl 60 = 60" "fl 29 = 29" "fl 1 = 1" using fl_small_int [of 60] fl_small_int [of 29] fl_small_int [of 1] by simp_all
  moreover have "strip ''deterministic'' \<noteq> []" by code_simp
  ultimately have p: "from_snapshot [(''attempt_timeout_seconds'', JInt 29)] = Inr \<lparr>max_attempts = 3, attempt_timeout_seconds = 29,
      initial_backoff_seconds = 1, max_backoff_seconds = 60, provider_order = [''deterministic'']\<rparr>"
    by (simp add: from_snapshot_def dget_or_def dget_def positive_int_def positive_float_def
        int_exceeds_float_def RetryPolicy_def)
  show ?thesis
    by (simp add: handle_run_delivery_def sql_store_def claim_sample execute_claim_def run_attempt_def sample_claim_def p
        sample_executor_def committed_def success_sample)
qed

theorem acked_execution_is_durable_witness:
  "\<exists>r. get_row 1 sample_done = Some r \<and> r_execution_status r = SUCCEEDED \<and>
    r_result_payload r = Some [(''answer'', JInt 42)]"
proof -
  have keeps: "keeps_steps (svc_step sample_cfg) sample_executor" by (simp add: keeps_steps_def sample_executor_def)
  have "cl_decision sample_claim = CLAIMED" by (simp add: sample_claim_def)
  then obtain aid out d2 r where att: "run_attempt sample_executor ''worker-1'' sample_claim aid
      (the (cl_input_payload sample_claim)) (the (cl_policy_snapshot sample_claim)) (the (cl_provider sample_claim))
      sample_running = (out, d2)" and r: "get_row 1 sample_done = Some r"
    "case out of Inr result \<Rightarrow> r_execution_status r = SUCCEEDED \<and> r_result_payload r = Some (x_result_payload result)
     | Inl ex \<Rightarrow> r_execution_status r \<in> {RETRY_SCHEDULED, FAILED, DEAD_LETTERED} \<and>
         r_error_code r = Some (error_code_value (classify_exception ex))"
    using acked_execution_is_durable [OF reachable_queued keeps delivery_sample claim_sample] by blast
  have "r = done_run" using r(1) done_sample(1) by simp
  then show ?thesis using r by (auto simp: sample_result_def done_run_def split: sum.splits)
qed

section \<open>Redelivery\<close>

lemma claim_refused:
  assumes "get_row i d = Some r" "r_execution_status r \<noteq> QUEUED"
  shows "\<exists>decision. decision \<noteq> CLAIMED \<and> claim c cfg i w d = Inr (undecided decision i, d)"
  using assms by (auto simp: claim_def undecided_def)

text \<open>
  C8. Redelivery is harmless: a message for a run that is not QUEUED (another worker is executing it,
  it waits for a retry, or it has ended) is acknowledged without starting an execution and without
  changing the database, whatever the executor would do.
\<close>

theorem redelivery_harmless:
  assumes "run_id_from_message body = Inr i" "get_row i d = Some r" "r_execution_status r \<noteq> QUEUED"
  shows "handle_delivery (sql_store cfg) execute c c' w body d = (Acked, None, d)"
  using claim_refused [OF assms(2,3), of c cfg w] assms(1)
  by (auto simp: handle_delivery_def handle_run_delivery_def sql_store_def undecided_def)

theorem redelivery_harmless_witness:
  "handle_delivery (sql_store sample_cfg) (\<lambda>prov inp pol d. (Inl TimeoutError, empty_db)) claim_ctx done_ctx ''worker-2''
    (message_body (new_outbox sample_ctx 1 1 ''RUN_QUEUED'' [])) sample_running = (Acked, None, sample_running)"
proof (rule redelivery_harmless [where i = 1 and r = running_run])
  show "run_id_from_message (message_body (new_outbox sample_ctx 1 1 ''RUN_QUEUED'' [])) = Inr 1"
    by (simp add: published_run_id new_outbox_def)
  show "get_row 1 sample_running = Some running_run" by (rule sample_rows(1))
  show "r_execution_status running_run \<noteq> QUEUED" using sample_rows(4) by simp
qed

end
