(* ===== verification/Transaction_Units.thy ===== *)
theory Transaction_Units
  imports Service_Properties
begin

text \<open>
  Every transaction of the services is a sequence of units of work, each about one run. A relation
  that is reflexive, transitive and kept by every unit in the situation the services use it in is
  kept by every step. \<open>unit_relation\<close> is that contract.
\<close>

section \<open>The runs a batch selects\<close>

lemma selected_expired:
  assumes "db_wf d"
  shows "distinct (map r_id (expired_runs c batch d))"
    "\<forall>i \<in> set (map r_id (expired_runs c batch d)).
      \<exists>r. row_with r_id i (cores d) = Some r \<and> r_execution_status r = RUNNING"
  using assms unfolding expired_runs_def
  by (intro distinct_selected) (simp add: db_wf_def map_id_cores,
      auto dest!: set_selected simp: lease_expired_def row_in_runs(1) [OF assms])

lemma selected_due:
  assumes "db_wf d"
  shows "distinct (map r_id (due_runs c batch d))"
    "\<forall>i \<in> set (map r_id (due_runs c batch d)).
      \<exists>r. row_with r_id i (cores d) = Some r \<and> r_execution_status r = RETRY_SCHEDULED"
  using assms unfolding due_runs_def
  by (intro distinct_selected) (simp add: db_wf_def map_id_cores,
      auto dest!: set_selected simp: retry_due_def row_in_runs(1) [OF assms])

section \<open>Units\<close>

locale unit_relation =
  fixes rel :: "db \<Rightarrow> db \<Rightarrow> bool"
  assumes rel_refl: "rel d d"
    and rel_trans: "rel d e \<Longrightarrow> rel e f \<Longrightarrow> rel d f"
    and unit_start: "db_wf d \<Longrightarrow> get_row i d = Some run \<Longrightarrow> r_execution_status run = QUEUED \<Longrightarrow>
      start_attempt c lease run w p m d = Inr (res, d') \<Longrightarrow> rel d d'"
    and unit_defer: "db_wf d \<Longrightarrow> get_row i d = Some run \<Longrightarrow> r_execution_status run = QUEUED \<Longrightarrow>
      defer_run c run d = Inr (res, d') \<Longrightarrow> rel d d'"
    and unit_reject: "db_wf d \<Longrightarrow> get_row i d = Some run \<Longrightarrow> r_execution_status run = QUEUED \<Longrightarrow>
      reject_run c run d = Inr (res, d') \<Longrightarrow> rel d d'"
    and unit_success: "db_wf d \<Longrightarrow> complete_success c i aid w result d = Inr (True, d') \<Longrightarrow> rel d d'"
    and unit_fail: "db_wf d \<Longrightarrow> get_row i d = Some run \<Longrightarrow> r_execution_status run = RUNNING \<Longrightarrow>
      a \<in> set (attempts d) \<Longrightarrow> a_run_id a = i \<Longrightarrow> a_finished_at a = None \<Longrightarrow>
      fail_attempt c n run a err recovery d = Inr d' \<Longrightarrow> rel d d'"
    and unit_requeue: "db_wf d \<Longrightarrow> get_row i d = Some run \<Longrightarrow> r_execution_status run = RETRY_SCHEDULED \<Longrightarrow>
      requeue_run c n run d = Inr d' \<Longrightarrow> rel d d'"
    and unit_submit: "db_wf d \<Longrightarrow> kind = ''execution'' \<or> kind = ''regression'' \<Longrightarrow>
      submit_new c lm client prin key inp pol kind d = Inr (out, d') \<Longrightarrow> rel d d'"
    and unit_replay: "db_wf d \<Longrightarrow> replay_new c lm client prin key source d = Inr (out, d') \<Longrightarrow> rel d d'"
    and unit_evaluate: "db_wf d \<Longrightarrow> evaluate schema_ok c lm jt client j rules principal_id d = Inr (snap, d') \<Longrightarrow> rel d d'"
    and unit_charge: "charge_provider_call c prin t lm d = Inr d' \<Longrightarrow> rel d d'"
begin

lemma rel_claim:
  assumes "claim c cfg i w d = Inr (cl, d')" "db_wf d"
  shows "rel d d'"
proof (cases "d' = d")
  case False
  then obtain run where run: "get_row i d = Some run" "r_execution_status run = QUEUED"
    and q: "claim_queued c cfg run w d = Inr (cl, d')"
    using assms(1) by (auto simp: claim_def split: option.splits if_splits)
  then show ?thesis
    using unit_start [OF assms(2) run] unit_defer [OF assms(2) run] unit_reject [OF assms(2) run]
    by (auto simp: claim_queued_def Let_def split: if_splits sum.splits)
qed (simp add: rel_refl)

lemma rel_success:
  assumes "complete_success c i aid w result d = Inr (ok, d')" "db_wf d"
  shows "rel d d'"
proof (cases ok)
  case False
  then have "d' = d" using assms(1) by (auto simp: complete_success_def Let_def split: option.splits if_splits)
  then show ?thesis by (simp add: rel_refl)
qed (use assms unit_success in auto)

lemma rel_failure:
  assumes "complete_failure c i aid w e d = Inr (ok, d')" "db_wf d"
  shows "rel d d'"
proof (cases "d' = d")
  case False
  then obtain run a where "get_row i d = Some run" "owns_active_lease run w (c_now c)"
    and "row_with a_id aid (attempts d) = Some a" "a_run_id a = i" "a_finished_at a = None"
    and "fail_attempt c 0 run a e False d = Inr d'"
    using assms(1) by (auto simp: complete_failure_def split: option.splits if_splits)
  then show ?thesis
    using unit_fail [OF assms(2)] by (auto simp: owns_active_lease_def dest: row_with_SomeD)
qed (simp add: rel_refl)

lemma rel_recover_each:
  assumes "recover_each c n ids d = Inr d'" "db_wf d" "distinct ids"
    "\<forall>i \<in> set ids. \<exists>r. row_with r_id i (cores d) = Some r \<and> r_execution_status r = RUNNING"
  shows "rel d d'"
  using assms
proof (induction ids arbitrary: n d)
  case (Cons i ids)
  then obtain run where run: "get_row i d = Some run" "r_execution_status run = RUNNING"
    by (auto simp: row_with_cores)
  show ?case
  proof (cases "latest_open_attempt i d")
    case None
    then show ?thesis using Cons run by auto
  next
    case (Some a)
    then obtain e where e: "fail_attempt c n run a ''EXECUTION_LEASE_EXPIRED'' True d = Inr e"
      and rest: "recover_each c (n + 3) ids e = Inr d'" using Cons.prems(1) run by auto
    have m: "moves cfg i d e" for cfg
      using fail_moves [OF e Cons.prems(2) run] latest_open_attemptD [OF Some] by auto
    have "\<forall>j \<in> set ids. row_with r_id j (cores e) = row_with r_id j (cores d)"
      using moves_other_row [OF m] Cons.prems(3) by (metis distinct.simps(2))
    then have "rel e d'"
      using Cons.prems(3,4) by (intro Cons.IH [OF rest] moves_wf [OF m Cons.prems(2)]) auto
    moreover have "rel d e"
      using unit_fail [OF Cons.prems(2) run _ _ _ e] latest_open_attemptD [OF Some] by simp
    ultimately show ?thesis by (rule rel_trans [rotated])
  qed
qed (simp add: rel_refl)

lemma rel_recover:
  assumes "recover_expired_leases c batch d = Inr (n, d')" "db_wf d"
  shows "rel d d'"
proof (rule rel_recover_each)
  show "recover_each c 0 (map r_id (expired_runs c batch d)) d = Inr d'"
    using assms(1) by (auto simp: recover_expired_leases_def)
qed (use assms(2) selected_expired in auto)

lemma rel_requeue_each:
  assumes "requeue_each c n ids d = Inr d'" "db_wf d" "distinct ids"
    "\<forall>i \<in> set ids. \<exists>r. row_with r_id i (cores d) = Some r \<and> r_execution_status r = RETRY_SCHEDULED"
  shows "rel d d'"
  using assms
proof (induction ids arbitrary: n d)
  case (Cons i ids)
  then obtain run where run: "get_row i d = Some run" "r_execution_status run = RETRY_SCHEDULED"
    by (auto simp: row_with_cores)
  then obtain e where e: "requeue_run c n run d = Inr e"
    and rest: "requeue_each c (n + 2) ids e = Inr d'" using Cons.prems(1) by auto
  have m: "moves cfg i d e" for cfg by (rule requeue_moves [OF e Cons.prems(2) run])
  have "\<forall>j \<in> set ids. row_with r_id j (cores e) = row_with r_id j (cores d)"
    using moves_other_row [OF m] Cons.prems(3) by (metis distinct.simps(2))
  then have "rel e d'"
    using Cons.prems(3,4) by (intro Cons.IH [OF rest] moves_wf [OF m Cons.prems(2)]) auto
  then show ?case using unit_requeue [OF Cons.prems(2) run e] by (rule rel_trans [rotated])
qed (simp add: rel_refl)

lemma rel_schedule:
  assumes "schedule_due_retries c batch d = Inr (n, d')" "db_wf d"
  shows "rel d d'"
proof (rule rel_requeue_each)
  show "requeue_each c 0 (map r_id (due_runs c batch d)) d = Inr d'"
    using assms(1) by (auto simp: schedule_due_retries_def)
qed (use assms(2) selected_due in auto)

lemma rel_submit:
  assumes "submit c lm client key inp pol prin kind d = Inr (out, d')" "db_wf d"
    "kind = ''execution'' \<or> kind = ''regression''"
  shows "rel d d'"
  using assms(1) unit_submit [OF assms(2,3)]
  by (auto simp: submit_def Let_def rel_refl split: option.splits sum.splits exn.splits)

lemma rel_replay:
  assumes "replay c lm client i key prin d = Inr (out, d')" "db_wf d"
  shows "rel d d'"
  using assms(1) unit_replay [OF assms(2)]
  by (auto simp: replay_def Let_def rel_refl split: option.splits sum.splits exn.splits if_splits)

lemma rel_step: "svc_step cfg d d' \<Longrightarrow> db_wf d \<Longrightarrow> rel d d'"
  by (cases rule: svc_step.cases)
    (auto intro: rel_submit rel_replay unit_evaluate rel_claim rel_success rel_failure rel_recover
      rel_schedule unit_charge)

lemma rel_path:
  assumes "(svc_step cfg)\<^sup>*\<^sup>* d d'" "db_ok cfg d"
  shows "rel d d'"
  by (rule svc.path_relation [OF assms]) (use rel_refl rel_trans rel_step in \<open>auto simp: db_ok_def\<close>)

end

end
