(* ===== verification/Evaluation_Jobs.thy ===== *)
theory Evaluation_Jobs
  imports Transaction_Units
begin

text \<open>
  Evaluations and the runs that compute them. Every evaluation row belongs to one job run and is
  PENDING exactly as long as that run is active; in particular settling a job always finds its row.
\<close>

section \<open>The invariant\<close>

definition job_keys :: "db \<Rightarrow> (uuid \<times> uuid option) list" where
  "job_keys d = map (\<lambda>v. (v_id v, v_job_run_id v)) (evaluations d)"

definition pending_jobs :: "db \<Rightarrow> uuid option set" where
  "pending_jobs d = v_job_run_id ` {v \<in> set (evaluations d). v_status v = PENDING}"

definition is_job :: "run_row \<Rightarrow> bool" where
  "is_job r \<longleftrightarrow> r_work_kind r = ''evaluation''"

definition jobs_ok :: "db \<Rightarrow> bool" where
  "jobs_ok d \<longleftrightarrow> distinct (map fst (job_keys d)) \<and> distinct (map snd (job_keys d)) \<and>
     snd ` set (job_keys d) = (\<lambda>r. Some (r_id r)) ` {r \<in> set (cores d). is_job r} \<and>
     pending_jobs d = (\<lambda>r. Some (r_id r)) ` {r \<in> set (cores d). is_job r \<and> is_active r}"

section \<open>Settling a job\<close>

lemma filter_unique_key: "distinct (map key xs) \<Longrightarrow> x \<in> set xs \<Longrightarrow> filter (\<lambda>y. key y = key x) xs = [x]"
  by (induction xs) (auto simp: filter_empty_conv image_iff)

lemma finished_evaluation_fields [simp]:
  "v_id (finished_evaluation run v) = v_id v" "v_job_run_id (finished_evaluation run v) = v_job_run_id v"
  "v_run_id (finished_evaluation run v) = v_run_id v" "v_status (finished_evaluation run v) \<noteq> PENDING"
  by (simp_all add: finished_evaluation_def)

lemma finalize_evaluations:
  assumes "finalize_evaluation_job c n run d = Inr d'"
  shows "if r_work_kind run = ''evaluation''
    then \<exists>v \<in> set (evaluations d). v_job_run_id v = Some (r_id run) \<and>
      evaluations d' = rewrite (\<lambda>old. v_id old = v_id v) (\<lambda>_. finished_evaluation run v) (evaluations d)
    else evaluations d' = evaluations d"
  using assms
  by (auto simp: finalize_evaluation_job_def Let_def put_evaluation_def find_Some_iff
      split: option.splits if_splits dest!: insert_eventD)

lemma finalize_pending:
  assumes "finalize_evaluation_job c n run d = Inr d'"
    "distinct (map fst (job_keys d))" "distinct (map snd (job_keys d))"
  shows "job_keys d' = job_keys d"
    "pending_jobs d' = (if is_job run then pending_jobs d - {Some (r_id run)} else pending_jobs d)"
proof -
  have "job_keys d' = job_keys d \<and>
    pending_jobs d' = (if is_job run then pending_jobs d - {Some (r_id run)} else pending_jobs d)"
  proof (cases "is_job run")
    case True
    then obtain v where v: "v \<in> set (evaluations d)" "v_job_run_id v = Some (r_id run)"
      "evaluations d' = rewrite (\<lambda>old. v_id old = v_id v) (\<lambda>_. finished_evaluation run v) (evaluations d)"
      using finalize_evaluations [OF assms(1)] by (auto simp: is_job_def)
    have dist: "distinct (map v_id (evaluations d))" "distinct (map v_job_run_id (evaluations d))"
      using assms(2,3) by (simp_all add: job_keys_def comp_def)
    have id: "x = v" if "x \<in> set (evaluations d)" "v_id x = v_id v" for x
      using distinct_keyD [OF dist(1)] that v(1) by blast
    have e: "evaluations d' = map (\<lambda>x. if x = v then finished_evaluation run v else x) (evaluations d)"
      unfolding v(3) rewrite_def by (rule map_cong) (use id in auto)
    have "job_keys d' = job_keys d" unfolding job_keys_def e map_map by (rule map_cong) auto
    moreover have "{x \<in> set (evaluations d'). v_status x = PENDING} = {x \<in> set (evaluations d). v_status x = PENDING} - {v}"
      (is "?P' = ?P - {v}")
    proof -
      have "finished_evaluation run v = v \<Longrightarrow> v_status v \<noteq> PENDING" using finished_evaluation_fields(4) by metis
      then show ?thesis unfolding e by (auto split: if_splits)
    qed
    then have "pending_jobs d' = pending_jobs d - {Some (r_id run)}"
    proof -
      have "inj_on v_job_run_id (set (evaluations d))" using dist(2) by (simp add: distinct_map)
      then have "v_job_run_id ` (?P - {v}) = v_job_run_id ` ?P - v_job_run_id ` {v}"
        by (rule inj_on_image_set_diff) (use v(1) in auto)
      then show ?thesis using \<open>?P' = ?P - {v}\<close> v(2) by (simp add: pending_jobs_def)
    qed
    ultimately show ?thesis using True by simp
  next
    case False
    then show ?thesis using finalize_evaluations [OF assms(1)] by (simp add: is_job_def job_keys_def pending_jobs_def)
  qed
  then show "job_keys d' = job_keys d"
    "pending_jobs d' = (if is_job run then pending_jobs d - {Some (r_id run)} else pending_jobs d)" by auto
qed

section \<open>A moving run and its evaluation\<close>

lemma jobs_ok_put:
  assumes r: "get_row i d = Some r0" "is_active r0" and c: "cores d' = put_core r' (cores d)"
    and same: "r_id r' = i" "is_job r' = is_job r0" and "db_wf d" "jobs_ok d"
    and keys: "job_keys d' = job_keys d"
    and pend: "pending_jobs d' = (if is_job r' \<and> \<not> is_active r' then pending_jobs d - {Some i} else pending_jobs d)"
  shows "jobs_ok d'"
proof -
  define r where "r = core r0"
  have row: "row_with r_id i (cores d) = Some r" using get_row_core [OF r(1)] by (simp add: r_def)
  have ri: "r \<in> set (cores d)" "r_id r = i" using row_with_SomeD [OF row] by auto
  have fixed: "r_id r' = i" "is_job r' = is_job r" using same by (simp_all add: r_def is_job_def)
  have act: "is_active r" using r(2) by (simp add: r_def is_active_def)
  have dist: "distinct (map r_id (cores d))" using \<open>db_wf d\<close> by (simp add: db_wf_def)
  have "cores d' = map (\<lambda>x. if x = r then r' else x) (cores d)"
    unfolding c put_core_def
  proof (rule map_cong [OF refl])
    show "(if r_id x = r_id r' then r' else x) = (if x = r then r' else x)" if "x \<in> set (cores d)" for x
      using distinct_keyD [OF dist that ri(1)] ri(2) fixed(1) by metis
  qed
  then have set: "set (cores d') = insert r' (set (cores d) - {r})" using ri(1) by auto
  let ?f = "\<lambda>r. Some (r_id r)"
  have swap: "?f ` insert r' (A - {r}) = ?f ` A" if "r \<in> A" for A
    using that fixed(1) ri(2) by (metis (no_types, lifting) image_insert insert_Diff)
  have inj: "inj_on ?f (set (cores d))" using dist by (auto simp: distinct_map inj_on_def)
  have ids: "?f ` {x \<in> set (cores d'). is_job x} = ?f ` {x \<in> set (cores d). is_job x}"
  proof (cases "is_job r")
    case True
    then have "{x \<in> set (cores d'). is_job x} = insert r' ({x \<in> set (cores d). is_job x} - {r})"
      unfolding set using fixed(2) by auto
    then show ?thesis using swap True ri(1) by simp
  next
    case False
    then have "{x \<in> set (cores d'). is_job x} = {x \<in> set (cores d). is_job x}" unfolding set using fixed(2) by auto
    then show ?thesis by simp
  qed
  let ?L = "{x \<in> set (cores d). is_job x \<and> is_active x}"
  have live: "?f ` {x \<in> set (cores d'). is_job x \<and> is_active x} = ?f ` ?L - (if is_job r' \<and> \<not> is_active r' then {Some i} else {})"
  proof (cases "is_job r")
    case True
    show ?thesis
    proof (cases "is_active r'")
      case True
      then have "{x \<in> set (cores d'). is_job x \<and> is_active x} = insert r' (?L - {r})"
        unfolding set using fixed(2) \<open>is_job r\<close> by auto
      then show ?thesis using swap [of ?L] \<open>is_job r\<close> True ri(1) act by simp
    next
      case False
      then have "{x \<in> set (cores d'). is_job x \<and> is_active x} = ?L - {r}" unfolding set by auto
      moreover have "?f ` (?L - {r}) = ?f ` ?L - ?f ` {r}"
        by (rule inj_on_image_set_diff [OF inj]) (use ri(1) in auto)
      ultimately show ?thesis using False \<open>is_job r\<close> fixed(2) ri(2) by simp
    qed
  next
    case False
    then have "{x \<in> set (cores d'). is_job x \<and> is_active x} = ?L" unfolding set using fixed(2) by auto
    then show ?thesis using False fixed(2) by simp
  qed
  show ?thesis
    using \<open>jobs_ok d\<close> keys pend ids live unfolding jobs_ok_def by simp
qed

lemma jobs_ok_active:
  assumes "get_row i d = Some r0" "is_active r0" "cores d' = put_core r' (cores d)"
    "r_id r' = i" "is_job r' = is_job r0" "db_wf d" "jobs_ok d"
    and "evaluations d' = evaluations d" "is_active r'"
  shows "jobs_ok d'"
  using jobs_ok_put [OF assms(1-7)] assms(8,9) by (simp add: job_keys_def pending_jobs_def)

text \<open>A run that ends is settled by \<open>finalize_evaluation_job\<close> in the same transaction.\<close>

lemma jobs_ok_settled:
  assumes "get_row i d = Some r0" "is_active r0"
    and f: "finalize_evaluation_job c n run d1 = Inr d'"
    and d1: "cores d1 = put_core (core run) (cores d)" "evaluations d1 = evaluations d" "db_wf d1"
    and "r_id run = i" "is_job run = is_job r0" "\<not> is_active run" "db_wf d" "jobs_ok d"
  shows "jobs_ok d'"
proof (rule jobs_ok_put [OF assms(1,2)])
  have same: "job_keys d1 = job_keys d" "pending_jobs d1 = pending_jobs d"
    by (simp_all add: job_keys_def pending_jobs_def d1(2))
  then have dist: "distinct (map fst (job_keys d1))" "distinct (map snd (job_keys d1))"
    using \<open>jobs_ok d\<close> by (simp_all add: jobs_ok_def)
  show "cores d' = put_core (core run) (cores d)" using finalize_same(1) [OF f d1(3)] d1(1) by simp
  show "job_keys d' = job_keys d" using finalize_pending(1) [OF f dist] same by simp
  show "pending_jobs d' = (if is_job (core run) \<and> \<not> is_active (core run)
      then pending_jobs d - {Some i} else pending_jobs d)"
    using finalize_pending(2) [OF f dist] same assms(7,9) by (simp add: is_job_def is_active_def)
qed (use assms in \<open>simp_all add: is_job_def\<close>)

section \<open>Every unit keeps the invariant\<close>

definition keeps_jobs :: "db \<Rightarrow> db \<Rightarrow> bool" where
  "keeps_jobs d d' \<longleftrightarrow> (jobs_ok d \<longrightarrow> jobs_ok d')"

lemma start_jobs:
  assumes "db_wf d" "get_row i d = Some run" "r_execution_status run = QUEUED"
    "start_attempt c lease run w p m d = Inr (res, d')"
  shows "keeps_jobs d d'"
proof -
  obtain t where c: "cores d' = put_core (core (run\<lparr>r_execution_status := RUNNING, r_lease_owner := Some w,
      r_lease_expires_at := Some t, r_started_at := (case r_started_at run of None \<Rightarrow> Some (c_now c) | Some t \<Rightarrow> Some t)\<rparr>)) (cores d)"
    and e: "evaluations d' = evaluations d"
    using assms(4) by (auto simp: start_attempt_def Let_def cores_put_run dest!: insert_eventD insert_attemptD)
  show ?thesis
    unfolding keeps_jobs_def using get_row_SomeD [OF assms(2)] assms(1,3) e
    by (intro impI jobs_ok_active [OF assms(2) _ c]) (simp_all add: is_job_def is_active_def)
qed

lemma defer_jobs:
  assumes "db_wf d" "get_row i d = Some run" "r_execution_status run = QUEUED" "defer_run c run d = Inr (res, d')"
  shows "keeps_jobs d d'"
proof -
  obtain t where c: "cores d' = put_core (core (run\<lparr>r_execution_status := RETRY_SCHEDULED, r_next_attempt_at := Some t\<rparr>)) (cores d)"
    and e: "evaluations d' = evaluations d"
    using assms(4) by (auto simp: defer_run_def cores_put_run)
  show ?thesis
    unfolding keeps_jobs_def using get_row_SomeD [OF assms(2)] assms(1,3) e
    by (intro impI jobs_ok_active [OF assms(2) _ c]) (simp_all add: is_job_def is_active_def)
qed

lemma requeue_jobs:
  assumes "db_wf d" "get_row i d = Some run" "r_execution_status run = RETRY_SCHEDULED" "requeue_run c n run d = Inr d'"
  shows "keeps_jobs d d'"
proof -
  have c: "cores d' = put_core (core (run\<lparr>r_execution_status := QUEUED, r_next_attempt_at := None\<rparr>)) (cores d)"
    and e: "evaluations d' = evaluations d"
    using assms(4) by (auto simp: requeue_run_def cores_put_run dest!: insert_dests)
  show ?thesis
    unfolding keeps_jobs_def using get_row_SomeD [OF assms(2)] assms(1,3) e
    by (intro impI jobs_ok_active [OF assms(2) _ c]) (simp_all add: is_job_def is_active_def)
qed

lemma wf_put_run:
  assumes "db_wf d"
  shows "db_wf (put_run r d)"
  using assms unfolding db_wf_def by (simp add: map_id_cores) (metis cores_put_run map_id_put_core set_map)

lemma reject_jobs:
  assumes "db_wf d" "get_row i d = Some run" "r_execution_status run = QUEUED" "reject_run c run d = Inr (res, d')"
  shows "keeps_jobs d d'"
proof -
  let ?run = "run\<lparr>r_execution_status := FAILED, r_error_code := Some ''INVALID_STORED_POLICY'',
    r_completed_at := Some (c_now c)\<rparr>"
  have f: "finalize_evaluation_job c 0 ?run (put_run ?run d) = Inr d'"
    using assms(4) by (auto simp: reject_run_def Let_def)
  show ?thesis
    unfolding keeps_jobs_def using get_row_SomeD [OF assms(2)] assms(1,3) wf_put_run [OF assms(1)]
    by (intro impI jobs_ok_settled [OF assms(2) _ f]) (simp_all add: is_job_def is_active_def cores_put_run)
qed

lemma success_jobs:
  assumes "db_wf d" "complete_success c i aid w result d = Inr (True, d')"
  shows "keeps_jobs d d'"
proof -
  obtain run a where run: "get_row i d = Some run" "owns_active_lease run w (c_now c)"
    and a: "row_with a_id aid (attempts d) = Some a" "a_run_id a = i" "a_finished_at a = None"
    using assms(2) by (auto simp: complete_success_def Let_def split: option.splits if_splits)
  let ?a = "a\<lparr>a_provider := x_provider result, a_usage := x_usage result, a_finished_at := Some (c_now c),
    a_outcome := Some ''SUCCEEDED'', a_latency_ms := Some (elapsed_ms (a_started_at a) (c_now c))\<rparr>"
  let ?run = "clear_lease (run\<lparr>r_execution_status := SUCCEEDED,
    r_result_payload := Some (x_result_payload result), r_completed_at := Some (c_now c),
    r_error_code := None, r_next_attempt_at := None\<rparr>)"
  obtain es where f: "finalize_evaluation_job c 1 ?run ((put_run ?run (put_attempt ?a d))\<lparr>events := es\<rparr>) = Inr d'"
    using assms(2) run a by (auto simp: complete_success_def Let_def dest!: insert_eventD)
  have "finishes a ?a" using a(3) by (simp add: finishes_def is_open_def outcome_ok_def)
  then have wf: "db_wf ((put_run ?run (put_attempt ?a d))\<lparr>events := es\<rparr>)"
    unfolding wf_upd using row_with_SomeD [OF a(1)] by (intro wf_finish [OF assms(1)]) auto
  show ?thesis
    unfolding keeps_jobs_def using get_row_SomeD [OF run(1)] run(2) assms(1) wf
    by (intro impI jobs_ok_settled [OF run(1) _ f])
      (simp_all add: is_job_def is_active_def cores_put_run clear_lease_def owns_active_lease_def)
qed

lemma bury_settles:
  assumes "bury_run c n run a e recovery p d = Inr d'"
    and "run' = run\<lparr>r_next_attempt_at := None, r_completed_at := Some (c_now c),
      r_execution_status := (if a_retryable a = Some True then DEAD_LETTERED else FAILED)\<rparr>"
  shows "\<exists>d1. finalize_evaluation_job c (n + 2) run' d1 = Inr d' \<and> cores d1 = cores (put_run run' d) \<and>
    evaluations d1 = evaluations d \<and> attempts d1 = attempts d"
  using assms(1) unfolding bury_run_def Let_def assms(2) [symmetric]
  by (fastforce split: if_splits dest: insert_eventD insert_outboxD)

lemma fail_jobs:
  assumes "db_wf d" "get_row i d = Some run" "r_execution_status run = RUNNING" "a \<in> set (attempts d)"
    "a_run_id a = i" "a_finished_at a = None" "fail_attempt c n run a err recovery d = Inr d'"
  shows "keeps_jobs d d'"
proof -
  let ?a = "finish_failed_attempt a (c_now c) err"
  let ?run = "(clear_lease run)\<lparr>r_error_code := Some err\<rparr>"
  obtain p where p: "from_snapshot (r_policy_snapshot run) = Inr p"
    using assms(7) by (auto simp: fail_attempt_def schedule_retry_or_finalize_def Let_def)
  have id: "r_id run = i" using assms(2) by (auto dest: get_row_SomeD)
  show ?thesis
  proof (cases "a_retryable ?a = Some True \<and> a_number ?a < max_attempts p")
    case True
    then obtain t es where "d' = (put_run (?run\<lparr>r_execution_status := RETRY_SCHEDULED,
        r_next_attempt_at := Some t\<rparr>) (put_attempt ?a d))\<lparr>events := es\<rparr>"
      using assms(7) p by (auto simp: fail_attempt_def schedule_retry_or_finalize_def schedule_retry_def Let_def
          dest!: insert_eventD)
    then have c: "cores d' = put_core (core (?run\<lparr>r_execution_status := RETRY_SCHEDULED,
        r_next_attempt_at := Some t\<rparr>)) (cores d)" and e: "evaluations d' = evaluations d"
      by (simp_all add: cores_put_run)
    show ?thesis
      unfolding keeps_jobs_def using id assms(1,3) e
      by (intro impI jobs_ok_active [OF assms(2) _ c]) (simp_all add: is_job_def is_active_def clear_lease_def)
  next
    case False
    let ?run' = "?run\<lparr>r_next_attempt_at := None, r_completed_at := Some (c_now c),
      r_execution_status := (if a_retryable ?a = Some True then DEAD_LETTERED else FAILED)\<rparr>"
    have b: "bury_run c n ?run ?a err recovery p (put_attempt ?a d) = Inr d'"
      using assms(7) p False
      by (auto simp: fail_attempt_def schedule_retry_or_finalize_def Let_def split: if_splits)
    obtain d1 where f: "finalize_evaluation_job c (n + 2) ?run' d1 = Inr d'"
      and d1: "cores d1 = put_core (core ?run') (cores d)" "evaluations d1 = evaluations d"
        "attempts d1 = attempts (put_attempt ?a d)"
      using bury_settles [OF b refl] by (auto simp: cores_put_run)
    have "db_wf (put_run ?run' (put_attempt ?a d))"
      by (rule wf_finish [OF assms(1,4) finishes_failed [OF assms(6)]])
    then have wf: "db_wf d1" using d1(1,3) by (simp add: db_wf_def cores_put_run)
    show ?thesis
      unfolding keeps_jobs_def using id assms(1,3) wf d1
      by (intro impI jobs_ok_settled [OF assms(2) _ f]) (simp_all add: is_job_def is_active_def clear_lease_def)
  qed
qed

text \<open>New runs: only \<open>evaluate\<close> creates a job, together with its pending evaluation.\<close>

lemma jobs_ok_new_run:
  assumes "r_id r \<notin> r_id ` set (runs d)" "cores d' = cores d @ [core r]" "\<not> is_job r" "evaluations d' = evaluations d"
  shows "keeps_jobs d d'"
proof -
  have "\<not> is_job (core r)" using assms(3) by (simp add: is_job_def)
  then have "{x \<in> set (cores d'). is_job x} = {x \<in> set (cores d). is_job x}"
    "{x \<in> set (cores d'). is_job x \<and> is_active x} = {x \<in> set (cores d). is_job x \<and> is_active x}"
    using assms(2) by auto
  then show ?thesis
    using assms(4) by (simp add: keeps_jobs_def jobs_ok_def job_keys_def pending_jobs_def)
qed

lemma submit_jobs:
  assumes "submit_new c lm client prin key inp pol kind d = Inr (out, d')" "kind = ''execution'' \<or> kind = ''regression''"
  shows "keeps_jobs d d'"
proof -
  let ?run = "new_run c 0 client prin kind key (submission_hash kind inp pol) inp pol None"
  have "r_id ?run \<notin> r_id ` set (runs d) \<and> cores d' = cores d @ [core ?run] \<and> evaluations d' = evaluations d"
    using assms(1) by (auto simp: submit_new_def Let_def cores_def
        dest!: insert_runD insert_dests routing_event_same)
  then show ?thesis using assms(2) by (intro jobs_ok_new_run [of ?run]) (auto simp: is_job_def new_run_def)
qed

lemma replay_jobs:
  assumes "replay_new c lm client prin key source d = Inr (out, d')"
  shows "keeps_jobs d d'"
proof -
  let ?run = "new_run c 0 client prin ''execution'' key (replay_hash source)
    (r_input_payload source) (r_policy_snapshot source) (Some (r_id source))"
  have "r_id ?run \<notin> r_id ` set (runs d) \<and> cores d' = cores d @ [core ?run] \<and> evaluations d' = evaluations d"
    using assms by (auto simp: replay_new_def Let_def cores_def dest!: insert_runD insert_dests)
  then show ?thesis by (intro jobs_ok_new_run [of ?run]) (auto simp: is_job_def new_run_def)
qed

lemma evaluate_effect:
  assumes "evaluate schema_ok c lm jt client i rules principal_id d = Inr (snap, d')" "db_wf d"
  shows "\<exists>job v. cores d' = cores d @ [core job] \<and> is_job job \<and> is_active job \<and> evaluations d' = evaluations d @ [v] \<and>
    v_status v = PENDING \<and> v_job_run_id v = Some (r_id job) \<and> v_id v \<notin> v_id ` set (evaluations d) \<and>
    v_job_run_id v \<notin> v_job_run_id ` set (evaluations d)"
proof -
  let ?job = "evaluation_job c jt client (str_or principal_id client) i rules"
  obtain run where run: "get_run_for_client client i d = Inr run"
    using assms(1) by (auto simp: evaluate_def)
  let ?v = "pending_evaluation c (r_id run) (r_id ?job) rules"
  obtain d1 d2 where ins: "insert_run ?job d = Inr d1"
    and ev: "insert_evaluation ?v (put_run (run\<lparr>r_evaluation_status := PENDING\<rparr>) d1) = Inr d2"
    and same: "cores d' = cores d2" "evaluations d' = evaluations d2"
    using assms(1) run by (auto simp: evaluate_def Let_def dest!: insert_outboxD insert_eventD)
  have d1: "d1 = d\<lparr>runs := runs d @ [?job]\<rparr>" "r_id ?job \<notin> r_id ` set (runs d)"
    using insert_runD [OF ins] by auto
  have mem: "run \<in> set (runs d1)"
    using run by (auto simp: d1(1) get_run_for_client_def find_Some_iff split: option.splits)
  have "db_wf d1" using assms(2) d1 by (auto simp: db_wf_def cores_def comp_def)
  then have c: "cores (put_run (run\<lparr>r_evaluation_status := PENDING\<rparr>) d1) = cores d1"
    using annotate_cores row_in_runs(2) mem by metis
  have "d2 = (put_run (run\<lparr>r_evaluation_status := PENDING\<rparr>) d1)\<lparr>evaluations := evaluations d1 @ [?v]\<rparr>"
    and fresh: "\<forall>o' \<in> set (evaluations d). v_id o' \<noteq> v_id ?v \<and> v_job_run_id o' \<noteq> v_job_run_id ?v"
    using ev by (auto simp: insert_evaluation_def list_ex_iff d1(1) pending_evaluation_def split: if_splits)
  then have "cores d' = cores d @ [core ?job]" "evaluations d' = evaluations d @ [?v]"
    using same c by (simp_all add: d1(1) cores_def)
  moreover have "is_job ?job" "is_active ?job" "v_status ?v = PENDING" "v_job_run_id ?v = Some (r_id ?job)"
    by (simp_all add: is_job_def is_active_def evaluation_job_def new_run_def pending_evaluation_def)
  moreover have "v_id ?v \<notin> v_id ` set (evaluations d)" "v_job_run_id ?v \<notin> v_job_run_id ` set (evaluations d)"
    using fresh by (metis imageE)+
  ultimately show ?thesis by blast
qed

lemma evaluate_jobs:
  assumes "db_wf d" "evaluate schema_ok c lm jt client i rules principal_id d = Inr (snap, d')"
  shows "keeps_jobs d d'"
proof -
  obtain job v where c: "cores d' = cores d @ [core job]" and j: "is_job job" "is_active job"
    and e: "evaluations d' = evaluations d @ [v]" and v: "v_status v = PENDING" "v_job_run_id v = Some (r_id job)"
    and fresh: "v_id v \<notin> v_id ` set (evaluations d)" "v_job_run_id v \<notin> v_job_run_id ` set (evaluations d)"
    using evaluate_effect [OF assms(2,1)] by blast
  have j': "is_job (core job)" "is_active (core job)" using j by (simp_all add: is_job_def is_active_def)
  have sets: "{x \<in> set (cores d'). is_job x} = insert (core job) {x \<in> set (cores d). is_job x}"
    "{x \<in> set (cores d'). is_job x \<and> is_active x} = insert (core job) {x \<in> set (cores d). is_job x \<and> is_active x}"
    using c j' by auto
  have "{x \<in> set (evaluations d'). v_status x = PENDING} = insert v {x \<in> set (evaluations d). v_status x = PENDING}"
    using e v(1) by auto
  then have p: "pending_jobs d' = insert (Some (r_id job)) (pending_jobs d)" using v(2) by (simp add: pending_jobs_def)
  have k: "job_keys d' = job_keys d @ [(v_id v, Some (r_id job))]" using e v(2) by (simp add: job_keys_def)
  have "v_id v \<notin> fst ` set (job_keys d)" "Some (r_id job) \<notin> snd ` set (job_keys d)"
    using fresh v(2) by (simp_all add: job_keys_def image_image)
  then show ?thesis
    unfolding keeps_jobs_def jobs_ok_def sets p k by (auto simp: image_image)
qed

interpretation jobs: unit_relation keeps_jobs
proof
  show "keeps_jobs d d'" if "charge_provider_call c prin t lm d = Inr d'" for c prin t lm d d'
    using that by (auto simp: charge_Inr_iff keeps_jobs_def jobs_ok_def job_keys_def pending_jobs_def)
qed (auto simp: keeps_jobs_def
    intro: start_jobs [unfolded keeps_jobs_def, rule_format] defer_jobs [unfolded keeps_jobs_def, rule_format]
      reject_jobs [unfolded keeps_jobs_def, rule_format] success_jobs [unfolded keeps_jobs_def, rule_format]
      fail_jobs [unfolded keeps_jobs_def, rule_format] requeue_jobs [unfolded keeps_jobs_def, rule_format]
      submit_jobs [unfolded keeps_jobs_def, rule_format] replay_jobs [unfolded keeps_jobs_def, rule_format]
      evaluate_jobs [unfolded keeps_jobs_def, rule_format])

lemma reachable_jobs:
  assumes "reachable_db cfg d"
  shows "jobs_ok d"
proof -
  have "(svc_step cfg)\<^sup>*\<^sup>* empty_db d" "db_ok cfg empty_db"
    using assms reachable_ok [of cfg empty_db] by (auto simp: reachable_db_def)
  then have "keeps_jobs empty_db d" by (rule jobs.rel_path)
  moreover have "jobs_ok empty_db"
    by (simp add: jobs_ok_def job_keys_def pending_jobs_def cores_def empty_db_def)
  ultimately show ?thesis by (simp add: keeps_jobs_def)
qed

section \<open>Evaluations and their jobs agree\<close>

definition eval_ctx :: ctx where
  "eval_ctx = done_ctx\<lparr>c_now := 9000000, c_db_now := 9000000, c_uuid := (\<lambda>n. of_nat (n + 30))\<rparr>"

definition sample_rules :: "dict list" where
  "sample_rules = [[(''type'', JStr ''non_empty''), (''path'', JStr ''answer'')]]"

definition sample_job :: run_row where
  "sample_job = evaluation_job eval_ctx 60 ''acme'' ''acme'' 1 sample_rules"

definition sample_evaluating :: db where
  "sample_evaluating = sample_done\<lparr>runs := [done_run\<lparr>r_evaluation_status := PENDING, r_version := 4\<rparr>, sample_job],
     outbox := outbox sample_done @ [new_outbox eval_ctx 3 31 ''RUN_QUEUED''
       [(''trace_context'', JDict (r_trace_context sample_job))]],
     evaluations := [pending_evaluation eval_ctx 1 31 sample_rules],
     events := events sample_done @ [new_event eval_ctx 4 31 None ''RUN_QUEUED'' [(''work_kind'', JStr ''evaluation'')],
       new_event eval_ctx 5 1 None ''EVALUATION_PENDING'' [(''job_run_id'', JStr (uuid_str 31))]]\<rparr>"

lemma evaluate_sample:
  "evaluate (\<lambda>_. True) eval_ctx default_quotas 60 ''acme'' 1 sample_rules None sample_done
    = Inr (to_evaluation_snapshot (pending_evaluation eval_ctx 1 31 sample_rules), sample_evaluating)"
proof -
  have rules: "validate_rules (\<lambda>_. True) sample_rules = Inr ()" by code_simp
  have f: "r_id done_run = 1" "r_client_id done_run = ''acme''" "r_work_kind done_run = ''execution''"
    "r_execution_status done_run = SUCCEEDED" "r_result_payload done_run = Some [(''answer'', JInt 42)]"
    "r_evaluation_status done_run = NOT_RUN" "r_version done_run = 3" "r_principal_id done_run = Some ''acme''"
    "r_idempotency_key done_run = ''key-1''"
    by (simp_all add: done_run_def running_run_def sample_run_def new_run_def sample_ctx_def)
  have run: "get_run_for_client ''acme'' 1 sample_done = Inr done_run"
    by (simp add: get_run_for_client_def sample_done_def f)
  have ok: "can_be_evaluated done_run" by (simp add: can_be_evaluated_def f)
  have adm: "check_admission eval_ctx ''acme'' ''acme'' default_quotas sample_done = Inr ()"
    by (simp add: check_admission_def check_provider_budget_def check_scope_budget_def count_runs_def sample_done_def
        is_active_def f quota_row_of_def sample_running_def sample_queued_def default_quotas_def guard_that_def Let_def)
  have job: "r_id sample_job = 31" "r_client_id sample_job = ''acme''" "r_replay_of sample_job = None"
    "r_idempotency_key sample_job = ''evaluation-'' @ uuid_str 30"
    by (simp_all add: sample_job_def evaluation_job_def new_run_def eval_ctx_def)
  have ins: "insert_run sample_job sample_done = Inr (sample_done\<lparr>runs := [done_run, sample_job]\<rparr>)"
    by (simp add: insert_run_def sample_done_def f job)
  have "done_run\<lparr>r_evaluation_status := PENDING\<rparr> \<noteq> done_run"
  proof
    assume "done_run\<lparr>r_evaluation_status := PENDING\<rparr> = done_run"
    then have "r_evaluation_status (done_run\<lparr>r_evaluation_status := PENDING\<rparr>) = r_evaluation_status done_run" by (rule arg_cong)
    then show False by (simp add: f)
  qed
  then have put: "put_run (done_run\<lparr>r_evaluation_status := PENDING\<rparr>) (sample_done\<lparr>runs := [done_run, sample_job]\<rparr>)
    = sample_done\<lparr>runs := [done_run\<lparr>r_evaluation_status := PENDING, r_version := 4\<rparr>, sample_job]\<rparr>"
    by (simp add: put_run_def stamp_def f job)
  show ?thesis
    unfolding evaluate_def rules res_bind_simps run ok guard_that_def if_True str_or.simps adm
      sample_job_def [symmetric] Let_def ins put f job
    by (simp add: ok insert_evaluation_def insert_outbox_def insert_event_def get_row_def f job pending_evaluation_def
        sample_done_def sample_running_def sample_queued_def sample_evaluating_def new_outbox_def new_event_def
        eval_ctx_def done_ctx_def claim_ctx_def sample_ctx_def)
qed

lemma reachable_done: "reachable_db sample_cfg sample_done"
  using reachable_trans [OF sample_reachable] step_success [OF success_sample] by blast

lemma reachable_evaluating: "reachable_db sample_cfg sample_evaluating"
proof -
  have "exec_quotas sample_cfg = default_quotas" by (simp add: sample_cfg_def)
  then have "svc_step sample_cfg sample_done sample_evaluating" using step_evaluate evaluate_sample by metis
  then show ?thesis using reachable_trans [OF reachable_done] by blast
qed

lemma pending_iff:
  assumes "distinct (map v_job_run_id (evaluations d))" "v \<in> set (evaluations d)" "v_job_run_id v = Some i"
  shows "v_status v = PENDING \<longleftrightarrow> Some i \<in> pending_jobs d"
proof
  assume "Some i \<in> pending_jobs d"
  then obtain u where u: "u \<in> set (evaluations d)" "v_status u = PENDING" "v_job_run_id u = Some i"
    by (auto simp: pending_jobs_def)
  then have "u = v" using distinct_keyD [OF assms(1) u(1) assms(2)] assms(3) by simp
  then show "v_status v = PENDING" using u(2) by simp
qed (use assms in \<open>auto simp: pending_jobs_def image_iff\<close>)

lemma active_job_iff:
  assumes "db_wf d" "jobs_ok d" "r \<in> set (runs d)" "is_job r"
  shows "Some (r_id r) \<in> pending_jobs d \<longleftrightarrow> is_active r"
proof -
  have c: "core r \<in> set (cores d)" using assms(3) by (simp add: cores_def)
  have "distinct (map r_id (cores d))" using assms(1) by (simp add: db_wf_def)
  then have u: "x = core r" if "x \<in> set (cores d)" "r_id x = r_id r" for x
    using distinct_keyD [of r_id "cores d" x "core r"] that c by simp
  have "pending_jobs d = (\<lambda>r. Some (r_id r)) ` {r \<in> set (cores d). is_job r \<and> is_active r}"
    using assms(2) unfolding jobs_ok_def by (elim conjE)
  then have "Some (r_id r) \<in> pending_jobs d \<longleftrightarrow> (\<exists>x \<in> set (cores d). is_job x \<and> is_active x \<and> r_id x = r_id r)"
    by (auto intro: rev_image_eqI)
  also have "\<dots> \<longleftrightarrow> is_job (core r) \<and> is_active (core r)" using u c core_fields(1) by blast
  finally show ?thesis using assms(4) by (simp add: is_active_def is_job_def)
qed

text \<open>
  C10. Evaluations and the runs that compute them never disagree: every evaluation job run has exactly
  one evaluation, which is PENDING exactly as long as the run is queued, running or waiting for a
  retry; and every evaluation has such a run. So settling a job never misses its evaluation.
\<close>

theorem evaluation_matches_job:
  assumes "reachable_db cfg d"
  shows "(\<forall>r \<in> set (runs d). r_work_kind r = ''evaluation'' \<longrightarrow>
      (\<exists>v. filter (\<lambda>v. v_job_run_id v = Some (r_id r)) (evaluations d) = [v] \<and> (v_status v = PENDING \<longleftrightarrow> is_active r))) \<and>
    (\<forall>v \<in> set (evaluations d). \<exists>r \<in> set (runs d). r_work_kind r = ''evaluation'' \<and> v_job_run_id v = Some (r_id r))"
proof -
  have ok: "jobs_ok d" using assms by (rule reachable_jobs)
  have wf: "db_wf d" using reachable_ok [OF assms] by (simp add: db_ok_def)
  have jobs: "v_job_run_id ` set (evaluations d) = (\<lambda>r. Some (r_id r)) ` {r \<in> set (cores d). is_job r}"
    using ok by (simp add: jobs_ok_def job_keys_def image_image)
  have dist: "distinct (map v_job_run_id (evaluations d))" using ok by (simp add: jobs_ok_def job_keys_def comp_def)
  have "\<exists>v. filter (\<lambda>v. v_job_run_id v = Some (r_id r)) (evaluations d) = [v] \<and> (v_status v = PENDING \<longleftrightarrow> is_active r)"
    if r: "r \<in> set (runs d)" "r_work_kind r = ''evaluation''" for r
  proof -
    have "core r \<in> {r \<in> set (cores d). is_job r}" using r by (simp add: cores_def is_job_def)
    then have "Some (r_id r) \<in> v_job_run_id ` set (evaluations d)" unfolding jobs by (metis (no_types, lifting) core_fields(1) image_eqI)
    then obtain v where v: "v \<in> set (evaluations d)" "v_job_run_id v = Some (r_id r)" by auto
    then show ?thesis using filter_unique_key [OF dist v(1)] pending_iff [OF dist v] active_job_iff [OF wf ok r(1)] r(2)
      by (simp add: is_job_def)
  qed
  moreover have "\<exists>r \<in> set (runs d). r_work_kind r = ''evaluation'' \<and> v_job_run_id v = Some (r_id r)"
    if "v \<in> set (evaluations d)" for v
  proof -
    have "v_job_run_id v \<in> (\<lambda>r. Some (r_id r)) ` {r \<in> set (cores d). is_job r}" using that jobs by blast
    then show ?thesis by (auto simp: cores_def is_job_def)
  qed
  ultimately show ?thesis by blast
qed

theorem evaluation_matches_job_witness:
  "reachable_db sample_cfg sample_evaluating \<and>
   (\<exists>v. filter (\<lambda>v. v_job_run_id v = Some 31) (evaluations sample_evaluating) = [v] \<and> v_status v = PENDING)"
proof -
  have job: "sample_job \<in> set (runs sample_evaluating)" by (simp add: sample_evaluating_def)
  have "r_work_kind sample_job = ''evaluation''" "r_id sample_job = 31" "is_active sample_job"
    by (simp_all add: sample_job_def evaluation_job_def new_run_def eval_ctx_def is_active_def)
  then show ?thesis using evaluation_matches_job [OF reachable_evaluating, THEN conjunct1, rule_format, OF job] reachable_evaluating
    by simp
qed

end
