(* ===== verification/Announcements.thy ===== *)
theory Announcements
  imports Evaluation_Jobs Table_Growth
begin

text \<open>
  A run that becomes QUEUED is announced in the same transaction: an unpublished \<open>RUN_QUEUED\<close> row
  joins the outbox.
\<close>

definition announced_in :: "uuid \<Rightarrow> outbox_row list \<Rightarrow> bool" where
  "announced_in i xs \<longleftrightarrow> (\<exists>x \<in> set xs. o_aggregate_id x = i \<and> o_type x = ''RUN_QUEUED'' \<and> o_published_at x = None)"

definition announces :: "db \<Rightarrow> db \<Rightarrow> bool" where
  "announces d d' \<longleftrightarrow> (\<exists>xs. outbox d' = outbox d @ xs \<and>
     (\<forall>r' \<in> set (cores d'). r_execution_status r' = QUEUED \<longrightarrow>
        (\<exists>r \<in> set (cores d). r_id r = r_id r' \<and> r_execution_status r = QUEUED) \<or> announced_in (r_id r') xs))"

lemma announced_append: "announced_in i (xs @ ys) \<longleftrightarrow> announced_in i xs \<or> announced_in i ys"
  by (auto simp: announced_in_def)

lemma announced_new [simp]: "announced_in i [new_outbox c n i ''RUN_QUEUED'' pl]"
  by (simp add: announced_in_def new_outbox_def)

lemma announces_refl: "announces d d"
  by (auto simp: announces_def)

lemma announces_trans:
  assumes "announces d e" "announces e f"
  shows "announces d f"
proof -
  obtain xs where xs: "outbox e = outbox d @ xs" "\<forall>r' \<in> set (cores e). r_execution_status r' = QUEUED \<longrightarrow>
      (\<exists>r \<in> set (cores d). r_id r = r_id r' \<and> r_execution_status r = QUEUED) \<or> announced_in (r_id r') xs"
    using assms(1) by (auto simp: announces_def)
  obtain ys where ys: "outbox f = outbox e @ ys" "\<forall>r' \<in> set (cores f). r_execution_status r' = QUEUED \<longrightarrow>
      (\<exists>r \<in> set (cores e). r_id r = r_id r' \<and> r_execution_status r = QUEUED) \<or> announced_in (r_id r') ys"
    using assms(2) by (auto simp: announces_def)
  show ?thesis
    unfolding announces_def
  proof (intro exI [of _ "xs @ ys"] conjI ballI impI)
    fix r' assume r': "r' \<in> set (cores f)" "r_execution_status r' = QUEUED"
    then consider (old) r where "r \<in> set (cores e)" "r_id r = r_id r'" "r_execution_status r = QUEUED"
      | (new) "announced_in (r_id r') ys" using ys(2) by blast
    then show "(\<exists>r \<in> set (cores d). r_id r = r_id r' \<and> r_execution_status r = QUEUED) \<or> announced_in (r_id r') (xs @ ys)"
    proof cases
      case old
      then show ?thesis using xs(2) unfolding announced_append by metis
    qed (simp add: announced_append)
  qed (simp add: xs(1) ys(1))
qed

text \<open>A run that moves out of QUEUED, or stays out of it, needs no announcement.\<close>

lemma announces_put:
  assumes "cores d' = put_core k (cores d)" "r_execution_status k \<noteq> QUEUED" "\<exists>xs. outbox d' = outbox d @ xs"
  shows "announces d d'"
proof -
  have "r' \<in> set (cores d') \<Longrightarrow> r_execution_status r' = QUEUED \<Longrightarrow> r' \<in> set (cores d)" for r'
    using assms(1,2) by (auto simp: put_core_def split: if_splits)
  then show ?thesis using assms(3) unfolding announces_def by blast
qed

lemma announces_new_run:
  assumes "cores d' = cores d @ [core r]" "outbox d' = outbox d @ [new_outbox c n (r_id r) ''RUN_QUEUED'' pl]"
  shows "announces d d'"
  unfolding announces_def using assms by (intro exI [of _ "[new_outbox c n (r_id r) ''RUN_QUEUED'' pl]"]) auto

lemma finalize_mail:
  "finalize_evaluation_job c n run d = Inr d' \<Longrightarrow> db_wf d \<Longrightarrow> cores d' = cores d \<and> outbox d' = outbox d"
  using finalize_same(1,3) by blast

section \<open>Every unit announces what it queues\<close>

lemma start_announces:
  assumes "start_attempt c lease run w p m d = Inr (res, d')"
  shows "announces d d'"
proof -
  obtain t where c: "cores d' = put_core (core (run\<lparr>r_execution_status := RUNNING, r_lease_owner := Some w,
      r_lease_expires_at := Some t, r_started_at := (case r_started_at run of None \<Rightarrow> Some (c_now c) | Some t \<Rightarrow> Some t)\<rparr>)) (cores d)"
    and o: "outbox d' = outbox d"
    using assms by (auto simp: start_attempt_def Let_def cores_put_run dest!: insert_eventD insert_attemptD)
  show ?thesis by (rule announces_put [OF c]) (simp_all add: o)
qed

lemma defer_announces:
  assumes "defer_run c run d = Inr (res, d')"
  shows "announces d d'"
proof -
  obtain t where "d' = put_run (run\<lparr>r_execution_status := RETRY_SCHEDULED, r_next_attempt_at := Some t\<rparr>) d"
    using assms by (auto simp: defer_run_def)
  then have c: "cores d' = put_core (core (run\<lparr>r_execution_status := RETRY_SCHEDULED, r_next_attempt_at := Some t\<rparr>)) (cores d)"
    and o: "outbox d' = outbox d" by (simp_all add: cores_put_run)
  show ?thesis by (rule announces_put [OF c]) (simp_all add: o)
qed

lemma reject_announces:
  assumes "db_wf d" "reject_run c run d = Inr (res, d')"
  shows "announces d d'"
proof -
  let ?run = "run\<lparr>r_execution_status := FAILED, r_error_code := Some ''INVALID_STORED_POLICY'',
    r_completed_at := Some (c_now c)\<rparr>"
  have f: "finalize_evaluation_job c 0 ?run (put_run ?run d) = Inr d'"
    using assms(2) by (auto simp: reject_run_def Let_def)
  have "cores d' = put_core (core ?run) (cores d)" "outbox d' = outbox d"
    using finalize_mail [OF f wf_put_run [OF assms(1)]] by (simp_all add: cores_put_run)
  then show ?thesis by (intro announces_put) auto
qed

lemma success_announces:
  assumes "db_wf d" "complete_success c i aid w result d = Inr (True, d')"
  shows "announces d d'"
proof -
  obtain run a where run: "get_row i d = Some run" "owns_active_lease run w (c_now c)"
    and a: "row_with a_id aid (attempts d) = Some a" "a_run_id a = i" "a_finished_at a = None"
    using assms(2) by (auto simp: complete_success_def Let_def split: option.splits if_splits)
  let ?a = "a\<lparr>a_provider := x_provider result, a_usage := x_usage result, a_finished_at := Some (c_now c),
    a_outcome := Some ''SUCCEEDED'', a_latency_ms := Some (elapsed_ms (a_started_at a) (c_now c))\<rparr>"
  let ?run = "clear_lease (run\<lparr>r_execution_status := SUCCEEDED,
    r_result_payload := Some (x_result_payload result), r_completed_at := Some (c_now c),
    r_error_code := None, r_next_attempt_at := None\<rparr>)"
  obtain es where f: "finalize_evaluation_job c 1 ?run ((put_run ?run (put_attempt ?a d))\<lparr>events := es\<rparr>) = Inr d'"
    using assms(2) run a by (auto simp: complete_success_def Let_def dest!: insert_eventD)
  have "finishes a ?a" using a(3) by (simp add: finishes_def is_open_def outcome_ok_def)
  then have wf: "db_wf ((put_run ?run (put_attempt ?a d))\<lparr>events := es\<rparr>)"
    unfolding wf_upd using row_with_SomeD [OF a(1)] by (intro wf_finish [OF assms(1)]) auto
  have "cores d' = put_core (core ?run) (cores d)" "outbox d' = outbox d"
    using finalize_mail [OF f wf] by (simp_all add: cores_put_run)
  then show ?thesis by (intro announces_put) (auto simp: clear_lease_def)
qed

lemma fail_announces:
  assumes "db_wf d" "a \<in> set (attempts d)" "a_finished_at a = None" "fail_attempt c n run a err recovery d = Inr d'"
  shows "announces d d'"
proof -
  let ?a = "finish_failed_attempt a (c_now c) err"
  let ?run = "(clear_lease run)\<lparr>r_error_code := Some err\<rparr>"
  have mail: "\<exists>xs. outbox d' = outbox d @ xs"
    using mail.rel_fail_attempt [OF assms(4)] by (simp add: outbox_extends_def)
  obtain p where p: "from_snapshot (r_policy_snapshot run) = Inr p"
    using assms(4) by (auto simp: fail_attempt_def schedule_retry_or_finalize_def Let_def)
  show ?thesis
  proof (cases "a_retryable ?a = Some True \<and> a_number ?a < max_attempts p")
    case True
    then obtain t es where "d' = (put_run (?run\<lparr>r_execution_status := RETRY_SCHEDULED,
        r_next_attempt_at := Some t\<rparr>) (put_attempt ?a d))\<lparr>events := es\<rparr>"
      using assms(4) p by (auto simp: fail_attempt_def schedule_retry_or_finalize_def schedule_retry_def Let_def
          dest!: insert_eventD)
    then have c: "cores d' = put_core (core (?run\<lparr>r_execution_status := RETRY_SCHEDULED,
        r_next_attempt_at := Some t\<rparr>)) (cores d)" by (simp add: cores_put_run)
    show ?thesis by (rule announces_put [OF c]) (simp_all add: clear_lease_def mail)
  next
    case False
    let ?run' = "?run\<lparr>r_next_attempt_at := None, r_completed_at := Some (c_now c),
      r_execution_status := (if a_retryable ?a = Some True then DEAD_LETTERED else FAILED)\<rparr>"
    have b: "bury_run c n ?run ?a err recovery p (put_attempt ?a d) = Inr d'"
      using assms(4) p False
      by (auto simp: fail_attempt_def schedule_retry_or_finalize_def Let_def split: if_splits)
    have c: "cores d' = put_core (core ?run') (cores d)"
      using bury_effect(1) [OF b wf_finish [OF assms(1,2) finishes_failed [OF assms(3)]] refl] by simp
    show ?thesis by (rule announces_put [OF c]) (simp_all add: clear_lease_def mail)
  qed
qed

lemma requeue_announces:
  assumes "requeue_run c n run d = Inr d'"
  shows "announces d d'"
proof -
  let ?run = "run\<lparr>r_execution_status := QUEUED, r_next_attempt_at := None\<rparr>"
  let ?x = "new_outbox c n (r_id run) ''RUN_QUEUED''
    [(''trace_context'', JDict (r_trace_context run)), (''reason'', JStr ''retry_due'')]"
  have d': "cores d' = put_core (core ?run) (cores d)" "outbox d' = outbox d @ [?x]"
    using assms by (auto simp: requeue_run_def cores_put_run dest!: insert_dests)
  have "r' \<in> set (cores d) \<or> r_id r' = r_id run" if "r' \<in> set (cores d')" for r'
    using that d'(1) by (auto simp: put_core_def split: if_splits)
  then show ?thesis
    unfolding announces_def using d'(2) announced_new by (intro exI [of _ "[?x]"]) metis
qed

lemma submit_announces:
  assumes "submit_new c lm client prin key inp pol kind d = Inr (out, d')"
  shows "announces d d'"
proof -
  let ?run = "new_run c 0 client prin kind key (submission_hash kind inp pol) inp pol None"
  have "cores d' = cores d @ [core ?run] \<and>
    outbox d' = outbox d @ [new_outbox c 1 (r_id ?run) ''RUN_QUEUED'' [(''trace_context'', JDict (r_trace_context ?run))]]"
    using assms by (auto simp: submit_new_def Let_def cores_def dest!: insert_runD insert_dests routing_event_same)
  then show ?thesis by (blast intro: announces_new_run)
qed

lemma replay_announces:
  assumes "replay_new c lm client prin key source d = Inr (out, d')"
  shows "announces d d'"
proof -
  let ?run = "new_run c 0 client prin ''execution'' key (replay_hash source)
    (r_input_payload source) (r_policy_snapshot source) (Some (r_id source))"
  have "cores d' = cores d @ [core ?run] \<and> outbox d' = outbox d @ [new_outbox c 1 (r_id ?run) ''RUN_QUEUED''
      [(''trace_context'', JDict (r_trace_context ?run)), (''reason'', JStr ''replay'')]]"
    using assms by (auto simp: replay_new_def Let_def cores_def dest!: insert_runD insert_dests)
  then show ?thesis by (blast intro: announces_new_run)
qed

lemma evaluate_announces:
  assumes "db_wf d" "evaluate schema_ok c lm jt client i rules principal_id d = Inr (snap, d')"
  shows "announces d d'"
proof -
  let ?job = "evaluation_job c jt client (str_or principal_id client) i rules"
  obtain job v where c: "cores d' = cores d @ [core job]"
    using evaluate_effect [OF assms(2,1)] by blast
  have o: "outbox d' = outbox d @ [new_outbox c 3 (r_id ?job) ''RUN_QUEUED'' [(''trace_context'', JDict (r_trace_context ?job))]]"
    and ids: "map r_id (runs d') = map r_id (runs d) @ [r_id ?job]"
    using assms(2) by (auto simp: evaluate_def Let_def dest!: insert_runD insert_dests)
  have "map r_id (cores d') = map r_id (cores d) @ [r_id ?job]" using ids by (simp add: map_id_cores)
  then have "r_id job = r_id ?job" using c by simp
  then show ?thesis using announces_new_run [OF c] o by metis
qed

interpretation news: unit_relation announces
proof
  show "announces d d'" if "charge_provider_call c prin t lm d = Inr d'" for c prin t lm d d'
    using that by (auto simp: charge_Inr_iff announces_def)
qed (blast intro: announces_refl announces_trans start_announces defer_announces reject_announces success_announces
    fail_announces requeue_announces submit_announces replay_announces evaluate_announces)+

end
