(* ===== verification/Runtime_System.thy ===== *)
theory Runtime_System
  imports Worker Announcements
begin

text \<open>
  The whole runtime as a transition system: the database with the transactions of both services, the
  outbox dispatcher, the broker's queues and the deliveries the workers hold. Steps of different
  processes interleave in any order, and any delivery may be lost with its connection at any time.
\<close>

section \<open>States and steps\<close>

text \<open>A delivery is fresh until its worker has claimed the run.\<close>

datatype phase = Fresh | Claimed claim_result

record system =
  sys_db :: db
  sys_publisher :: publisher
  sys_ready :: "message list"
  sys_unacked :: "(message \<times> phase) list"
  sys_dead :: "message list"

definition initial_system :: system where
  "initial_system = \<lparr>sys_db = empty_db, sys_publisher = \<lparr>pub_connected = False, pub_exchanges = []\<rparr>,
     sys_ready = [], sys_unacked = [], sys_dead = []\<rparr>"

text \<open>The bindings of \<open>_get_exchanges\<close>: one key leads to the execution queue, the others to the dead letters.\<close>

definition route :: "message option \<Rightarrow> system \<Rightarrow> system" where
  "route sent s = (case sent of
     None \<Rightarrow> s
   | Some m \<Rightarrow> if m_exchange m = EXCHANGE_NAME \<and> m_routing_key m = ROUTING_KEY
               then s\<lparr>sys_ready := sys_ready s @ [m]\<rparr> else s\<lparr>sys_dead := sys_dead s @ [m]\<rparr>)"

text \<open>What publisher confirms promise: a publication that ended without an error is stored.\<close>

definition confirms :: "broker_io \<Rightarrow> bool" where
  "confirms io \<longleftrightarrow> (\<forall>frame. b_send io = Inr frame \<longrightarrow> frame \<noteq> OtherFrame \<longrightarrow> b_stored io)"

inductive sys_step :: "exec_config \<Rightarrow> system \<Rightarrow> system \<Rightarrow> bool" for cfg where
  transaction: "svc_step cfg (sys_db s) d' \<Longrightarrow> sys_step cfg s (s\<lparr>sys_db := d'\<rparr>)"
| dispatch: "dispatch_one c io (sys_publisher s) (sys_db s) = (Inr (res, d'), p', sent) \<Longrightarrow> confirms io \<Longrightarrow>
    sys_step cfg s (route sent (s\<lparr>sys_db := d', sys_publisher := p'\<rparr>))"
| dispatch_rolled_back: "dispatch_one c io (sys_publisher s) (sys_db s) = (Inl e, p', sent) \<Longrightarrow> confirms io \<Longrightarrow>
    sys_step cfg s (route sent (s\<lparr>sys_publisher := p'\<rparr>))"
| deliver: "sys_ready s = xs @ m # ys \<Longrightarrow>
    sys_step cfg s (s\<lparr>sys_ready := xs @ ys, sys_unacked := (m, Fresh) # sys_unacked s\<rparr>)"
| poison: "sys_unacked s = xs @ (m, Fresh) # ys \<Longrightarrow> run_id_from_message (m_body m) = Inl e \<Longrightarrow>
    sys_step cfg s (s\<lparr>sys_unacked := xs @ ys, sys_dead := sys_dead s @ [m]\<rparr>)"
| refused: "sys_unacked s = xs @ (m, Fresh) # ys \<Longrightarrow> run_id_from_message (m_body m) = Inr i \<Longrightarrow>
    claim c cfg i w (sys_db s) = Inr (cl, d') \<Longrightarrow> cl_decision cl \<noteq> CLAIMED \<Longrightarrow>
    sys_step cfg s (s\<lparr>sys_unacked := xs @ ys, sys_db := d'\<rparr>)"
| taken: "sys_unacked s = xs @ (m, Fresh) # ys \<Longrightarrow> run_id_from_message (m_body m) = Inr i \<Longrightarrow>
    claim c cfg i w (sys_db s) = Inr (cl, d') \<Longrightarrow> cl_decision cl = CLAIMED \<Longrightarrow>
    sys_step cfg s (s\<lparr>sys_unacked := xs @ (m, Claimed cl) # ys, sys_db := d'\<rparr>)"
| succeeded: "sys_unacked s = xs @ (m, Claimed cl) # ys \<Longrightarrow> cl_attempt_id cl = Some aid \<Longrightarrow>
    complete_success c (cl_run_id cl) aid w result (sys_db s) = Inr (persisted, d') \<Longrightarrow>
    sys_step cfg s (s\<lparr>sys_unacked := xs @ ys, sys_db := d',
      sys_ready := (if persisted then sys_ready s else sys_ready s @ [m])\<rparr>)"
| failed: "sys_unacked s = xs @ (m, Claimed cl) # ys \<Longrightarrow> cl_attempt_id cl = Some aid \<Longrightarrow>
    complete_failure c (cl_run_id cl) aid w err (sys_db s) = Inr (persisted, d') \<Longrightarrow>
    sys_step cfg s (s\<lparr>sys_unacked := xs @ ys, sys_db := d',
      sys_ready := (if persisted then sys_ready s else sys_ready s @ [m])\<rparr>)"
| returned: "sys_unacked s = xs @ (m, ph) # ys \<Longrightarrow>
    sys_step cfg s (s\<lparr>sys_unacked := xs @ ys, sys_ready := sys_ready s @ [m]\<rparr>)"

section \<open>Notices\<close>

text \<open>A message that will still lead to a claim of the run.\<close>

definition in_queue :: "uuid \<Rightarrow> system \<Rightarrow> bool" where
  "in_queue i s \<longleftrightarrow> (\<exists>m \<in> set (sys_ready s). run_id_from_message (m_body m) = Inr i) \<or>
     (\<exists>m. (m, Fresh) \<in> set (sys_unacked s) \<and> run_id_from_message (m_body m) = Inr i)"

definition noticed :: "uuid \<Rightarrow> system \<Rightarrow> bool" where
  "noticed i s \<longleftrightarrow> announced_in i (outbox (sys_db s)) \<or> in_queue i s"

definition sys_ok :: "exec_config \<Rightarrow> system \<Rightarrow> bool" where
  "sys_ok cfg s \<longleftrightarrow> db_ok cfg (sys_db s) \<and> distinct (map o_id (outbox (sys_db s))) \<and>
     (\<forall>r \<in> set (cores (sys_db s)). r_execution_status r = QUEUED \<longrightarrow> noticed (r_id r) s)"

lemma db_ok_same_tables: "cores d' = cores d \<Longrightarrow> attempts d' = attempts d \<Longrightarrow> db_ok cfg d' = db_ok cfg d"
proof -
  assume c: "cores d' = cores d" and a: "attempts d' = attempts d"
  have "life_of j d' = life_of j d" for j using c a by (rule same_life)
  then show ?thesis
    by (simp add: db_ok_def db_wf_def principals_ok_def lives_ok_def quotas_kept_def below_def c a)
qed

section \<open>Dispatching\<close>

lemma put_outbox_cores [simp]: "cores (put_outbox x d) = cores d" "attempts (put_outbox x d) = attempts d"
  by (simp_all add: put_outbox_def cores_def)

lemma next_event_mem: "next_event c d = Some ev \<Longrightarrow> ev \<in> set (outbox d) \<and> o_published_at ev = None"
proof -
  let ?l = "filter (\<lambda>x. o_published_at x = None \<and> o_id x \<notin> set (c_locked c)) (outbox d)"
  assume "next_event c d = Some ev"
  then obtain rest where eq: "sort_key o_created_at ?l = ev # rest" unfolding next_event_def by (cases "sort_key o_created_at ?l") simp_all
  have "ev \<in> set (sort_key o_created_at ?l)" unfolding eq by simp
  then have "ev \<in> set ?l" by (simp only: set_sort)
  then show ?thesis by simp
qed

text \<open>A dispatch leaves runs and attempts alone and changes one outbox row.\<close>

definition outbox_change :: "broker_io \<Rightarrow> publisher \<Rightarrow> message option \<Rightarrow> db \<Rightarrow> db \<Rightarrow> bool" where
  "outbox_change io p sent d d' \<longleftrightarrow> (\<exists>ev ev'. ev \<in> set (outbox d) \<and> o_published_at ev = None \<and>
     o_id ev' = o_id ev \<and> o_aggregate_id ev' = o_aggregate_id ev \<and> o_type ev' = o_type ev \<and>
     outbox d' = outbox (put_outbox ev' d) \<and>
     (o_published_at ev' = None \<or> (\<exists>p'. publish io ev p = (Inr (), p', sent))))"

lemma outbox_changeI:
  assumes "ev \<in> set (outbox d)" "o_published_at ev = None" "o_id ev' = o_id ev" "o_aggregate_id ev' = o_aggregate_id ev"
    "o_type ev' = o_type ev" "outbox d' = outbox (put_outbox ev' d)"
    "o_published_at ev' = None \<or> (\<exists>p'. publish io ev p = (Inr (), p', sent))"
  shows "outbox_change io p sent d d'"
  unfolding outbox_change_def using assms by blast

lemma dispatch_effect:
  assumes "dispatch_one c io p d = (Inr (res, d'), p', sent)"
  shows "cores d' = cores d \<and> attempts d' = attempts d \<and> (d' = d \<or> outbox_change io p sent d d')"
proof (cases "next_event c d")
  case None
  then show ?thesis using assms by (simp add: dispatch_one_def)
next
  case (Some ev)
  note mem = next_event_mem [OF Some]
  obtain out p1 sent1 where pub: "publish io ev p = (out, p1, sent1)" by (metis prod_cases3)
  show ?thesis
  proof (cases out)
    case (Inl e)
    let ?ev = "ev\<lparr>o_publish_attempts := o_publish_attempts ev + 1, o_last_error := Some (exn_name e)\<rparr>"
    have "record_failure c ev e d = Inr (res, d')" using assms Some pub Inl by (simp add: dispatch_one_def)
    then obtain es where d': "d' = (put_outbox ?ev d)\<lparr>events := es\<rparr>"
      by (auto simp: record_failure_def dest!: insert_eventD)
    have "outbox_change io p sent d d'" by (rule outbox_changeI [of ev d ?ev]) (simp_all add: mem d')
    then show ?thesis by (simp add: d')
  next
    case (Inr u)
    let ?ev = "ev\<lparr>o_publish_attempts := o_publish_attempts ev + 1, o_published_at := Some (c_now c), o_last_error := None\<rparr>"
    have rec: "record_success c ev d = Inr (res, d')" and "sent1 = sent"
      using assms Some pub Inr by (simp_all add: dispatch_one_def)
    then obtain es where d': "d' = (put_outbox ?ev d)\<lparr>events := es\<rparr>"
      by (auto simp: record_success_def dest!: insert_eventD)
    have "outbox_change io p sent d d'"
      by (rule outbox_changeI [of ev d ?ev]) (use pub Inr \<open>sent1 = sent\<close> in \<open>simp_all add: mem d'\<close>)
    then show ?thesis by (simp add: d')
  qed
qed

lemma publish_stored:
  assumes "publish io ev p = (Inr u, p', sent)" "confirms io"
  shows "\<exists>x k. sent = Some (message_for x k ev) \<and> (o_type ev = ''RUN_QUEUED'' \<longrightarrow> x = EXCHANGE_NAME \<and> k = ROUTING_KEY)"
proof -
  obtain out p1 where dest: "destination_for io ev p = (out, p1)" by fastforce
  then obtain x k where xk: "out = Inr (x, k)" using assms(1) by (cases out) (auto simp: publish_def)
  then obtain frame where f: "b_send io = Inr frame" "frame \<noteq> OtherFrame"
    using assms(1) dest by (cases "b_send io") (auto simp: publish_def Let_def split: if_splits)
  then have "b_stored io" using assms(2) by (auto simp: confirms_def)
  then have "sent = Some (message_for x k ev)" using assms(1) dest xk f by (simp add: publish_def)
  moreover have "o_type ev = ''RUN_QUEUED'' \<longrightarrow> x = EXCHANGE_NAME \<and> k = ROUTING_KEY"
  proof
    assume q: "o_type ev = ''RUN_QUEUED''"
    obtain names p2 where g: "get_exchanges io p = (names, p2)" by fastforce
    then show "x = EXCHANGE_NAME \<and> k = ROUTING_KEY"
      using dest xk q by (cases names) (auto simp: destination_for_def exchange_named_def split: if_splits)
  qed
  ultimately show ?thesis by blast
qed

lemma route_fields [simp]:
  "sys_db (route sent s) = sys_db s" "sys_unacked (route sent s) = sys_unacked s"
  "set (sys_ready s) \<subseteq> set (sys_ready (route sent s))"
  by (auto simp: route_def split: option.splits)

lemma in_queue_route: "in_queue i s \<Longrightarrow> sys_ready s = sys_ready t \<Longrightarrow> sys_unacked s = sys_unacked t \<Longrightarrow> in_queue i (route sent t)"
  unfolding in_queue_def using route_fields(2) [of sent t] route_fields(3) [of t sent] by (metis subsetD)

lemma in_queue_sent:
  assumes "o_aggregate_id ev = i"
  shows "in_queue i (route (Some (message_for EXCHANGE_NAME ROUTING_KEY ev)) s)"
  using published_run_id [of ev] assms by (auto simp: in_queue_def route_def message_for_def)

lemma noticed_dispatch:
  assumes "outbox_change io p sent (sys_db s) d'" "confirms io" "distinct (map o_id (outbox (sys_db s)))" "noticed i s"
  shows "noticed i (route sent (s\<lparr>sys_db := d', sys_publisher := p'\<rparr>))"
proof (cases "in_queue i s")
  case True
  then show ?thesis by (simp add: noticed_def in_queue_route)
next
  case False
  then obtain x where x: "x \<in> set (outbox (sys_db s))" "o_aggregate_id x = i" "o_type x = ''RUN_QUEUED''" "o_published_at x = None"
    using assms(4) by (auto simp: noticed_def announced_in_def)
  obtain ev ev' where ev: "ev \<in> set (outbox (sys_db s))" "o_id ev' = o_id ev" "o_aggregate_id ev' = o_aggregate_id ev"
    "o_type ev' = o_type ev" "outbox d' = outbox (put_outbox ev' (sys_db s))"
    "o_published_at ev' = None \<or> (\<exists>p'. publish io ev p = (Inr (), p', sent))"
    using assms(1) unfolding outbox_change_def by blast
  have out: "outbox d' = map (\<lambda>y. if o_id y = o_id ev then ev' else y) (outbox (sys_db s))"
    by (simp add: ev(2,5) put_outbox_def rewrite_def)
  show ?thesis
  proof (cases "x = ev")
    case False
    then have "o_id x \<noteq> o_id ev" using distinct_keyD [OF assms(3) x(1) ev(1)] by blast
    then have "x \<in> set (outbox d')" using x(1) unfolding out by force
    then show ?thesis using x by (auto simp: noticed_def announced_in_def)
  next
    case True
    have "ev' \<in> set (outbox d')" using ev(1) unfolding out by force
    then show ?thesis
    proof (cases "o_published_at ev' = None")
      case True
      then show ?thesis using \<open>ev' \<in> set (outbox d')\<close> \<open>x = ev\<close> x ev(3,4) by (auto simp: noticed_def announced_in_def)
    next
      case False
      then obtain q where "publish io ev p = (Inr (), q, sent)" using ev(6) by auto
      then have "sent = Some (message_for EXCHANGE_NAME ROUTING_KEY ev)"
        using publish_stored [OF _ assms(2)] x(3) \<open>x = ev\<close> by blast
      then show ?thesis using in_queue_sent [of ev i] x(2) \<open>x = ev\<close> by (simp add: noticed_def)
    qed
  qed
qed

section \<open>Claims and transactions\<close>

lemma life_step_unqueue: "life_step b (r, as) (k, bs) \<Longrightarrow> r_execution_status r = QUEUED \<Longrightarrow> r_execution_status k \<noteq> QUEUED"
  by (cases rule: life_step.cases) auto

lemma claim_leaves_queue:
  assumes "claim c cfg i w d = Inr (cl, d')" "db_wf d" "r' \<in> set (cores d')" "r_execution_status r' = QUEUED"
  shows "r_id r' \<noteq> i"
proof (cases "get_row i d")
  case None
  then have "d' = d" using assms(1) by (simp add: claim_def)
  moreover have "row_with r_id i (cores d) = None" using None by (simp add: row_with_cores)
  ultimately show ?thesis using assms(3) by (auto simp: row_with_None)
next
  case (Some run)
  have id: "r_id run = i" using get_row_SomeD [OF Some] by simp
  show ?thesis
  proof (cases "r_execution_status run = QUEUED")
    case False
    then have "d' = d" using claim_refused [OF Some False, of c cfg w] assms(1) by auto
    moreover have "distinct (map r_id (cores d))" using assms(2) by (simp add: db_wf_def)
    ultimately show ?thesis
      using row_with_distinct [of r_id "cores d" r'] get_row_core [OF Some] assms(3,4) False by auto
  next
    case True
    then have q: "claim_queued c cfg run w d = Inr (cl, d')" using assms(1) Some by (simp add: claim_def)
    have m: "moves cfg i d d'"
      using q id start_moves [OF _ assms(2) Some True] defer_moves [OF _ assms(2) Some True]
        reject_moves [OF _ assms(2) Some True]
      by (auto simp: claim_queued_def Let_def not_less split: if_splits sum.splits)
    then obtain r k where r: "row_with r_id i (cores d) = Some r" "cores d' = put_core k (cores d)"
      and step: "life_step (exec_max_attempts cfg) (r, attempts_of i d) (k, attempts_of i d')" by (auto simp: moves_def)
    have "r = core run" using get_row_core [OF Some] r(1) by simp
    then have rq: "r_execution_status r = QUEUED" "r_id r = i" using True id by simp_all
    have k: "r_id k = i" "r_execution_status k \<noteq> QUEUED"
      using life_step_fixed(1) [OF step] life_step_unqueue [OF step rq(1)] rq(2) by simp_all
    show ?thesis using assms(3,4) r(2) k by (auto simp: put_core_def split: if_splits)
  qed
qed

lemma notices_kept:
  assumes "\<forall>r \<in> set (cores (sys_db s)). r_execution_status r = QUEUED \<longrightarrow> noticed (r_id r) s"
    and "announces (sys_db s) (sys_db t)"
    and keep: "\<And>r'. r' \<in> set (cores (sys_db t)) \<Longrightarrow> r_execution_status r' = QUEUED \<Longrightarrow>
      in_queue (r_id r') s \<Longrightarrow> in_queue (r_id r') t"
  shows "\<forall>r \<in> set (cores (sys_db t)). r_execution_status r = QUEUED \<longrightarrow> noticed (r_id r) t"
proof (intro ballI impI)
  fix r' assume r': "r' \<in> set (cores (sys_db t))" "r_execution_status r' = QUEUED"
  obtain xs where xs: "outbox (sys_db t) = outbox (sys_db s) @ xs"
    "(\<exists>r \<in> set (cores (sys_db s)). r_id r = r_id r' \<and> r_execution_status r = QUEUED) \<or> announced_in (r_id r') xs"
    using assms(2) r' unfolding announces_def by blast
  then consider (old) "noticed (r_id r') s" | (new) "announced_in (r_id r') xs" using assms(1) by metis
  then show "noticed (r_id r') t"
  proof cases
    case old
    then show ?thesis using keep [OF r'] xs(1) by (auto simp: noticed_def announced_append)
  qed (simp add: noticed_def xs(1) announced_append)
qed

text \<open>A step whose database part is a transaction of the services keeps the invariant if no notice of a queued run is lost.\<close>

lemma sys_ok_transaction:
  assumes "sys_ok cfg s" "svc_step cfg (sys_db s) (sys_db t)"
    and "\<And>r'. r' \<in> set (cores (sys_db t)) \<Longrightarrow> r_execution_status r' = QUEUED \<Longrightarrow>
      in_queue (r_id r') s \<Longrightarrow> in_queue (r_id r') t"
  shows "sys_ok cfg t"
proof -
  have ok: "db_ok cfg (sys_db s)" and dist: "distinct (map o_id (outbox (sys_db s)))"
    using assms(1) unfolding sys_ok_def by blast+
  have old: "\<forall>r \<in> set (cores (sys_db s)). r_execution_status r = QUEUED \<longrightarrow> noticed (r_id r) s"
    using assms(1) unfolding sys_ok_def by blast
  have "announces (sys_db s) (sys_db t)" using news.rel_step [OF assms(2)] ok by (simp add: db_ok_def)
  then have "\<forall>r \<in> set (cores (sys_db t)). r_execution_status r = QUEUED \<longrightarrow> noticed (r_id r) t"
    by (rule notices_kept [OF old]) (rule assms(3))
  then show ?thesis
    using svc.inv_step [OF assms(2) ok] mail.rel_step [OF assms(2)] dist by (simp add: sys_ok_def outbox_extends_def)
qed

lemma sys_ok_same_db:
  assumes "sys_ok cfg s" "sys_db t = sys_db s" "\<And>i. in_queue i s \<Longrightarrow> in_queue i t"
  shows "sys_ok cfg t"
  using assms by (auto simp: sys_ok_def noticed_def)

lemma in_queue_mono:
  assumes "in_queue i s" "set (sys_ready s) \<subseteq> set (sys_ready t) \<union> M" "set (sys_unacked s) \<subseteq> set (sys_unacked t) \<union> U"
    and "\<And>m. m \<in> M \<Longrightarrow> run_id_from_message (m_body m) = Inr i \<Longrightarrow> in_queue i t"
    and "\<And>m. (m, Fresh) \<in> U \<Longrightarrow> run_id_from_message (m_body m) = Inr i \<Longrightarrow> in_queue i t"
  shows "in_queue i t"
  using assms unfolding in_queue_def by blast

lemma in_queue_ready: "m \<in> set (sys_ready s) \<Longrightarrow> run_id_from_message (m_body m) = Inr i \<Longrightarrow> in_queue i s"
  by (auto simp: in_queue_def)

lemma in_queue_fresh: "(m, Fresh) \<in> set (sys_unacked s) \<Longrightarrow> run_id_from_message (m_body m) = Inr i \<Longrightarrow> in_queue i s"
  by (auto simp: in_queue_def)

lemma sys_ok_dispatch:
  assumes "dispatch_one c io (sys_publisher s) (sys_db s) = (Inr (res, d'), p', sent)" "confirms io" "sys_ok cfg s"
  shows "sys_ok cfg (route sent (s\<lparr>sys_db := d', sys_publisher := p'\<rparr>))"
proof -
  let ?t = "route sent (s\<lparr>sys_db := d', sys_publisher := p'\<rparr>)"
  have eff: "cores d' = cores (sys_db s)" "attempts d' = attempts (sys_db s)"
    "d' = sys_db s \<or> outbox_change io (sys_publisher s) sent (sys_db s) d'" using dispatch_effect [OF assms(1)] by auto
  have ok: "db_ok cfg (sys_db s)" and dist: "distinct (map o_id (outbox (sys_db s)))"
    and old: "\<forall>r \<in> set (cores (sys_db s)). r_execution_status r = QUEUED \<longrightarrow> noticed (r_id r) s"
    using assms(3) unfolding sys_ok_def by blast+
  have notice: "noticed i ?t" if "noticed i s" for i
    using eff(3)
  proof
    assume "d' = sys_db s"
    then show ?thesis using that by (auto simp: noticed_def intro: in_queue_route)
  qed (rule noticed_dispatch [OF _ assms(2) dist that])
  have "map o_id (outbox d') = map o_id (outbox (sys_db s))"
    using eff(3) by (auto simp: outbox_change_def put_outbox_def map_key_rewrite)
  then show ?thesis
    unfolding sys_ok_def route_fields using db_ok_same_tables [OF eff(1,2)] ok dist old notice eff(1) by simp
qed

lemma sys_ok_step: "sys_step cfg s t \<Longrightarrow> sys_ok cfg s \<Longrightarrow> sys_ok cfg t"
proof (induction rule: sys_step.induct)
  case (transaction s d')
  then show ?case by (intro sys_ok_transaction [OF transaction.prems]) (simp_all add: in_queue_def)
next
  case (dispatch c io s res d' p' sent)
  then show ?case by (intro sys_ok_dispatch)
next
  case (dispatch_rolled_back c io s e p' sent)
  then show ?case by (intro sys_ok_same_db [OF dispatch_rolled_back.prems]) (auto intro: in_queue_route)
next
  case (deliver s xs m ys)
  show ?case
  proof (rule sys_ok_same_db [OF deliver.prems])
    fix i assume "in_queue i s"
    then show "in_queue i (s\<lparr>sys_ready := xs @ ys, sys_unacked := (m, Fresh) # sys_unacked s\<rparr>)"
      by (rule in_queue_mono [where M = "{m}" and U = "{}"]) (use deliver.hyps in \<open>auto intro: in_queue_fresh\<close>)
  qed simp
next
  case (poison s xs m ys e)
  show ?case
  proof (rule sys_ok_same_db [OF poison.prems])
    fix i assume "in_queue i s"
    then show "in_queue i (s\<lparr>sys_unacked := xs @ ys, sys_dead := sys_dead s @ [m]\<rparr>)"
      by (rule in_queue_mono [where M = "{}" and U = "{(m, Fresh)}"]) (use poison.hyps in auto)
  qed simp
next
  case (refused s xs m ys i c w cl d')
  have wf: "db_wf (sys_db s)" using refused.prems by (simp add: sys_ok_def db_ok_def)
  show ?case
  proof (rule sys_ok_transaction [OF refused.prems])
    show "svc_step cfg (sys_db s) (sys_db (s\<lparr>sys_unacked := xs @ ys, sys_db := d'\<rparr>))"
      using step_claim [OF refused.hyps(3)] by simp
    fix r' assume r': "r' \<in> set (cores (sys_db (s\<lparr>sys_unacked := xs @ ys, sys_db := d'\<rparr>)))" "r_execution_status r' = QUEUED"
      "in_queue (r_id r') s"
    then have other: "r_id r' \<noteq> i" using claim_leaves_queue [OF refused.hyps(3) wf] by simp
    show "in_queue (r_id r') (s\<lparr>sys_unacked := xs @ ys, sys_db := d'\<rparr>)"
      by (rule in_queue_mono [OF r'(3), where M = "{}" and U = "{(m, Fresh)}"]) (use refused.hyps other in auto)
  qed
next
  case (taken s xs m ys i c w cl d')
  have wf: "db_wf (sys_db s)" using taken.prems by (simp add: sys_ok_def db_ok_def)
  show ?case
  proof (rule sys_ok_transaction [OF taken.prems])
    show "svc_step cfg (sys_db s) (sys_db (s\<lparr>sys_unacked := xs @ (m, Claimed cl) # ys, sys_db := d'\<rparr>))"
      using step_claim [OF taken.hyps(3)] by simp
    fix r' assume r': "r' \<in> set (cores (sys_db (s\<lparr>sys_unacked := xs @ (m, Claimed cl) # ys, sys_db := d'\<rparr>)))"
      "r_execution_status r' = QUEUED" "in_queue (r_id r') s"
    then have other: "r_id r' \<noteq> i" using claim_leaves_queue [OF taken.hyps(3) wf] by simp
    show "in_queue (r_id r') (s\<lparr>sys_unacked := xs @ (m, Claimed cl) # ys, sys_db := d'\<rparr>)"
      by (rule in_queue_mono [OF r'(3), where M = "{}" and U = "{(m, Fresh)}"]) (use taken.hyps other in auto)
  qed
next
  case (succeeded s xs m cl ys aid c w result persisted d')
  show ?case
  proof (rule sys_ok_transaction [OF succeeded.prems])
    fix r' assume "in_queue (r_id r') s"
    then show "in_queue (r_id r') (s\<lparr>sys_unacked := xs @ ys, sys_db := d',
        sys_ready := (if persisted then sys_ready s else sys_ready s @ [m])\<rparr>)"
      by (rule in_queue_mono [where M = "{}" and U = "{(m, Claimed cl)}"]) (use succeeded.hyps in auto)
  qed (use step_success [OF succeeded.hyps(3)] in simp)
next
  case (failed s xs m cl ys aid c w err persisted d')
  show ?case
  proof (rule sys_ok_transaction [OF failed.prems])
    fix r' assume "in_queue (r_id r') s"
    then show "in_queue (r_id r') (s\<lparr>sys_unacked := xs @ ys, sys_db := d',
        sys_ready := (if persisted then sys_ready s else sys_ready s @ [m])\<rparr>)"
      by (rule in_queue_mono [where M = "{}" and U = "{(m, Claimed cl)}"]) (use failed.hyps in auto)
  qed (use step_failure [OF failed.hyps(3)] in simp)
next
  case (returned s xs m ph ys)
  show ?case
  proof (rule sys_ok_same_db [OF returned.prems])
    fix i assume "in_queue i s"
    then show "in_queue i (s\<lparr>sys_unacked := xs @ ys, sys_ready := sys_ready s @ [m]\<rparr>)"
      by (rule in_queue_mono [where M = "{}" and U = "{(m, ph)}"]) (use returned.hyps in \<open>auto intro: in_queue_ready\<close>)
  qed simp
qed

interpretation sys: inductive_invariant "\<lambda>s. s = initial_system" "sys_step cfg" "sys_ok cfg" for cfg
proof
  have "db_ok cfg empty_db" using reachable_ok [of cfg empty_db] by (simp add: reachable_db_def)
  then show "s = initial_system \<Longrightarrow> sys_ok cfg s" for s
    by (simp add: sys_ok_def initial_system_def) (simp add: empty_db_def cores_def)
qed (rule sys_ok_step)

section \<open>No run is lost\<close>

text \<open>
  C5. No accepted run is ever lost, however processes interleave, fail and redeliver: in every
  reachable state a run that has not ended is QUEUED with a notice of it still on its way to a worker
  (an unpublished outbox row, a message in the queue or an unclaimed delivery), or RUNNING under a
  lease that recovery picks up once it expires, or waiting for a retry that the scheduler picks up
  once it is due.
\<close>

theorem no_run_is_lost:
  assumes "(sys_step cfg)\<^sup>*\<^sup>* initial_system s" "get_row i (sys_db s) = Some r"
    and "\<not> is_terminal_execution_status (r_execution_status r)"
  shows "r_execution_status r = QUEUED \<and> noticed i s \<or>
    r_execution_status r = RUNNING \<and> (\<exists>t. r_lease_expires_at r = Some t \<and> (\<forall>now \<ge> t. lease_expired now r)) \<or>
    r_execution_status r = RETRY_SCHEDULED \<and> (\<exists>t. r_next_attempt_at r = Some t \<and> (\<forall>now \<ge> t. retry_due now r))"
proof -
  have ok: "sys_ok cfg s" using sys.inv_reachable [OF refl assms(1)] .
  have mem: "core r \<in> set (cores (sys_db s))" "r_id r = i"
    using get_row_SomeD [OF assms(2)] by (simp_all add: cores_def)
  have "life_ok (exec_max_attempts cfg) (r, attempts_of i (sys_db s))"
    by (rule db_ok_life [OF _ assms(2)]) (use ok in \<open>simp add: sys_ok_def\<close>)
  then have f: "r_execution_status r = RUNNING \<longleftrightarrow> r_lease_expires_at r \<noteq> None"
    "r_execution_status r = RETRY_SCHEDULED \<longleftrightarrow> r_next_attempt_at r \<noteq> None" by (auto simp: fields_ok_def)
  show ?thesis
  proof (cases "r_execution_status r")
    case QUEUED
    have "\<forall>r \<in> set (cores (sys_db s)). r_execution_status r = QUEUED \<longrightarrow> noticed (r_id r) s"
      using ok unfolding sys_ok_def by blast
    then have "r_execution_status (core r) = QUEUED \<longrightarrow> noticed (r_id (core r)) s" using mem(1) by blast
    then show ?thesis using QUEUED mem(2) by simp
  next
    case RUNNING
    then show ?thesis using f(1) by (auto simp: lease_expired_def)
  next
    case RETRY_SCHEDULED
    then show ?thesis using f(2) by (auto simp: retry_due_def)
  qed (use assms(3) in auto)
qed

theorem no_run_is_lost_witness:
  "\<exists>s. (sys_step sample_cfg)\<^sup>*\<^sup>* initial_system s \<and> get_row 1 (sys_db s) = Some sample_run \<and> noticed 1 s"
proof -
  let ?s = "initial_system\<lparr>sys_db := sample_queued\<rparr>"
  have q: "exec_quotas sample_cfg = default_quotas" by (simp add: sample_cfg_def)
  have "svc_step sample_cfg (sys_db initial_system) sample_queued"
    using step_submit [OF submit_sample [folded q]] by (simp add: initial_system_def)
  then have path: "(sys_step sample_cfg)\<^sup>*\<^sup>* initial_system ?s" using transaction by blast
  have row: "get_row 1 (sys_db ?s) = Some sample_run" using sample_rows(2) by simp
  have "\<not> is_terminal_execution_status (r_execution_status sample_run)" using sample_rows(5) by simp
  then show ?thesis using no_run_is_lost [OF path row] path row sample_rows(5) by auto
qed

section \<open>The worker's handler is a sequence of steps\<close>

definition settle :: "settlement \<Rightarrow> message \<Rightarrow> system \<Rightarrow> system" where
  "settle st m s = (case st of
     Acked \<Rightarrow> s
   | Nacked \<Rightarrow> s\<lparr>sys_ready := sys_ready s @ [m]\<rparr>
   | Rejected \<Rightarrow> s\<lparr>sys_dead := sys_dead s @ [m]\<rparr>
   | Unsettled \<Rightarrow> s)"

lemma transactions: "(svc_step cfg)\<^sup>*\<^sup>* (sys_db s) d' \<Longrightarrow> (sys_step cfg)\<^sup>*\<^sup>* s (s\<lparr>sys_db := d'\<rparr>)"
proof (induction rule: rtranclp_induct)
  case (step e f)
  then have "svc_step cfg (sys_db (s\<lparr>sys_db := e\<rparr>)) f" by simp
  then have "sys_step cfg (s\<lparr>sys_db := e\<rparr>) (s\<lparr>sys_db := e\<rparr>\<lparr>sys_db := f\<rparr>)" by (rule transaction)
  then show ?case using step.IH by simp
qed simp

text \<open>The last transaction of a delivery and the settlement that follows it.\<close>

lemma last_step:
  assumes "sys_unacked s = xs @ (m, Claimed cl) # ys" "cl_attempt_id cl = Some aid" "cl_run_id cl = i"
    and "x = (case out of
        Inl e \<Rightarrow> committed (complete_failure c i aid w (error_code_value (classify_exception e)) (sys_db s)) (sys_db s)
      | Inr result \<Rightarrow> committed (complete_success c i aid w result (sys_db s)) (sys_db s))"
    and "\<And>out' d3. x = (out', d3) \<Longrightarrow> (if st = Acked then out' = Inr True else st = Nacked \<and> out' \<noteq> Inr True) \<and> d' = d3"
  shows "sys_step cfg s (settle st m (s\<lparr>sys_unacked := xs @ ys, sys_db := d'\<rparr>)) \<and> st \<noteq> Unsettled"
proof -
  have go: "sys_step cfg s (settle st m (s\<lparr>sys_unacked := xs @ ys, sys_db := d'\<rparr>)) \<and> st \<noteq> Unsettled"
    if x: "x = committed r (sys_db s)" and step: "\<And>ok d3. r = Inr (ok, d3) \<Longrightarrow> sys_step cfg s
      (s\<lparr>sys_unacked := xs @ ys, sys_db := d3, sys_ready := (if ok then sys_ready s else sys_ready s @ [m])\<rparr>)" for r
  proof (cases r)
    case (Inl e)
    then have "st = Nacked" "d' = sys_db s" using assms(5) [of "Inl e" "sys_db s"] x by (auto simp: committed_def split: if_splits)
    then show ?thesis using returned [OF assms(1), of cfg] by (auto simp: settle_def)
  next
    case (Inr y)
    obtain ok d3 where y: "y = (ok, d3)" by (cases y)
    then have "x = (Inr ok, d3)" using x Inr by (simp add: committed_def)
    then have "st = (if ok then Acked else Nacked)" "d' = d3" using assms(5) by (auto split: if_splits)
    then show ?thesis using step [of ok d3] Inr y by (cases ok) (auto simp: settle_def)
  qed
  show ?thesis
  proof (cases out)
    case (Inl e)
    then show ?thesis using go [of "complete_failure c i aid w (error_code_value (classify_exception e)) (sys_db s)"]
        failed [OF assms(1,2)] assms(3,4) by simp
  next
    case (Inr result)
    then show ?thesis using go [of "complete_success c i aid w result (sys_db s)"] succeeded [OF assms(1,2)] assms(3,4) by simp
  qed
qed

lemma claimed_delivery_is_steps:
  assumes h: "handle_run_delivery (sql_store cfg) execute c c' w i (sys_db s) = (st, e, d')"
    and un: "sys_unacked s = xs @ (m, Fresh) # ys" and id: "run_id_from_message (m_body m) = Inr i"
    and cl: "claim c cfg i w (sys_db s) = Inr (cl, d1)" and dec: "cl_decision cl = CLAIMED"
    and keeps: "keeps_steps (svc_step cfg) execute"
  shows "(sys_step cfg)\<^sup>*\<^sup>* s (settle st m (s\<lparr>sys_unacked := xs @ ys, sys_db := d'\<rparr>)) \<and> st \<noteq> Unsettled"
proof -
  have scl: "st_claim (sql_store cfg) c i w (sys_db s) = Inr (cl, d1)" using cl by simp
  obtain aid out d2 where att: "run_attempt execute w cl aid (the (cl_input_payload cl)) (the (cl_policy_snapshot cl))
      (the (cl_provider cl)) d1 = (out, d2)" and aid: "cl_attempt_id cl = Some aid"
    and ex: "execute_claim (sql_store cfg) execute c' w cl d1 = (case out of
      Inl e \<Rightarrow> committed (st_failure (sql_store cfg) c' i aid w (error_code_value (classify_exception e)) d2) d2
    | Inr result \<Rightarrow> committed (st_success (sql_store cfg) c' i aid w result d2) d2)"
    using sql.claim_is_executable [OF scl dec, of execute c'] by blast
  let ?s1 = "s\<lparr>sys_unacked := xs @ (m, Claimed cl) # ys, sys_db := d1\<rparr>"
  let ?s2 = "?s1\<lparr>sys_db := d2\<rparr>"
  have "sys_step cfg s ?s1" by (rule taken [OF un id cl dec])
  moreover have "(sys_step cfg)\<^sup>*\<^sup>* ?s1 ?s2"
    using transactions [of cfg ?s1 d2] sql.run_attempt_path [OF keeps att] by simp
  ultimately have path: "(sys_step cfg)\<^sup>*\<^sup>* s ?s2" by (rule converse_rtranclp_into_rtranclp)
  have "sys_step cfg ?s2 (settle st m (?s2\<lparr>sys_unacked := xs @ ys, sys_db := d'\<rparr>)) \<and> st \<noteq> Unsettled"
  proof (rule last_step)
    show "sys_unacked ?s2 = xs @ (m, Claimed cl) # ys" by simp
    show "cl_attempt_id cl = Some aid" by (rule aid)
    show "cl_run_id cl = i" using sql.claimed_payload [OF scl dec] by simp
    show "execute_claim (sql_store cfg) execute c' w cl d1 = (case out of
        Inl e \<Rightarrow> committed (complete_failure c' i aid w (error_code_value (classify_exception e)) (sys_db ?s2)) (sys_db ?s2)
      | Inr result \<Rightarrow> committed (complete_success c' i aid w result (sys_db ?s2)) (sys_db ?s2))"
      using ex by (cases out) simp_all
    show "(if st = Acked then out' = Inr True else st = Nacked \<and> out' \<noteq> Inr True) \<and> d' = d3" if
      "execute_claim (sql_store cfg) execute c' w cl d1 = (out', d3)" for out' d3
      using h cl dec that by (auto simp: handle_run_delivery_def split: sum.splits if_splits)
  qed
  moreover have "?s2\<lparr>sys_unacked := xs @ ys, sys_db := d'\<rparr> = s\<lparr>sys_unacked := xs @ ys, sys_db := d'\<rparr>" by simp
  ultimately show ?thesis using rtranclp.rtrancl_into_rtrancl [OF path] by metis
qed

text \<open>
  C6. The worker's handler, executed as the code has it, is a sequence of steps of the system: from a
  delivered message it leads to the state in which its database effects are committed and the message
  is settled as the handler decided. So what holds along every sequence of steps holds for handlers
  running concurrently with everything else.
\<close>

theorem delivery_is_steps:
  assumes "handle_delivery (sql_store cfg) execute c c' w (m_body m) (sys_db s) = (st, e, d')"
    and "sys_unacked s = xs @ (m, Fresh) # ys" "keeps_steps (svc_step cfg) execute"
  shows "(sys_step cfg)\<^sup>*\<^sup>* s (settle st m (s\<lparr>sys_unacked := xs @ ys, sys_db := d'\<rparr>)) \<and> st \<noteq> Unsettled"
proof (cases "run_id_from_message (m_body m)")
  case (Inl er)
  then have "st = Rejected" "d' = sys_db s"
    using assms(1) run_id_ValueError [OF Inl] by (simp_all add: handle_delivery_def)
  then show ?thesis using poison [OF assms(2) Inl, of cfg] by (auto simp: settle_def)
next
  case (Inr i)
  note id = Inr
  have h: "handle_run_delivery (sql_store cfg) execute c c' w i (sys_db s) = (st, e, d')"
    using assms(1) Inr by (simp add: handle_delivery_def)
  show ?thesis
  proof (cases "claim c cfg i w (sys_db s)")
    case (Inl er)
    then have "st = Nacked" "d' = sys_db s" using h by (simp_all add: handle_run_delivery_def)
    then show ?thesis using returned [OF assms(2), of cfg] by (auto simp: settle_def)
  next
    case (Inr p)
    obtain cl d1 where p: "p = (cl, d1)" by (cases p)
    note cl = Inr [unfolded p]
    show ?thesis
    proof (cases "cl_decision cl = CLAIMED")
      case False
      then have "st = Acked" "d' = d1" using h cl by (simp_all add: handle_run_delivery_def)
      then show ?thesis using refused [OF assms(2) id cl False] by (auto simp: settle_def)
    qed (rule claimed_delivery_is_steps [OF h assms(2) id cl _ assms(3)])
  qed
qed

theorem delivery_is_steps_witness:
  "\<exists>s s'. (sys_step sample_cfg)\<^sup>*\<^sup>* s s' \<and> sys_db s = sample_queued \<and> sys_unacked s \<noteq> [] \<and>
    sys_db s' = sample_done \<and> sys_unacked s' = []"
proof -
  let ?m = "message_for EXCHANGE_NAME ROUTING_KEY (new_outbox sample_ctx 1 1 ''RUN_QUEUED'' [])"
  let ?s = "initial_system\<lparr>sys_db := sample_queued, sys_unacked := [(?m, Fresh)]\<rparr>"
  have id: "run_id_from_message (m_body ?m) = Inr 1"
    by (simp add: message_for_def published_run_id new_outbox_def)
  have h: "handle_delivery (sql_store sample_cfg) sample_executor claim_ctx done_ctx ''worker-1'' (m_body ?m) (sys_db ?s)
      = (Acked, None, sample_done)"
    unfolding handle_delivery_def id using delivery_sample by simp
  have keeps: "keeps_steps (svc_step sample_cfg) sample_executor" by (simp add: keeps_steps_def sample_executor_def)
  show ?thesis using delivery_is_steps [OF h _ keeps, of "[]" "[]"]
    by (intro exI [of _ ?s] exI [of _ "initial_system\<lparr>sys_db := sample_done\<rparr>"]) (simp add: settle_def initial_system_def)
qed

end
