(* ===== verification/Run_Reads.thy ===== *)
theory Run_Reads
  imports Table_Growth
begin

text \<open>
  The reads of the run service: a tenant sees its own runs only, and following the cursors of a
  paged history lists it completely, once and in order.
\<close>

section \<open>Tenant isolation\<close>

text \<open>The part of the database that belongs to one tenant.\<close>

definition tenant_view :: "string \<Rightarrow> db \<Rightarrow> db" where
  "tenant_view client d =
    (let own = (\<lambda>i. i \<in> set (map r_id (filter (\<lambda>r. r_client_id r = client) (runs d)))) in
     d\<lparr>runs := filter (\<lambda>r. r_client_id r = client) (runs d),
       attempts := filter (\<lambda>a. own (a_run_id a)) (attempts d),
       events := filter (\<lambda>e. own (e_run_id e)) (events d),
       evaluations := filter (\<lambda>v. own (v_run_id v)) (evaluations d)\<rparr>)"

lemma find_filter: "find P (filter Q xs) = find (\<lambda>x. P x \<and> Q x) xs"
  by (induction xs) auto

lemma get_run_for_client_view: "get_run_for_client client i (tenant_view client d) = get_run_for_client client i d"
  by (simp add: get_run_for_client_def tenant_view_def Let_def find_filter cong: conj_cong)

lemma get_run_for_client_own:
  "get_run_for_client client i d = Inr r \<Longrightarrow> r \<in> set (runs d) \<and> r_id r = i \<and> r_client_id r = client"
  by (auto simp: get_run_for_client_def find_Some_iff split: option.splits)

lemma own_rows:
  assumes "get_run_for_client client i d = Inr r"
  shows "filter (\<lambda>a. a_run_id a = i) (attempts (tenant_view client d)) = filter (\<lambda>a. a_run_id a = i) (attempts d)"
    "filter (\<lambda>e. e_run_id e = i) (events (tenant_view client d)) = filter (\<lambda>e. e_run_id e = i) (events d)"
    "filter (\<lambda>v. v_run_id v = i) (evaluations (tenant_view client d)) = filter (\<lambda>v. v_run_id v = i) (evaluations d)"
  using get_run_for_client_own [OF assms] unfolding tenant_view_def Let_def
  by (auto simp: intro!: filter_cong)

text \<open>
  C12. What a tenant reads depends on that tenant's rows only: run, attempts, events and evaluations
  read from the whole database equal those read from the tenant's part of it, errors included, so a
  foreign run is indistinguishable from a missing one.
\<close>

theorem reads_isolated:
  "get_run client i d = get_run client i (tenant_view client d) \<and>
   get_attempts client i limit cursor d = get_attempts client i limit cursor (tenant_view client d) \<and>
   get_events client i limit cursor d = get_events client i limit cursor (tenant_view client d) \<and>
   get_evaluations client i limit cursor d = get_evaluations client i limit cursor (tenant_view client d)"
proof (cases "get_run_for_client client i d")
  case (Inl e)
  then show ?thesis
    by (simp add: get_run_def get_attempts_def get_events_def get_evaluations_def get_run_for_client_view)
next
  case (Inr r)
  then show ?thesis
    unfolding get_run_def get_attempts_def get_events_def get_evaluations_def get_run_for_client_view
      own_rows [OF Inr] by simp
qed

section \<open>Paging\<close>

text \<open>A client that follows the cursors until a page is empty, for at most \<open>n\<close> pages.\<close>

fun follow_pages :: "(uuid option \<Rightarrow> 's list res) \<Rightarrow> ('s \<Rightarrow> uuid) \<Rightarrow> nat \<Rightarrow> uuid option \<Rightarrow> 's list res" where
  "follow_pages read_page ident 0 cursor = Inr []"
| "follow_pages read_page ident (Suc n) cursor = res_bind (read_page cursor) (\<lambda>page.
     if page = [] then Inr []
     else res_bind (follow_pages read_page ident n (Some (ident (last page)))) (\<lambda>rest. Inr (page @ rest)))"

lemma filter_above_sorted:
  fixes key :: "'r \<Rightarrow> 'k :: linorder"
  assumes "sorted (map key L)" "distinct (map key L)" "k < length L"
  shows "filter (\<lambda>r. key (L ! k) < key r) L = drop (Suc k) L"
proof -
  have less: "key (L ! a) < key (L ! b)" if "a < b" "b < length L" for a b
  proof -
    have "key (L ! a) \<le> key (L ! b)" using sorted_nth_mono [OF assms(1), of a b] that by simp
    moreover have "key (L ! a) \<noteq> key (L ! b)"
      using assms(2) that by (simp add: distinct_conv_nth)
    ultimately show ?thesis by simp
  qed
  have low: "filter (\<lambda>r. key (L ! k) < key r) (take (Suc k) L) = []"
  proof (rule filter_False, rule ballI)
    fix x assume "x \<in> set (take (Suc k) L)"
    then obtain a where a: "a < length (take (Suc k) L)" "x = take (Suc k) L ! a" by (metis in_set_conv_nth)
    then have "a \<le> k" "x = L ! a" by auto
    then show "\<not> key (L ! k) < key x" using less [of a k] assms(3) by (cases "a = k") auto
  qed
  have high: "filter (\<lambda>r. key (L ! k) < key r) (drop (Suc k) L) = drop (Suc k) L"
  proof (rule filter_True, rule ballI)
    fix x assume "x \<in> set (drop (Suc k) L)"
    then obtain a where "a < length (drop (Suc k) L)" "x = drop (Suc k) L ! a" by (metis in_set_conv_nth)
    then show "key (L ! k) < key x" using less [of k "Suc k + a"] by simp
  qed
  show ?thesis
    using low high filter_append [of "\<lambda>r. key (L ! k) < key r" "take (Suc k) L" "drop (Suc k) L"]
    by (simp only: append_take_drop_id append_Nil)
qed

text \<open>The rows a cursor leaves, in terms of the sorted history.\<close>

lemma history_page_after:
  fixes stamped :: "'r \<Rightarrow> time"
  assumes "distinct (map ident rows)"
    and L: "L = sort_key (\<lambda>r. (stamped r, ident r)) rows" and "k < length L"
  shows "history_page ident stamped limit (Some (ident (L ! k))) rows
    = Inr (take (nat (page_size limit)) (drop (Suc k) L))"
proof -
  have set: "set L = set rows" by (simp add: L)
  have dist: "distinct (map ident L)"
    using assms(1) unfolding L
    by (metis (no_types) distinct_map distinct_sort inj_on_cong set_sort)
  have mem: "L ! k \<in> set rows" using assms(3) set nth_mem by blast
  have row: "row_with ident (ident (L ! k)) rows = Some (L ! k)"
    using mem assms(1) by (simp add: row_with_distinct)
  have "distinct (map (\<lambda>r. (stamped r, ident r)) L)"
    using dist by (auto simp: distinct_map inj_on_def)
  then have "filter (\<lambda>r. (stamped (L ! k), ident (L ! k)) < (stamped r, ident r)) L = drop (Suc k) L"
    by (intro filter_above_sorted assms(3)) (simp_all add: L)
  then have "sort_key (\<lambda>r. (stamped r, ident r))
      (filter (\<lambda>r. (stamped (L ! k), ident (L ! k)) < (stamped r, ident r)) rows) = drop (Suc k) L"
    by (simp add: L filter_sort)
  then show ?thesis by (simp add: history_page_def row)
qed

lemma last_page:
  assumes "take m (drop (Suc k) L) \<noteq> []"
  shows "last (take m (drop (Suc k) L)) = L ! (k + length (take m (drop (Suc k) L)))"
proof -
  let ?p = "take m (drop (Suc k) L)"
  let ?n = "length ?p - 1"
  have n: "?n < length ?p" using assms by (simp del: length_take)
  have "last ?p = ?p ! ?n" using assms by (rule last_conv_nth)
  also have "\<dots> = drop (Suc k) L ! ?n" using n by (intro nth_take) simp
  also have "\<dots> = L ! (Suc k + ?n)" using assms by (simp add: nth_drop)
  also have "Suc k + ?n = k + length ?p" using n by linarith
  finally show ?thesis .
qed

lemma follow_history:
  fixes stamped :: "'r \<Rightarrow> time"
  assumes "distinct (map ident rows)"
    and L: "L = sort_key (\<lambda>r. (stamped r, ident r)) rows"
    and page: "\<And>cur. read_page cur = res_bind (history_page ident stamped limit cur rows) (\<lambda>rs. Inr (map f rs))"
    and f: "\<And>r. ident' (f r) = ident r"
  shows "k < length L \<Longrightarrow> length L \<le> k + n \<Longrightarrow>
      follow_pages read_page ident' n (Some (ident (L ! k))) = Inr (map f (drop (Suc k) L))"
proof (induction n arbitrary: k)
  case 0
  then show ?case by simp
next
  case (Suc n)
  let ?m = "nat (page_size limit)"
  have m: "0 < ?m" by (simp add: page_size_def)
  have p: "read_page (Some (ident (L ! k))) = Inr (map f (take ?m (drop (Suc k) L)))"
    by (simp add: page history_page_after [OF assms(1) L Suc.prems(1)])
  show ?case
  proof (cases "Suc k < length L")
    case False
    then show ?thesis by (simp add: p)
  next
    case True
    let ?page = "take ?m (drop (Suc k) L)"
    let ?k = "k + length ?page"
    have ne: "?page \<noteq> []" using True m by simp
    have le: "length ?page \<ge> 1" using ne by (simp add: Suc_le_eq del: length_take)
    have lt: "?k < length L" using True by simp
    have last: "ident' (last (map f ?page)) = ident (L ! ?k)"
      using last_page [OF ne] ne by (simp add: last_map f)
    have rest: "follow_pages read_page ident' n (Some (ident (L ! ?k))) = Inr (map f (drop (Suc ?k) L))"
    proof (rule Suc.IH [OF lt])
      show "length L \<le> ?k + n" using Suc.prems(2) le by linarith
    qed
    have "?page @ drop (Suc ?k) L = drop (Suc k) L"
    proof -
      have "drop (Suc ?k) L = drop (length ?page) (drop (Suc k) L)" by (simp add: add.commute)
      also have "\<dots> = drop ?m (drop (Suc k) L)" by (cases "?m \<le> length (drop (Suc k) L)") simp_all
      finally show ?thesis by (simp only: append_take_drop_id)
    qed
    then show ?thesis
      using ne p rest last by (simp only: follow_pages.simps res_bind_simps map_is_Nil_conv if_False map_append [symmetric])
  qed
qed

lemma follow_from_start:
  fixes stamped :: "'r \<Rightarrow> time"
  assumes "distinct (map ident rows)"
    and L: "L = sort_key (\<lambda>r. (stamped r, ident r)) rows"
    and page: "\<And>cur. read_page cur = res_bind (history_page ident stamped limit cur rows) (\<lambda>rs. Inr (map f rs))"
    and f: "\<And>r. ident' (f r) = ident r" and "length rows < n"
  shows "follow_pages read_page ident' n None = Inr (map f L)"
proof -
  obtain m where m: "nat (page_size limit) = Suc m"
    by (metis Suc_pred max.strict_coboundedI1 page_size_def zero_less_nat_eq zero_less_one)
  obtain n' where n': "n = Suc n'" using assms(5) by (cases n) auto
  let ?page = "take (Suc m) L"
  have len: "length L = length rows" by (simp add: L)
  have p: "read_page None = Inr (map f ?page)"
    using m by (simp add: page history_page_def L)
  show ?thesis
  proof (cases L)
    case Nil
    then show ?thesis by (simp add: n' p)
  next
    case (Cons x xs)
    let ?k = "length ?page - 1"
    have k: "?k < length L" "Suc ?k = length ?page" using Cons by simp_all
    have "last ?page = ?page ! ?k" by (rule last_conv_nth) (simp add: Cons)
    also have "\<dots> = L ! ?k" using k by (intro nth_take) simp
    finally have "last ?page = L ! ?k" .
    moreover have "last (map f ?page) = f (last ?page)" by (rule last_map) (simp add: Cons)
    ultimately have last: "ident' (last (map f ?page)) = ident (L ! ?k)" by (simp only: f)
    have "follow_pages read_page ident' n' (Some (ident (L ! ?k))) = Inr (map f (drop (Suc ?k) L))"
      using assms(5) len n' by (intro follow_history [OF assms(1) L page f k(1)]) simp
    moreover have "?page @ drop (Suc ?k) L = L"
      unfolding k(2) by (cases "Suc m \<le> length L") (simp_all del: take_Suc_Cons)
    ultimately show ?thesis
      using Cons last p unfolding n'
      by (simp only: follow_pages.simps res_bind_simps map_is_Nil_conv map_append [symmetric]) simp
  qed
qed

text \<open>
  C13. A client that follows the cursors of a run's event history gets every event of the run exactly
  once, ordered by time and identifier, whatever page size it asks for; one page more than there are
  events is always enough.
\<close>

theorem event_pages_complete:
  assumes "reachable_db cfg d" "get_run_for_client client i d = Inr r"
    and "length (filter (\<lambda>e. e_run_id e = i) (events d)) < n"
  shows "follow_pages (\<lambda>cursor. get_events client i limit cursor d) es_id n None
    = Inr (map to_event_snapshot (sort_key (\<lambda>e. (e_created_at e, e_id e))
        (filter (\<lambda>e. e_run_id e = i) (events d))))"
proof (rule follow_from_start [OF _ refl])
  show "distinct (map e_id (filter (\<lambda>e. e_run_id e = i) (events d)))"
    using reachable_histories(1) [OF assms(1)] by (rule distinct_map_filter)
  show "get_events client i limit cursor d =
      res_bind (history_page e_id e_created_at limit cursor (filter (\<lambda>e. e_run_id e = i) (events d)))
        (\<lambda>rs. Inr (map to_event_snapshot rs))" for cursor
    by (simp add: get_events_def assms(2))
qed (use assms(3) in \<open>simp_all add: to_event_snapshot_def\<close>)

theorem event_pages_complete_witness:
  "\<exists>evs. follow_pages (\<lambda>cursor. get_events ''acme'' 1 1 cursor sample_running) es_id 3 None = Inr evs \<and>
    length evs = 2"
proof -
  have r: "get_run_for_client ''acme'' 1 sample_running = Inr running_run"
    by (simp add: get_run_for_client_def sample_running_def running_run_def sample_run_id sample_run_def new_run_def
        sample_ctx_def)
  have n: "length (filter (\<lambda>e. e_run_id e = 1) (events sample_running)) = 2"
    by (simp add: sample_running_def sample_queued_def new_event_def)
  show ?thesis using event_pages_complete [OF sample_reachable r, of 3 1] n by simp
qed

end
