(* ===== verification/Idempotency.thy ===== *)
theory Idempotency
  imports Service_Properties
begin

text \<open>
  Idempotent submission and replay: an idempotency key stays bound to the run it created and to the
  hash of the request that created it, whatever happens in between.
\<close>

section \<open>What a key is bound to\<close>

type_synonym request_binding = "uuid \<times> string \<times> string \<times> string \<times> uuid option"

definition binding :: "run_row \<Rightarrow> request_binding" where
  "binding r = (r_id r, r_client_id r, r_idempotency_key r, r_request_hash r, r_replay_of r)"

definition bindings :: "db \<Rightarrow> request_binding list" where
  "bindings d = map binding (runs d)"

definition bound_to :: "string \<Rightarrow> string \<Rightarrow> db \<Rightarrow> request_binding option" where
  "bound_to client key d = find (\<lambda>(i, c, k, h, src). c = client \<and> k = key) (bindings d)"

lemma binding_core [simp]: "binding (core r) = binding r"
  by (simp add: binding_def)

lemma bindings_cores: "bindings d = map binding (cores d)"
  by (simp add: bindings_def cores_def)

lemma bound_to_row: "bound_to client key d = map_option binding (find_by_idempotency_key client key d)"
proof -
  have "find (\<lambda>(i, c, k, h, src). c = client \<and> k = key) (map binding rs)
    = map_option binding (find (\<lambda>r. r_client_id r = client \<and> r_idempotency_key r = key) rs)" for rs
    by (induction rs) (auto simp: binding_def)
  then show ?thesis by (simp add: bound_to_def bindings_def find_by_idempotency_key_def)
qed

lemma bindings_put_core:
  assumes "distinct (map r_id rs)" "r \<in> set rs" "binding r' = binding r"
  shows "map binding (put_core r' rs) = map binding rs"
proof -
  have "x \<in> set rs \<Longrightarrow> r_id x = r_id r' \<Longrightarrow> binding x = binding r'" for x
    using assms distinct_keyD [OF assms(1)] by (metis binding_def prod.inject)
  then show ?thesis unfolding put_core_def map_map by (intro map_cong) auto
qed

lemma bindings_moves:
  assumes "moves cfg i d d'" "db_wf d"
  shows "bindings d' = bindings d"
proof -
  obtain r r' where r: "row_with r_id i (cores d) = Some r" "cores d' = put_core r' (cores d)"
    and step: "life_step (exec_max_attempts cfg) (r, attempts_of i d) (r', attempts_of i d')"
    using assms(1) by (auto simp: moves_def)
  have "binding r' = binding r" using life_step_fixed [OF step] by (simp add: binding_def)
  then show ?thesis
    unfolding bindings_cores r(2) using assms(2) row_with_SomeD [OF r(1)]
    by (intro bindings_put_core) (auto simp: db_wf_def)
qed

lemma bindings_moves_list: "moves_list cfg ids d d' \<Longrightarrow> db_wf d \<Longrightarrow> bindings d' = bindings d"
proof (induction rule: moves_list.induct)
  case (no_moves d' d ids)
  then show ?case by (simp add: bindings_cores)
next
  case (more_moves i d e ids d')
  then show ?case using bindings_moves moves_wf by metis
qed

definition bindings_extend :: "db \<Rightarrow> db \<Rightarrow> bool" where
  "bindings_extend d d' \<longleftrightarrow> (\<exists>xs. bindings d' = bindings d @ xs)"

lemma bindings_step:
  assumes "db_ok cfg d" "svc_step cfg d d'"
  shows "bindings_extend d d'"
proof -
  have wf: "db_wf d" using assms(1) by (simp add: db_ok_def)
  show ?thesis
    using assms(2) wf
  proof (cases rule: svc_step_cases)
    case (moved ids)
    then show ?thesis using bindings_moves_list [OF _ wf] by (simp add: bindings_extend_def)
  next
    case created
    then show ?thesis by (auto simp: creates_def bindings_extend_def bindings_cores)
  qed
qed

lemma bindings_path: "db_ok cfg d \<Longrightarrow> (svc_step cfg)\<^sup>*\<^sup>* d d' \<Longrightarrow> bindings_extend d d'"
  by (erule svc.path_relation [rotated]) (auto simp: bindings_step, auto simp: bindings_extend_def)

lemma find_append: "find P (xs @ ys) = (case find P xs of None \<Rightarrow> find P ys | Some x \<Rightarrow> Some x)"
  by (induction xs) auto

lemma bound_to_kept:
  assumes "db_ok cfg d" "(svc_step cfg)\<^sup>*\<^sup>* d d'" "bound_to client key d = Some b"
  shows "bound_to client key d' = Some b"
  using bindings_path [OF assms(1,2)] assms(3) by (auto simp: bindings_extend_def bound_to_def find_append)

section \<open>Submission\<close>

lemma submit_bound:
  assumes "bound_to client key d = Some (i, client, key, h, src)"
  shows "submit c lm client key inp pol prin kind d =
    (if submission_hash kind inp pol = h
     then Inr ((to_run_snapshot (the (find_by_idempotency_key client key d)), True), d)
     else Inl (IdempotencyConflictError ''Idempotency-Key is already bound to a different request''))"
  using assms by (auto simp: bound_to_row submit_def match_or_raise_def binding_def)

lemma submit_fresh:
  assumes "submit c lm client key inp pol prin kind d = Inr ((s, False), d')"
  shows "bound_to client key d' = Some (s_id s, client, key, submission_hash kind inp pol, None)"
proof -
  have none: "find_by_idempotency_key client key d = None"
    and new: "submit_new c lm client (str_or prin client) key inp pol kind d = Inr ((s, False), d')"
    using assms by (auto simp: submit_def Let_def match_or_raise_def split: option.splits sum.splits exn.splits if_splits)
  let ?run = "new_run c 0 client (str_or prin client) kind key (submission_hash kind inp pol) inp pol None"
  have "runs d' = runs d @ [?run] \<and> s = to_run_snapshot ?run"
    using new
    by (auto simp: submit_new_def Let_def routing_event_def dest!: insert_runD insert_dests split: option.splits)
  then show ?thesis
    using none by (auto simp: bound_to_row find_by_idempotency_key_def find_append binding_def new_run_def
        to_run_snapshot_def split: option.splits)
qed

lemma bound_snapshot:
  "bound_to client key d = Some (i, rest) \<Longrightarrow> s_id (to_run_snapshot (the (find_by_idempotency_key client key d))) = i"
  by (auto simp: bound_to_row binding_def to_run_snapshot_def)



end
