(* ===== verification/Providers.thy ===== *)
theory Providers
  imports Execution_Service Py_Json_Parse
begin

text \<open>
  The provider adapters (\<open>providers/deterministic.py\<close>, \<open>openai_responses.py\<close>) and the registry that
  selects one (\<open>registry.py\<close>). The HTTP exchange itself belongs to \<open>httpx\<close>: it is the argument \<open>http\<close>,
  a function of the request sent.
\<close>

type_synonym adapter = "dict \<Rightarrow> dict \<Rightarrow> execution_result res"

section \<open>The deterministic adapter\<close>

definition deterministic_execute :: "bool \<Rightarrow> adapter" where
  "deterministic_execute echo_input inp pol =
     Inr \<lparr>x_provider = ''deterministic'',
       x_result_payload = (if echo_input then [(''accepted'', JBool True), (''accepted_input'', JDict inp)]
                           else [(''accepted'', JBool True)]),
       x_usage = None\<rparr>"

section \<open>The OpenAI adapter\<close>

record openai_config =
  oa_api_key :: "string option"
  oa_base_url :: string
  oa_default_model :: string

text \<open>\<open>base_url.rstrip('/')\<close>.\<close>

definition rstrip_slash :: "string \<Rightarrow> string" where
  "rstrip_slash s = rev (dropWhile (\<lambda>c. c = CHR ''/'') (rev s))"

definition OpenAIResponsesProvider :: "string option \<Rightarrow> string \<Rightarrow> string \<Rightarrow> openai_config" where
  "OpenAIResponsesProvider api_key base_url default_model =
     \<lparr>oa_api_key = api_key, oa_base_url = rstrip_slash base_url, oa_default_model = default_model\<rparr>"

record http_request =
  h_url :: string
  h_authorization :: string
  h_body :: dict

text \<open>How a POST ends: one of the two \<open>httpx\<close> errors, or a response with its status and its text.\<close>

datatype http_outcome = Timed_Out | No_Response | Response int string

definition provider_input :: "dict \<Rightarrow> json res" where
  "provider_input inp = (case dget inp ''prompt'' of
     Some (JStr prompt) \<Rightarrow> if strip prompt \<noteq> [] then Inr (JStr prompt) else
       (case dget inp ''messages'' of
          Some (JList ms) \<Rightarrow> if ms \<noteq> [] then Inr (JList ms)
            else Inl (ProviderConfigurationError ''OpenAI input requires a non-empty prompt string or messages list'')
        | _ \<Rightarrow> Inl (ProviderConfigurationError ''OpenAI input requires a non-empty prompt string or messages list''))
   | _ \<Rightarrow> (case dget inp ''messages'' of
          Some (JList ms) \<Rightarrow> if ms \<noteq> [] then Inr (JList ms)
            else Inl (ProviderConfigurationError ''OpenAI input requires a non-empty prompt string or messages list'')
        | _ \<Rightarrow> Inl (ProviderConfigurationError ''OpenAI input requires a non-empty prompt string or messages list'')))"

definition add_instructions :: "dict \<Rightarrow> dict \<Rightarrow> dict res" where
  "add_instructions pol body = (case jopt (dget pol ''instructions'') of
     JNull \<Rightarrow> Inr body
   | JStr s \<Rightarrow> if strip s \<noteq> [] then Inr (dset ''instructions'' (JStr s) body)
       else Inl (ProviderConfigurationError ''policy.instructions must be a non-empty string'')
   | _ \<Rightarrow> Inl (ProviderConfigurationError ''policy.instructions must be a non-empty string''))"

definition add_output_tokens :: "dict \<Rightarrow> dict \<Rightarrow> dict res" where
  "add_output_tokens pol body = (case jopt (dget pol ''max_output_tokens'') of
     JNull \<Rightarrow> Inr body
   | JInt n \<Rightarrow> Inr (dset ''max_output_tokens'' (JInt n) body)
   | _ \<Rightarrow> Inl (ProviderConfigurationError ''policy.max_output_tokens must be an integer''))"

definition request_body :: "openai_config \<Rightarrow> dict \<Rightarrow> dict \<Rightarrow> dict res" where
  "request_body cfg inp pol = (case dget_or pol ''model'' (JStr (oa_default_model cfg)) of
     JStr model \<Rightarrow>
       if strip model = [] then Inl (ProviderConfigurationError ''policy.model must be a non-empty string'')
       else res_bind (provider_input inp) (\<lambda>pin.
         res_bind (add_instructions pol [(''model'', JStr model), (''input'', pin), (''store'', JBool False)])
           (add_output_tokens pol))
   | _ \<Rightarrow> Inl (ProviderConfigurationError ''policy.model must be a non-empty string''))"

fun string_or_none :: "json option \<Rightarrow> json" where
  "string_or_none (Some (JStr s)) = JStr s"
| "string_or_none _ = JNull"

text \<open>The texts of one item of \<open>output\<close>: the two loops of \<open>_output_text\<close> skip what has another shape.\<close>

definition part_text :: "json \<Rightarrow> string list" where
  "part_text part = (case part of
     JDict p \<Rightarrow> if dget p ''type'' = Some (JStr ''output_text'')
       then (case dget p ''text'' of Some (JStr t) \<Rightarrow> [t] | _ \<Rightarrow> []) else []
   | _ \<Rightarrow> [])"

definition item_texts :: "json \<Rightarrow> string list" where
  "item_texts item = (case item of
     JDict d \<Rightarrow> (case dget d ''content'' of Some (JList parts) \<Rightarrow> concat (map part_text parts) | _ \<Rightarrow> [])
   | _ \<Rightarrow> [])"

definition output_text :: "dict \<Rightarrow> string" where
  "output_text payload = (case dget payload ''output_text'' of
     Some (JStr direct) \<Rightarrow> direct
   | _ \<Rightarrow> (case dget payload ''output'' of
       Some (JList items) \<Rightarrow> concat (concat (map item_texts items))
     | _ \<Rightarrow> []))"

fun is_int :: "json \<Rightarrow> bool" where
  "is_int (JInt _) = True"
| "is_int (JBool _) = True"
| "is_int _ = False"

definition usage_metadata :: "json option \<Rightarrow> dict option" where
  "usage_metadata v = (case v of
     Some (JDict u) \<Rightarrow>
       (let usage = List.map_filter (\<lambda>k. case dget u k of
              None \<Rightarrow> None | Some x \<Rightarrow> if is_int x then Some (k, x) else None)
            [''input_tokens'', ''output_tokens'', ''total_tokens'']
        in if usage = [] then None else Some usage)
   | _ \<Rightarrow> None)"

definition openai_result :: "dict \<Rightarrow> execution_result" where
  "openai_result payload = \<lparr>x_provider = ''openai'',
     x_result_payload = [(''provider_response_id'', string_or_none (dget payload ''id'')),
       (''model'', string_or_none (dget payload ''model'')), (''output_text'', JStr (output_text payload))],
     x_usage = usage_metadata (dget payload ''usage'')\<rparr>"

definition read_response :: "http_outcome \<Rightarrow> execution_result res" where
  "read_response outcome = (case outcome of
     Timed_Out \<Rightarrow> Inl TimeoutError
   | No_Response \<Rightarrow> Inl (RuntimeError ''OpenAI request did not receive a response'')
   | Response status body \<Rightarrow>
       if 400 \<le> status \<and> status \<le> 599 then Inl (ProviderHttpError status)
       else res_bind (loads body) (\<lambda>v. case v of
         JDict payload \<Rightarrow> Inr (openai_result payload)
       | _ \<Rightarrow> Inl (RuntimeError ''OpenAI returned a non-object response'')))"

definition openai_request :: "openai_config \<Rightarrow> dict \<Rightarrow> dict \<Rightarrow> http_request res" where
  "openai_request cfg inp pol = (case oa_api_key cfg of
     None \<Rightarrow> Inl (ProviderConfigurationError ''OpenAI API key is not configured'')
   | Some key \<Rightarrow> res_bind (request_body cfg inp pol) (\<lambda>body.
       Inr \<lparr>h_url = oa_base_url cfg @ ''/responses'', h_authorization = ''Bearer '' @ key, h_body = body\<rparr>))"

definition openai_execute :: "openai_config \<Rightarrow> (http_request \<Rightarrow> http_outcome) \<Rightarrow> adapter" where
  "openai_execute cfg http inp pol = res_bind (openai_request cfg inp pol) (\<lambda>rq. read_response (http rq))"

section \<open>The registry\<close>

text \<open>\<open>{adapter.name: adapter for adapter in adapters}\<close>: a later adapter replaces an earlier one of its name.\<close>

definition ProviderRegistry :: "(string \<times> adapter) list \<Rightarrow> (string \<times> adapter) list res" where
  "ProviderRegistry adapters =
     (if adapters = [] then Inl (ValueError ''At least one provider adapter is required'')
      else Inr (foldl (\<lambda>m na. AList.update (fst na) (snd na) m) [] adapters))"

definition registry_execute :: "(string \<times> adapter) list \<Rightarrow> string \<Rightarrow> adapter" where
  "registry_execute adapters prov inp pol = (case map_of adapters prov of
     None \<Rightarrow> Inl (ProviderConfigurationError (''Provider '' @ [CHR 39] @ prov @ [CHR 39] @ '' is not configured''))
   | Some adapter \<Rightarrow> adapter inp pol)"

section \<open>Properties\<close>

lemma set_dkeys_dset [simp]: "set (dkeys (dset k v d)) = insert k (set (dkeys d))"
  by (simp add: dkeys_def dset_def dom_update)

text \<open>The body of a request carries these fields and no others.\<close>

lemma request_body_fields:
  assumes "request_body cfg inp pol = Inr body"
  shows "dget body ''store'' = Some (JBool False)" "dget body ''max_output_tokens'' = (case dget pol ''max_output_tokens'' of
      None \<Rightarrow> None | Some JNull \<Rightarrow> None | Some v \<Rightarrow> Some v)"
    "set (dkeys body) \<subseteq> {''model'', ''input'', ''store'', ''instructions'', ''max_output_tokens''}"
proof -
  obtain model pin b where b: "add_instructions pol [(''model'', JStr model), (''input'', pin), (''store'', JBool False)] = Inr b"
    and t: "add_output_tokens pol b = Inr body"
    using assms by (auto simp: request_body_def split: json.splits if_splits)
  have b1: "dget b ''store'' = Some (JBool False) \<and> dget b ''max_output_tokens'' = None \<and>
    set (dkeys b) \<subseteq> {''model'', ''input'', ''store'', ''instructions''}"
    using b by (auto simp: add_instructions_def dget_dset split: json.splits if_splits) (auto simp: dget_def dkeys_def)
  show "dget body ''store'' = Some (JBool False)" "dget body ''max_output_tokens'' = (case dget pol ''max_output_tokens'' of
      None \<Rightarrow> None | Some JNull \<Rightarrow> None | Some v \<Rightarrow> Some v)"
    "set (dkeys body) \<subseteq> {''model'', ''input'', ''store'', ''instructions'', ''max_output_tokens''}"
    using t b1 by (auto simp: add_output_tokens_def dget_dset jopt_def split: json.splits option.splits)
qed

lemma request_error:
  assumes "openai_request cfg inp pol = Inl e"
  shows "\<exists>m. e = ProviderConfigurationError m"
proof -
  have "\<exists>m. e' = ProviderConfigurationError m" if "provider_input inp = Inl e'" for e'
    using that by (auto simp: provider_input_def split: option.splits json.splits if_splits)
  moreover have "\<exists>m. e' = ProviderConfigurationError m" if "add_instructions pol b = Inl e'" for e' b
    using that by (auto simp: add_instructions_def split: json.splits if_splits)
  moreover have "\<exists>m. e' = ProviderConfigurationError m" if "add_output_tokens pol b = Inl e'" for e' b
    using that by (auto simp: add_output_tokens_def split: json.splits)
  ultimately have "\<exists>m. e' = ProviderConfigurationError m" if "request_body cfg inp pol = Inl e'" for e'
    using that by (auto simp: request_body_def res_bind_def split: json.splits if_splits sum.splits)
  then show ?thesis using assms by (auto simp: openai_request_def res_bind_def split: option.splits sum.splits)
qed

lemma retryable_unclassified:
  "\<not> is_QuotaExceededError e \<Longrightarrow> status_code_of e = None \<Longrightarrow> is_retryable_error (error_code_value (classify_exception e))"
  by (simp add: retryable_code classify_exception_def RETRYABLE_ERROR_CODES_def)

lemma retryable_http:
  "400 \<le> n \<Longrightarrow> n \<le> 599 \<Longrightarrow> is_retryable_error (error_code_value (classify_exception (ProviderHttpError n))) \<longleftrightarrow> n = 429 \<or> 500 \<le> n"
  by (auto simp: retryable_code classify_exception_def RETRYABLE_ERROR_CODES_def)

lemma read_response_result:
  "read_response outcome = Inr r \<Longrightarrow> x_provider r = ''openai'' \<and> dkeys (x_result_payload r) = [''provider_response_id'', ''model'', ''output_text'']"
  by (auto simp: read_response_def openai_result_def dkeys_def split: http_outcome.splits json.splits if_splits)


definition sample_openai :: openai_config where
  "sample_openai = OpenAIResponsesProvider (Some ''sk'') ''https://api.openai.com/v1/'' ''gpt''"


end
