(* ===== verification/Evaluation_Engine.thy ===== *)
theory Evaluation_Engine
  imports Evaluation_Safety
begin

text \<open>
  \<open>evaluation/engine.py\<close>: the deterministic rules applied to the output of a completed run. The two
  operations of the \<open>jsonschema\<close> package are parameters: \<open>schema_ok\<close> is
  \<open>Draft202012Validator.check_schema\<close>, and \<open>conforms schema value\<close> tells whether
  \<open>Draft202012Validator(schema).validate(value)\<close> ends without a \<open>ValidationError\<close>.
\<close>

section \<open>Paths and values\<close>

text \<open>The \<open>for\<close> loop of \<open>_value_at_path\<close> over the parts of a path: the value and whether it was found.\<close>

fun follow_parts :: "json \<Rightarrow> string list \<Rightarrow> (json \<times> bool) res" where
  "follow_parts v [] = Inr (v, True)"
| "follow_parts v (part # parts) = (case v of
     JDict d \<Rightarrow> (case dget d part of
         Some w \<Rightarrow> follow_parts w parts
       | None \<Rightarrow> Inr (JNull, False))
   | JList xs \<Rightarrow>
       if length part \<le> 10 \<and> isdigit part
       then res_bind (py_int_of_digits part) (\<lambda>n.
         if n < length xs then follow_parts (xs ! n) parts else Inr (JNull, False))
       else Inr (JNull, False)
   | _ \<Rightarrow> Inr (JNull, False))"

definition value_at_path :: "json \<Rightarrow> string \<Rightarrow> (json \<times> bool) res" where
  "value_at_path payload path =
     (if path = [] then Inr (payload, True) else follow_parts payload (split_on (CHR ''.'') path))"

fun is_non_empty :: "json \<Rightarrow> bool" where
  "is_non_empty JNull = False"
| "is_non_empty (JStr s) = (strip s \<noteq> [])"
| "is_non_empty (JList xs) = (xs \<noteq> [])"
| "is_non_empty (JDict d) = (d \<noteq> [])"
| "is_non_empty _ = True"

text \<open>\<open>expected in value\<close> for two strings.\<close>

fun substring_of :: "string \<Rightarrow> string \<Rightarrow> bool" where
  "substring_of p [] = (p = [])"
| "substring_of p (c # s) = (take (length p) (c # s) = p \<or> substring_of p s)"

definition contains_check :: "json \<Rightarrow> json \<Rightarrow> bool" where
  "contains_check v expected = (case v of
     JList xs \<Rightarrow> list_ex (\<lambda>x. py_eq x expected) xs
   | JStr s \<Rightarrow> (case expected of JStr p \<Rightarrow> substring_of p s | _ \<Rightarrow> False)
   | JDict d \<Rightarrow> (case expected of JStr k \<Rightarrow> dget d k \<noteq> None | _ \<Rightarrow> False)
   | _ \<Rightarrow> False)"

section \<open>Rules\<close>

definition rule_result :: "string \<Rightarrow> string \<Rightarrow> bool \<Rightarrow> string \<Rightarrow> dict" where
  "rule_result kind path passed message =
     [(''type'', JStr kind), (''path'', JStr path), (''passed'', JBool passed), (''message'', JStr message)]"

definition non_empty_rule :: "string \<Rightarrow> json \<Rightarrow> dict res" where
  "non_empty_rule path payload = res_bind (value_at_path payload path) (\<lambda>(v, found).
     if found \<and> is_non_empty v
     then Inr (rule_result ''non_empty'' path True ''value is non-empty'')
     else Inr (rule_result ''non_empty'' path False ''value is empty''))"

definition json_schema_rule :: "(json \<Rightarrow> json \<Rightarrow> bool) \<Rightarrow> dict \<Rightarrow> string \<Rightarrow> json \<Rightarrow> dict res" where
  "json_schema_rule conforms rule path payload = (case dget rule ''schema'' of
     Some (JDict schema) \<Rightarrow> res_bind (value_at_path payload path) (\<lambda>(v, found).
       if \<not> found then Inr (rule_result ''json_schema'' path False ''path was not found'')
       else if conforms (JDict schema) v
       then Inr (rule_result ''json_schema'' path True ''schema validation passed'')
       else Inr (rule_result ''json_schema'' path False ''schema validation failed''))
   | _ \<Rightarrow> Inl (EvaluationConfigurationError ''json_schema rule requires an object schema''))"

definition latency_rule :: "dict \<Rightarrow> int option \<Rightarrow> dict res" where
  "latency_rule rule latency_ms = (case dget rule ''max_ms'' of
     Some (JInt budget) \<Rightarrow>
       if budget < 0
       then Inl (EvaluationConfigurationError ''latency_budget rule requires non-negative integer max_ms'')
       else if (case latency_ms of None \<Rightarrow> False | Some l \<Rightarrow> l \<le> budget)
       then Inr (rule_result ''latency_budget'' [] True ''latency is within budget'')
       else Inr (rule_result ''latency_budget'' [] False ''latency budget exceeded or unavailable'')
   | _ \<Rightarrow> Inl (EvaluationConfigurationError ''latency_budget rule requires non-negative integer max_ms''))"

definition operator_check :: "string \<Rightarrow> json \<Rightarrow> bool \<Rightarrow> json \<Rightarrow> bool" where
  "operator_check op v found expected =
     (if op = ''exists'' then found
      else if op = ''equals'' then found \<and> py_eq v expected
      else if op = ''not_equals'' then found \<and> \<not> py_eq v expected
      else found \<and> contains_check v expected)"

text \<open>
  \<open>operator not in {...}\<close> hashes the operator, so a list or a dictionary raises a TypeError before the
  membership is decided.
\<close>

definition operator_rule :: "dict \<Rightarrow> string \<Rightarrow> json \<Rightarrow> dict res" where
  "operator_rule rule path payload = (case jopt (dget rule ''operator'') of
     JStr op \<Rightarrow>
       if op \<notin> set rule_operators
       then Inl (EvaluationConfigurationError
         ''rule evaluator operator must be exists, equals, not_equals, or contains'')
       else res_bind (value_at_path payload path) (\<lambda>(v, found).
         let passed = operator_check op v found (jopt (dget rule ''value''))
         in Inr (rule_result ''rule'' path passed
              (op @ '' check '' @ (if passed then ''passed'' else ''failed''))))
   | JList _ \<Rightarrow> Inl (TypeError ''unhashable type: list'')
   | JDict _ \<Rightarrow> Inl (TypeError ''unhashable type: dict'')
   | _ \<Rightarrow> Inl (EvaluationConfigurationError
         ''rule evaluator operator must be exists, equals, not_equals, or contains''))"

definition evaluate_rule :: "(json \<Rightarrow> json \<Rightarrow> bool) \<Rightarrow> dict \<Rightarrow> json \<Rightarrow> int option \<Rightarrow> dict res" where
  "evaluate_rule conforms rule payload latency_ms = (case dget rule ''type'' of
     Some (JStr kind) \<Rightarrow> (case dget_or rule ''path'' (JStr []) of
         JStr path \<Rightarrow>
           if kind = ''non_empty'' then non_empty_rule path payload
           else if kind = ''json_schema'' then json_schema_rule conforms rule path payload
           else if kind = ''latency_budget'' then latency_rule rule latency_ms
           else if kind = ''rule'' then operator_rule rule path payload
           else Inl (EvaluationConfigurationError (''unsupported evaluation rule type: '' @ kind))
       | _ \<Rightarrow> Inl (EvaluationConfigurationError ''evaluation rule path must be a string''))
   | _ \<Rightarrow> Inl (EvaluationConfigurationError ''every evaluation rule requires a string type''))"

section \<open>Outcomes\<close>

record evaluation_outcome =
  eo_passed :: bool
  eo_rule_results :: "dict list"

definition as_persisted_result :: "evaluation_outcome \<Rightarrow> dict" where
  "as_persisted_result out =
     [(''passed'', JBool (eo_passed out)), (''rules'', JList (map JDict (eo_rule_results out)))]"

text \<open>\<open>item[''passed'']\<close> of a rule result, which is a bool there.\<close>

definition result_passed :: "dict \<Rightarrow> bool" where
  "result_passed item = truthy (jopt (dget item ''passed''))"

fun evaluate_each :: "(json \<Rightarrow> json \<Rightarrow> bool) \<Rightarrow> dict list \<Rightarrow> json \<Rightarrow> int option \<Rightarrow> dict list res" where
  "evaluate_each conforms [] payload latency_ms = Inr []"
| "evaluate_each conforms (rule # rules) payload latency_ms =
     res_bind (evaluate_rule conforms rule payload latency_ms) (\<lambda>item.
       res_bind (evaluate_each conforms rules payload latency_ms) (\<lambda>items. Inr (item # items)))"

definition evaluate_rules ::
  "(json \<Rightarrow> bool) \<Rightarrow> (json \<Rightarrow> json \<Rightarrow> bool) \<Rightarrow> dict list \<Rightarrow> dict \<Rightarrow> int option \<Rightarrow> evaluation_outcome res" where
  "evaluate_rules schema_ok conforms rules payload latency_ms =
     res_bind (validate_rules schema_ok rules) (\<lambda>_.
       res_bind (bounded_value (JDict payload) 10000 16) (\<lambda>_.
         res_bind (evaluate_each conforms rules (JDict payload) latency_ms) (\<lambda>results.
           Inr \<lparr>eo_passed = list_all result_passed results, eo_rule_results = results\<rparr>)))"

section \<open>What a result reveals\<close>

text \<open>
  The results a rule can have, as a function of the rule and of whether it passed; the json_schema
  rule also tells a missing path from a failed validation.
\<close>

definition possible_results :: "dict \<Rightarrow> bool \<Rightarrow> dict list" where
  "possible_results rule passed = (case (dget rule ''type'', dget_or rule ''path'' (JStr [])) of
     (Some (JStr kind), JStr path) \<Rightarrow>
       if kind = ''non_empty''
       then [rule_result kind path passed (if passed then ''value is non-empty'' else ''value is empty'')]
       else if kind = ''json_schema''
       then (if passed then [rule_result kind path True ''schema validation passed'']
             else [rule_result kind path False ''path was not found'',
                   rule_result kind path False ''schema validation failed''])
       else if kind = ''latency_budget''
       then [rule_result kind [] passed
              (if passed then ''latency is within budget'' else ''latency budget exceeded or unavailable'')]
       else (case jopt (dget rule ''operator'') of
               JStr op \<Rightarrow> [rule_result kind path passed
                 (op @ '' check '' @ (if passed then ''passed'' else ''failed''))]
             | _ \<Rightarrow> [])
   | _ \<Rightarrow> [])"

lemma result_passed_rule_result [simp]: "result_passed (rule_result kind path passed message) = passed"
  by (simp add: result_passed_def rule_result_def dget_def jopt_def)

lemmas rule_defs = non_empty_rule_def json_schema_rule_def latency_rule_def operator_rule_def

lemma non_empty_result:
  "non_empty_rule path payload = Inr item \<Longrightarrow>
   item \<in> {rule_result ''non_empty'' path True ''value is non-empty'', rule_result ''non_empty'' path False ''value is empty''}"
  by (auto simp: non_empty_rule_def split: if_splits)

lemma json_schema_result:
  "json_schema_rule conforms rule path payload = Inr item \<Longrightarrow>
   item \<in> {rule_result ''json_schema'' path True ''schema validation passed'',
     rule_result ''json_schema'' path False ''path was not found'',
     rule_result ''json_schema'' path False ''schema validation failed''}"
  by (auto simp: json_schema_rule_def split: if_splits option.splits json.splits)

lemma latency_result:
  "latency_rule rule latency_ms = Inr item \<Longrightarrow>
   item \<in> {rule_result ''latency_budget'' [] True ''latency is within budget'',
     rule_result ''latency_budget'' [] False ''latency budget exceeded or unavailable''}"
  by (auto simp: latency_rule_def split: if_splits option.splits json.splits)

lemma operator_result:
  "operator_rule rule path payload = Inr item \<Longrightarrow>
   \<exists>op. jopt (dget rule ''operator'') = JStr op \<and>
     item \<in> {rule_result ''rule'' path True (op @ '' check passed''), rule_result ''rule'' path False (op @ '' check failed'')}"
  by (auto simp: operator_rule_def Let_def split: if_splits json.splits)

lemma evaluate_rule_InrE:
  assumes "evaluate_rule conforms rule payload latency_ms = Inr item"
  obtains kind path where "dget rule ''type'' = Some (JStr kind)" "dget_or rule ''path'' (JStr []) = JStr path"
    "kind = ''non_empty'' \<and> non_empty_rule path payload = Inr item \<or>
     kind = ''json_schema'' \<and> json_schema_rule conforms rule path payload = Inr item \<or>
     kind = ''latency_budget'' \<and> latency_rule rule latency_ms = Inr item \<or>
     kind = ''rule'' \<and> operator_rule rule path payload = Inr item"
  using assms by (auto simp: evaluate_rule_def split: option.splits json.splits if_splits)

lemma evaluate_rule_possible:
  assumes "evaluate_rule conforms rule payload latency_ms = Inr item"
  shows "item \<in> set (possible_results rule (result_passed item))"
proof -
  obtain kind path where f: "dget rule ''type'' = Some (JStr kind)" "dget_or rule ''path'' (JStr []) = JStr path"
    and r: "kind = ''non_empty'' \<and> non_empty_rule path payload = Inr item \<or>
     kind = ''json_schema'' \<and> json_schema_rule conforms rule path payload = Inr item \<or>
     kind = ''latency_budget'' \<and> latency_rule rule latency_ms = Inr item \<or>
     kind = ''rule'' \<and> operator_rule rule path payload = Inr item"
    using assms by (rule evaluate_rule_InrE)
  from r show ?thesis
    using non_empty_result [of path payload item] json_schema_result [of conforms rule path payload item]
      latency_result [of rule latency_ms item] operator_result [of rule path payload item]
    by (elim disjE) (auto simp: possible_results_def f)
qed

lemma evaluate_each_Inr:
  "evaluate_each conforms rules payload latency_ms = Inr items \<Longrightarrow>
   list_all2 (\<lambda>rule item. evaluate_rule conforms rule payload latency_ms = Inr item) rules items"
  by (induction rules arbitrary: items) auto

section \<open>Rules that were accepted can be evaluated\<close>

definition ascii_indices :: "dict \<Rightarrow> bool" where
  "ascii_indices rule = (case dget_or rule ''path'' (JStr []) of
     JStr path \<Rightarrow> list_all (\<lambda>part. isdigit part \<longrightarrow> list_all is_ascii_digit part) (split_on (CHR ''.'') path)
   | _ \<Rightarrow> True)"

lemma follow_parts_total:
  "list_all (\<lambda>part. isdigit part \<longrightarrow> list_all is_ascii_digit part) parts \<Longrightarrow> \<exists>r. follow_parts v parts = Inr r"
  by (induction v parts rule: follow_parts.induct)
    (auto simp: py_int_of_digits_def isdigit_def split: json.splits option.splits)

lemma value_at_path_total:
  assumes "ascii_indices rule" "dget_or rule ''path'' (JStr []) = JStr path"
  shows "\<exists>v found. value_at_path payload path = Inr (v, found)"
  using follow_parts_total [of "split_on (CHR ''.'') path" payload] assms
  by (auto simp: ascii_indices_def value_at_path_def)

lemma schema_loop_dict:
  assumes "schema_loop [(schema, 0)] 0 = Inr u"
  shows "is_dict schema"
proof (rule ccontr)
  assume "\<not> is_dict schema"
  then have "\<exists>e. visit_schema schema (0 + 1) 0 = Inl e" by (cases schema) (simp_all add: visit_schema_def)
  then show False using assms by (auto simp: schema_loop.simps(2))
qed

lemma validated_rule_evaluates:
  assumes "validate_rule schema_ok rule = Inr ()" "ascii_indices rule"
  shows "\<exists>item. evaluate_rule conforms rule payload latency_ms = Inr item"
proof -
  obtain kind where kind: "rule_kind rule = Some kind" "path_ok (dget_or rule ''path'' (JStr []))"
    using assms(1) by (auto simp: validate_rule_def split: option.splits if_splits)
  then obtain path where path: "dget_or rule ''path'' (JStr []) = JStr path"
    by (auto simp: path_ok_def split: json.splits)
  have type: "dget rule ''type'' = Some (JStr kind)" "allowed_rule_fields kind \<noteq> None"
    using kind(1) by (auto simp: rule_kind_def split: option.splits json.splits if_splits)
  obtain v found where v: "value_at_path payload path = Inr (v, found)"
    using value_at_path_total [OF assms(2) path] by blast
  from type(2) consider "kind = ''non_empty''" | "kind = ''json_schema''" | "kind = ''latency_budget''" | "kind = ''rule''"
    by (auto split: if_splits)
  then show ?thesis
  proof cases
    case 1
    then show ?thesis using type(1) path v by (simp add: evaluate_rule_def non_empty_rule_def)
  next
    case 2
    then have "is_dict (jopt (dget rule ''schema''))"
      using assms(1) kind by (auto simp: validate_rule_def validate_schema_def dest: schema_loop_dict)
    then obtain schema where "dget rule ''schema'' = Some (JDict schema)"
      by (cases "dget rule ''schema''") (auto simp: jopt_def elim: is_dict.elims)
    then show ?thesis using 2 type(1) path v by (simp add: evaluate_rule_def json_schema_rule_def)
  next
    case 3
    then have "budget_ok (dget rule ''max_ms'')" using assms(1) kind by (simp add: validate_rule_def)
    then obtain b where "dget rule ''max_ms'' = Some (JInt b)" "0 \<le> b"
      by (auto simp: budget_ok_def split: option.splits json.splits)
    then show ?thesis using 3 type(1) path by (simp add: evaluate_rule_def latency_rule_def)
  next
    case 4
    then have "operator_ok (dget rule ''operator'')" using assms(1) kind by (simp add: validate_rule_def)
    then obtain op where "dget rule ''operator'' = Some (JStr op)" "op \<in> set rule_operators"
      by (auto simp: operator_ok_def split: option.splits json.splits)
    then show ?thesis using 4 type(1) path v by (simp add: evaluate_rule_def operator_rule_def jopt_def Let_def)
  qed
qed

section \<open>What a rule means\<close>

text \<open>The value a path leads to, as a relation.\<close>

inductive reaches :: "json \<Rightarrow> string list \<Rightarrow> json \<Rightarrow> bool" where
  here: "reaches v [] v"
| field: "dget d k = Some v \<Longrightarrow> reaches v ks w \<Longrightarrow> reaches (JDict d) (k # ks) w"
| index: "length k \<le> 10 \<Longrightarrow> k \<noteq> [] \<Longrightarrow> list_all is_ascii_digit k \<Longrightarrow> digits_value k < length xs \<Longrightarrow>
    reaches (xs ! digits_value k) ks w \<Longrightarrow> reaches (JList xs) (k # ks) w"

inductive_simps reaches_simps:
  "reaches v [] w" "reaches (JDict d) (k # ks) w" "reaches (JList xs) (k # ks) w"
  "reaches JNull (k # ks) w" "reaches (JBool b) (k # ks) w" "reaches (JInt n) (k # ks) w"
  "reaches (JFloat f) (k # ks) w" "reaches (JStr t) (k # ks) w"

lemma follow_parts_reaches:
  "follow_parts v parts = Inr (w, found) \<Longrightarrow> if found then reaches v parts w else (\<forall>u. \<not> reaches v parts u)"
proof (induction v parts rule: follow_parts.induct)
  case (2 v part parts)
  show ?case
  proof (cases v)
    case (JDict d)
    then show ?thesis using 2 by (cases "dget d part") (auto simp: reaches_simps split: if_splits)
  next
    case (JList xs)
    show ?thesis
    proof (cases "list_all is_ascii_digit part \<and> part \<noteq> [] \<and> length part \<le> 10 \<and> digits_value part < length xs")
      case True
      then have "isdigit part" by (auto simp: isdigit_def is_digit_char_def list_all_iff)
      then show ?thesis using 2 JList True by (auto simp: reaches_simps py_int_of_digits_def split: if_splits)
    next
      case False
      then show ?thesis using 2(3) JList
        by (auto simp: reaches_simps py_int_of_digits_def split: if_splits)
    qed
  qed (use 2(3) in \<open>auto simp: reaches_simps\<close>)
qed (auto simp: reaches_simps)

definition path_parts :: "dict \<Rightarrow> string list" where
  "path_parts rule = (case dget_or rule ''path'' (JStr []) of
     JStr path \<Rightarrow> if path = [] then [] else split_on (CHR ''.'') path | _ \<Rightarrow> [])"

definition rule_holds :: "(json \<Rightarrow> json \<Rightarrow> bool) \<Rightarrow> json \<Rightarrow> int option \<Rightarrow> dict \<Rightarrow> bool" where
  "rule_holds conforms payload latency_ms rule \<longleftrightarrow>
    (case rule_kind rule of None \<Rightarrow> False | Some kind \<Rightarrow>
      if kind = ''latency_budget''
      then \<exists>l b. latency_ms = Some l \<and> dget rule ''max_ms'' = Some (JInt b) \<and> l \<le> b
      else \<exists>w. reaches payload (path_parts rule) w \<and>
        (if kind = ''non_empty'' then is_non_empty w
         else if kind = ''json_schema'' then conforms (jopt (dget rule ''schema'')) w
         else case jopt (dget rule ''operator'') of
           JStr op \<Rightarrow> op = ''exists'' \<or> op = ''equals'' \<and> py_eq w (jopt (dget rule ''value'')) \<or>
             op = ''not_equals'' \<and> \<not> py_eq w (jopt (dget rule ''value'')) \<or>
             op = ''contains'' \<and> contains_check w (jopt (dget rule ''value''))
         | _ \<Rightarrow> False))"

lemma reaches_unique: "reaches v ks w \<Longrightarrow> reaches v ks w' \<Longrightarrow> w' = w"
  by (induction arbitrary: w' rule: reaches.induct) (auto simp: reaches_simps)

lemma value_at_path_found:
  assumes "dget_or rule ''path'' (JStr []) = JStr path" "value_at_path payload path = Inr (v, found)"
  shows "(\<exists>w. reaches payload (path_parts rule) w \<and> P w) \<longleftrightarrow> found \<and> P v"
proof -
  have "if found then reaches payload (path_parts rule) v else (\<forall>u. \<not> reaches payload (path_parts rule) u)"
    using assms follow_parts_reaches [of payload "split_on (CHR ''.'') path" v found]
    by (auto simp: value_at_path_def path_parts_def reaches_simps split: if_splits)
  then show ?thesis using reaches_unique by (auto split: if_splits)
qed

lemma non_empty_passed:
  "non_empty_rule path payload = Inr item \<Longrightarrow> \<exists>v found. value_at_path payload path = Inr (v, found) \<and>
   result_passed item = (found \<and> is_non_empty v)"
  by (auto simp: non_empty_rule_def split: if_split_asm)

lemma json_schema_passed:
  "json_schema_rule conforms rule path payload = Inr item \<Longrightarrow> \<exists>v found. value_at_path payload path = Inr (v, found) \<and>
   result_passed item = (found \<and> conforms (jopt (dget rule ''schema'')) v)"
  by (auto simp: json_schema_rule_def jopt_def split: if_split_asm option.split_asm json.split_asm)

lemma latency_passed:
  "latency_rule rule latency_ms = Inr item \<Longrightarrow>
   result_passed item = (\<exists>l b. latency_ms = Some l \<and> dget rule ''max_ms'' = Some (JInt b) \<and> l \<le> b)"
  by (auto simp: latency_rule_def split: if_split_asm option.split_asm json.split_asm)

lemma operator_passed:
  "operator_rule rule path payload = Inr item \<Longrightarrow> \<exists>v found op. value_at_path payload path = Inr (v, found) \<and>
   jopt (dget rule ''operator'') = JStr op \<and> op \<in> set rule_operators \<and>
   result_passed item = operator_check op v found (jopt (dget rule ''value''))"
  by (auto simp: operator_rule_def Let_def split: if_split_asm json.split_asm)

lemma operator_check_iff:
  "op \<in> set rule_operators \<Longrightarrow> operator_check op v found expected \<longleftrightarrow> found \<and>
   (op = ''exists'' \<or> op = ''equals'' \<and> py_eq v expected \<or> op = ''not_equals'' \<and> \<not> py_eq v expected \<or>
    op = ''contains'' \<and> contains_check v expected)"
  by (auto simp: operator_check_def rule_operators_def)

lemma evaluate_rule_holds:
  assumes "evaluate_rule conforms rule payload latency_ms = Inr item" "rule_kind rule = Some kind"
  shows "result_passed item \<longleftrightarrow> rule_holds conforms payload latency_ms rule"
proof -
  obtain kind' path where f: "dget rule ''type'' = Some (JStr kind')" "dget_or rule ''path'' (JStr []) = JStr path"
    and r: "kind' = ''non_empty'' \<and> non_empty_rule path payload = Inr item \<or>
     kind' = ''json_schema'' \<and> json_schema_rule conforms rule path payload = Inr item \<or>
     kind' = ''latency_budget'' \<and> latency_rule rule latency_ms = Inr item \<or>
     kind' = ''rule'' \<and> operator_rule rule path payload = Inr item"
    using assms(1) by (rule evaluate_rule_InrE)
  have k: "kind' = kind" using assms(2) f(1) by (auto simp: rule_kind_def split: option.splits if_splits)
  from r show ?thesis unfolding k
  proof (elim disjE conjE)
    assume k: "kind = ''non_empty''" "non_empty_rule path payload = Inr item"
    obtain v found where v: "value_at_path payload path = Inr (v, found)"
      "result_passed item = (found \<and> is_non_empty v)" using non_empty_passed [OF k(2)] by blast
    show ?thesis using v(2) k(1) assms(2) by (simp add: rule_holds_def value_at_path_found [OF f(2) v(1)])
  next
    assume k: "kind = ''json_schema''" "json_schema_rule conforms rule path payload = Inr item"
    obtain v found where v: "value_at_path payload path = Inr (v, found)"
      "result_passed item = (found \<and> conforms (jopt (dget rule ''schema'')) v)" using json_schema_passed [OF k(2)] by blast
    show ?thesis using v(2) k(1) assms(2) by (simp add: rule_holds_def value_at_path_found [OF f(2) v(1)])
  next
    assume k: "kind = ''latency_budget''" "latency_rule rule latency_ms = Inr item"
    then show ?thesis using latency_passed [OF k(2)] assms(2) by (simp add: rule_holds_def)
  next
    assume k: "kind = ''rule''" "operator_rule rule path payload = Inr item"
    obtain v found op where v: "value_at_path payload path = Inr (v, found)" "jopt (dget rule ''operator'') = JStr op"
      "op \<in> set rule_operators" "result_passed item = operator_check op v found (jopt (dget rule ''value''))"
      using operator_passed [OF k(2)] by blast
    show ?thesis using v(2-4) k(1) assms(2)
      by (simp add: rule_holds_def value_at_path_found [OF f(2) v(1)] operator_check_iff)
  qed
qed

section \<open>Properties\<close>

lemma evaluate_rules_InrE:
  assumes "evaluate_rules schema_ok conforms rules payload latency_ms = Inr out"
  obtains results where "validate_rules schema_ok rules = Inr ()"
    "evaluate_each conforms rules (JDict payload) latency_ms = Inr results"
    "out = \<lparr>eo_passed = list_all result_passed results, eo_rule_results = results\<rparr>"
  using assms by (auto simp: evaluate_rules_def)

lemma res_fold_unit_each: "res_fold (\<lambda>x _. f x) xs () = Inr () \<longleftrightarrow> (\<forall>x \<in> set xs. f x = Inr ())"
proof (induction xs)
  case (Cons x xs)
  then show ?case by (cases "f x") auto
qed simp

lemma validate_rules_each: "validate_rules schema_ok rules = Inr () \<Longrightarrow> \<forall>rule \<in> set rules. validate_rule schema_ok rule = Inr ()"
  by (auto simp: validate_rules_def res_fold_unit_each split: if_splits)

lemma validate_rule_kind: "validate_rule schema_ok rule = Inr () \<Longrightarrow> \<exists>kind. rule_kind rule = Some kind"
  by (auto simp: validate_rule_def split: option.splits)

text \<open>
  C29. An evaluation passes exactly when every rule holds of the run's output: the path of the rule
  leads to a value and that value is non-empty, satisfies the schema, exists, equals, differs from or
  contains the expected value as the rule says, or the measured latency is within the rule's budget.
\<close>

theorem evaluation_passes_iff_rules_hold:
  assumes "evaluate_rules schema_ok conforms rules payload latency_ms = Inr out"
  shows "eo_passed out \<longleftrightarrow> (\<forall>rule \<in> set rules. rule_holds conforms (JDict payload) latency_ms rule)"
proof -
  obtain results where r: "validate_rules schema_ok rules = Inr ()"
    "evaluate_each conforms rules (JDict payload) latency_ms = Inr results"
    "out = \<lparr>eo_passed = list_all result_passed results, eo_rule_results = results\<rparr>"
    using assms by (rule evaluate_rules_InrE)
  have "list_all2 (\<lambda>rule item. result_passed item \<longleftrightarrow> rule_holds conforms (JDict payload) latency_ms rule) rules results"
    by (rule list.rel_mono_strong [OF evaluate_each_Inr [OF r(2)]])
      (metis evaluate_rule_holds validate_rule_kind validate_rules_each [OF r(1)])
  then have "list_all result_passed results \<longleftrightarrow> list_all (rule_holds conforms (JDict payload) latency_ms) rules"
    by (induction rule: list_all2_induct) auto
  then show ?thesis by (simp add: r(3) list_all_iff)
qed

definition sample_answer :: dict where
  "sample_answer = [(''items'', JList [JStr ''alpha'', JStr ''beta'']), (''note'', JStr ''ok'')]"

definition sample_checks :: "dict list" where
  "sample_checks =
     [[(''type'', JStr ''rule''), (''path'', JStr ''items.1''), (''operator'', JStr ''contains''), (''value'', JStr ''et'')],
      [(''type'', JStr ''non_empty''), (''path'', JStr ''note'')],
      [(''type'', JStr ''latency_budget''), (''max_ms'', JInt 100)]]"

theorem evaluation_passes_iff_rules_hold_witness:
  "\<exists>out. evaluate_rules (\<lambda>_. True) (\<lambda>_ _. True) sample_checks sample_answer (Some 42) = Inr out \<and> eo_passed out \<and>
   list_all (rule_holds (\<lambda>_ _. True) (JDict sample_answer) (Some 42)) sample_checks"
proof -
  let ?items = "[rule_result ''rule'' ''items.1'' True ''contains check passed'',
    rule_result ''non_empty'' ''note'' True ''value is non-empty'',
    rule_result ''latency_budget'' [] True ''latency is within budget'']"
  let ?out = "\<lparr>eo_passed = True, eo_rule_results = ?items\<rparr>"
  have "validate_rules (\<lambda>_. True) sample_checks = Inr ()" by code_simp
  moreover have "bounded_value (JDict sample_answer) 10000 16 = Inr ()" by code_simp
  moreover have "evaluate_each (\<lambda>_ _. True) sample_checks (JDict sample_answer) (Some 42) = Inr ?items" by code_simp
  ultimately have out: "evaluate_rules (\<lambda>_. True) (\<lambda>_ _. True) sample_checks sample_answer (Some 42) = Inr ?out"
    by (simp add: evaluate_rules_def)
  then show ?thesis using evaluation_passes_iff_rules_hold [OF out] by (auto simp: list_all_iff)
qed

lemma possible_results_unique:
  assumes "dget rule ''type'' \<noteq> Some (JStr ''json_schema'')"
    and "x \<in> set (possible_results rule b)" "y \<in> set (possible_results rule b)"
  shows "x = y"
proof -
  have "length (possible_results rule b) \<le> 1"
    using assms(1) by (simp add: possible_results_def split: option.split json.split)
  then show ?thesis using assms(2,3) by (cases "possible_results rule b") auto
qed

text \<open>
  The stored outcome of an evaluation keeps nothing of the output it examined beyond pass or fail:
  two evaluations with the same rules (none of them a schema rule, which also reports a missing path)
  and the same verdicts store the same outcome, whatever the outputs and latencies were.
\<close>

theorem outcome_reveals_verdicts_only:
  assumes "evaluate_rules schema_ok conforms rules payload latency_ms = Inr out"
    and "evaluate_rules schema_ok' conforms' rules payload' latency_ms' = Inr out'"
    and "map result_passed (eo_rule_results out) = map result_passed (eo_rule_results out')"
    and "\<forall>rule \<in> set rules. dget rule ''type'' \<noteq> Some (JStr ''json_schema'')"
  shows "out' = out"
proof -
  obtain xs ys where r: "evaluate_each conforms rules (JDict payload) latency_ms = Inr xs"
    "out = \<lparr>eo_passed = list_all result_passed xs, eo_rule_results = xs\<rparr>"
    "evaluate_each conforms' rules (JDict payload') latency_ms' = Inr ys"
    "out' = \<lparr>eo_passed = list_all result_passed ys, eo_rule_results = ys\<rparr>"
    using assms(1,2) by (elim evaluate_rules_InrE) blast
  have same: "x = y" if "evaluate_rule conforms rule p l = Inr x" "evaluate_rule conforms' rule p' l' = Inr y"
    "result_passed x = result_passed y" "dget rule ''type'' \<noteq> Some (JStr ''json_schema'')" for rule p l p' l' x y
    by (rule possible_results_unique [OF that(4) evaluate_rule_possible [OF that(1)]])
      (use evaluate_rule_possible [OF that(2)] that(3) in simp)
  have len: "length xs = length rules" "length ys = length rules"
    using r(1,3) by (auto dest!: evaluate_each_Inr list_all2_lengthD)
  have "xs ! i = ys ! i" if "i < length rules" for i
  proof (rule same)
    show "evaluate_rule conforms (rules ! i) (JDict payload) latency_ms = Inr (xs ! i)"
      using list_all2_nthD [OF evaluate_each_Inr [OF r(1)] that] .
    show "evaluate_rule conforms' (rules ! i) (JDict payload') latency_ms' = Inr (ys ! i)"
      using list_all2_nthD [OF evaluate_each_Inr [OF r(3)] that] .
    have "map result_passed xs ! i = map result_passed ys ! i" using assms(3) r(2,4) by simp
    then show "result_passed (xs ! i) = result_passed (ys ! i)" using that len by simp
    show "dget (rules ! i) ''type'' \<noteq> Some (JStr ''json_schema'')" using assms(4) that by auto
  qed
  then have "xs = ys" using len by (simp add: list_eq_iff_nth_eq)
  then show ?thesis using r(2,4) by simp
qed

definition probe :: "dict list" where
  "probe = [[(''type'', JStr ''non_empty''), (''path'', JStr ''k'')]]"

theorem outcome_reveals_verdicts_only_witness:
  "evaluate_rules (\<lambda>_. True) (\<lambda>_ _. True) probe [(''k'', JStr ''secret'')] None
   = evaluate_rules (\<lambda>_. True) (\<lambda>_ _. True) probe [(''k'', JInt 7)] (Some 3)"
proof -
  let ?items = "[rule_result ''non_empty'' ''k'' True ''value is non-empty'']"
  have v: "validate_rules (\<lambda>_. True) probe = Inr ()" by code_simp
  have b: "bounded_value (JDict [(''k'', JStr ''secret'')]) 10000 16 = Inr ()" "bounded_value (JDict [(''k'', JInt 7)]) 10000 16 = Inr ()"
    by code_simp+
  have e: "evaluate_each (\<lambda>_ _. True) probe (JDict [(''k'', JStr ''secret'')]) None = Inr ?items"
    "evaluate_each (\<lambda>_ _. True) probe (JDict [(''k'', JInt 7)]) (Some 3) = Inr ?items" by code_simp+
  obtain o1 o2 where o1: "evaluate_rules (\<lambda>_. True) (\<lambda>_ _. True) probe [(''k'', JStr ''secret'')] None = Inr o1"
      "eo_rule_results o1 = ?items"
    and o2: "evaluate_rules (\<lambda>_. True) (\<lambda>_ _. True) probe [(''k'', JInt 7)] (Some 3) = Inr o2" "eo_rule_results o2 = ?items"
    by (simp add: evaluate_rules_def v b e)
  have "\<forall>rule \<in> set probe. dget rule ''type'' \<noteq> Some (JStr ''json_schema'')" by (simp add: probe_def dget_def)
  then show ?thesis using outcome_reveals_verdicts_only [OF o1(1) o2(1)] o1 o2 by simp
qed

text \<open>
  C30. Rules that were accepted are never the reason an evaluation fails: on accepted rules whose list
  indices are ASCII digits, and any output within the size bounds, the engine returns an outcome with
  one result for each rule.
\<close>

theorem accepted_rules_evaluate:
  assumes "validate_rules schema_ok rules = Inr ()" "list_all ascii_indices rules"
    and "bounded_value (JDict payload) 10000 16 = Inr ()"
  shows "\<exists>out. evaluate_rules schema_ok conforms rules payload latency_ms = Inr out \<and>
    length (eo_rule_results out) = length rules"
proof -
  have "\<exists>items. evaluate_each conforms rs (JDict payload) latency_ms = Inr items" if "set rs \<subseteq> set rules" for rs
    using that
  proof (induction rs)
    case (Cons rule rs)
    then have "validate_rule schema_ok rule = Inr ()" "ascii_indices rule"
      using validate_rules_each [OF assms(1)] assms(2) by (auto simp: list_all_iff)
    then obtain item where "evaluate_rule conforms rule (JDict payload) latency_ms = Inr item"
      using validated_rule_evaluates by blast
    then show ?case using Cons by auto
  qed simp
  then obtain items where items: "evaluate_each conforms rules (JDict payload) latency_ms = Inr items" by blast
  have "length items = length rules" using list_all2_lengthD [OF evaluate_each_Inr [OF items]] by simp
  then show ?thesis using assms(1,3) items by (simp add: evaluate_rules_def)
qed

theorem accepted_rules_evaluate_witness:
  "\<exists>out. evaluate_rules (\<lambda>_. True) (\<lambda>_ _. False) sample_checks sample_answer None = Inr out \<and> length (eo_rule_results out) = 3"
proof -
  have "validate_rules (\<lambda>_. True) sample_checks = Inr ()" "list_all ascii_indices sample_checks"
    "bounded_value (JDict sample_answer) 10000 16 = Inr ()" "length sample_checks = 3" by code_simp+
  then show ?thesis using accepted_rules_evaluate [of "\<lambda>_. True" sample_checks sample_answer "\<lambda>_ _. False" None] by simp
qed

text \<open>The condition on indices is needed: \<open>isdigit\<close> accepts a superscript digit that \<open>int\<close> refuses.\<close>

lemma superscript_index_fails:
  "validate_rules (\<lambda>_. True) [[(''type'', JStr ''non_empty''), (''path'', JStr [CHR ''a'', CHR ''.'', CHR 0xB2])]] = Inr () \<and>
   evaluate_rules (\<lambda>_. True) (\<lambda>_ _. True) [[(''type'', JStr ''non_empty''), (''path'', JStr [CHR ''a'', CHR ''.'', CHR 0xB2])]]
     [(''a'', JList [JInt 1])] None = Inl (ValueError ''invalid literal for int() with base 10'')"
  by code_simp

end
