(* ===== verification/Regression.thy ===== *)
theory Regression
  imports Evaluation_Engine Execution_Service
begin

text \<open>
  \<open>evaluation/regression.py\<close>: a versioned dataset run against a baseline and a candidate target, and the
  comparison of the two results under gates. The executor is an argument that threads a state of its
  own; the readings of \<open>time.perf_counter\<close> are the argument \<open>ticks\<close>, three for each case (start, after the
  execution, after a failure).
\<close>

section \<open>Datasets\<close>

record regression_case =
  case_id :: string
  case_input :: dict
  case_rules :: "dict list"

record regression_dataset =
  dataset_id :: string
  dataset_version :: string
  dataset_cases :: "regression_case list"

text \<open>A field that must be a string with a non-blank character.\<close>

definition non_blank :: "dict \<Rightarrow> string \<Rightarrow> string \<Rightarrow> string res" where
  "non_blank d k message = (case dget d k of
     Some (JStr s) \<Rightarrow> if strip s \<noteq> [] then Inr s else Inl (ValueError message)
   | _ \<Rightarrow> Inl (ValueError message))"

fun dict_of :: "json \<Rightarrow> dict" where
  "dict_of (JDict d) = d"
| "dict_of _ = []"

definition read_case :: "json \<Rightarrow> string list \<Rightarrow> regression_case res" where
  "read_case raw_case case_ids = (case raw_case of
     JDict d \<Rightarrow>
       res_bind (non_blank d ''case_id'' ''every dataset case requires a non-empty case_id'') (\<lambda>cid.
         if cid \<in> set case_ids then Inl (ValueError ''dataset case_id values must be unique'')
         else (case dget d ''input'' of
           Some (JDict inp) \<Rightarrow>
             if inp = [] then Inl (ValueError ''every dataset case requires a non-empty input object'')
             else (case dget d ''rules'' of
               Some (JList rules) \<Rightarrow>
                 if rules = [] \<or> \<not> list_all is_dict rules
                 then Inl (ValueError ''every dataset case requires a non-empty rules list'')
                 else Inr \<lparr>case_id = cid, case_input = inp, case_rules = map dict_of rules\<rparr>
             | _ \<Rightarrow> Inl (ValueError ''every dataset case requires a non-empty rules list''))
         | _ \<Rightarrow> Inl (ValueError ''every dataset case requires a non-empty input object'')))
   | _ \<Rightarrow> Inl (ValueError ''every dataset case must be an object''))"

fun read_cases :: "json list \<Rightarrow> string list \<Rightarrow> regression_case list res" where
  "read_cases [] case_ids = Inr []"
| "read_cases (raw # raws) case_ids =
     res_bind (read_case raw case_ids) (\<lambda>cs.
       res_bind (read_cases raws (case_id cs # case_ids)) (\<lambda>rest. Inr (cs # rest)))"

definition from_mapping :: "dict \<Rightarrow> regression_dataset res" where
  "from_mapping v =
     res_bind (non_blank v ''dataset_id'' ''dataset_id must be a non-empty string'') (\<lambda>did.
     res_bind (non_blank v ''version'' ''dataset.version must be a non-empty string'') (\<lambda>ver.
       case dget v ''cases'' of
         Some (JList raws) \<Rightarrow>
           if raws = [] then Inl (ValueError ''dataset.cases must be a non-empty list'')
           else res_bind (read_cases raws []) (\<lambda>cases.
             Inr \<lparr>dataset_id = did, dataset_version = ver, dataset_cases = cases\<rparr>)
       | _ \<Rightarrow> Inl (ValueError ''dataset.cases must be a non-empty list'')))"

section \<open>Targets and gates\<close>

record target =
  t_provider :: string
  t_model :: "string option"
  t_cost :: int

definition ProviderModelTarget :: "string \<Rightarrow> string option \<Rightarrow> int \<Rightarrow> target res" where
  "ProviderModelTarget prov model cost =
     (if strip prov = [] then Inl (ValueError ''target.provider must be a non-empty string'')
      else if (case model of None \<Rightarrow> False | Some m \<Rightarrow> strip m = [])
      then Inl (ValueError ''target.model must be non-empty when provided'')
      else if cost < 0 then Inl (ValueError ''target.estimated_cost_microusd must be non-negative'')
      else Inr \<lparr>t_provider = prov, t_model = model, t_cost = cost\<rparr>)"

definition target_as_dict :: "target \<Rightarrow> dict" where
  "target_as_dict t = [(''provider'', JStr (t_provider t)), (''model'', jstr_opt (t_model t)),
     (''estimated_cost_microusd'', JInt (t_cost t))]"

text \<open>The gates keep the numbers as they were given; JNull is an absent gate.\<close>

record gates =
  max_quality_regression_points :: json
  max_latency_regression_percent :: json
  max_cost_regression_percent :: json

text \<open>\<open>any(value is not None and value < 0 for value in values)\<close>, which stops at the first hit.\<close>

fun gates_check :: "json list \<Rightarrow> unit res" where
  "gates_check [] = Inr ()"
| "gates_check (JNull # vs) = gates_check vs"
| "gates_check (v # vs) = (case num_of v of
     None \<Rightarrow> Inl (TypeError ''not supported between these instances'')
   | Some x \<Rightarrow> if f_lt x (Fin 0) then Inl (ValueError ''regression gates must be non-negative'') else gates_check vs)"

definition RegressionGates :: "json \<Rightarrow> json \<Rightarrow> json \<Rightarrow> gates res" where
  "RegressionGates quality latency cost =
     res_bind (gates_check [quality, latency, cost]) (\<lambda>_.
       Inr \<lparr>max_quality_regression_points = quality, max_latency_regression_percent = latency,
            max_cost_regression_percent = cost\<rparr>)"

definition default_gates :: gates where
  "default_gates = \<lparr>max_quality_regression_points = JFloat (Fin 0), max_latency_regression_percent = JNull,
     max_cost_regression_percent = JNull\<rparr>"

section \<open>Running a target\<close>

definition target_policy :: "target \<Rightarrow> dict" where
  "target_policy t = (''provider_order'', JList [JStr (t_provider t)]) #
     (case t_model t of None \<Rightarrow> [] | Some m \<Rightarrow> [(''model'', JStr m)])"

datatype case_detail = Rules "dict list" | ErrorType string

record case_result =
  cr_case_id :: string
  cr_passed :: bool
  cr_latency_ms :: int
  cr_cost :: int
  cr_detail :: case_detail

type_synonym 's runner = "string \<Rightarrow> dict \<Rightarrow> dict \<Rightarrow> 's \<Rightarrow> execution_result res \<times> 's"

text \<open>\<open>round((time.perf_counter() - started_at) * 1000)\<close> at the k-th reading of case i.\<close>

definition measured_ms :: "(nat \<Rightarrow> rat) \<Rightarrow> nat \<Rightarrow> nat \<Rightarrow> int" where
  "measured_ms ticks i k = rhe (fl (fl (ticks (3 * i + k) - ticks (3 * i)) * 1000))"

definition failed_case :: "target \<Rightarrow> regression_case \<Rightarrow> int \<Rightarrow> exn \<Rightarrow> case_result" where
  "failed_case t cs latency e = \<lparr>cr_case_id = case_id cs, cr_passed = False, cr_latency_ms = latency,
     cr_cost = t_cost t, cr_detail = ErrorType (exn_name e)\<rparr>"

definition judged_case :: "target \<Rightarrow> regression_case \<Rightarrow> int \<Rightarrow> evaluation_outcome \<Rightarrow> case_result" where
  "judged_case t cs latency out = \<lparr>cr_case_id = case_id cs, cr_passed = eo_passed out, cr_latency_ms = latency,
     cr_cost = t_cost t, cr_detail = Rules (eo_rule_results out)\<rparr>"

definition run_case ::
  "(json \<Rightarrow> bool) \<Rightarrow> (json \<Rightarrow> json \<Rightarrow> bool) \<Rightarrow> 's runner \<Rightarrow> (nat \<Rightarrow> rat) \<Rightarrow> target \<Rightarrow> nat \<Rightarrow> regression_case \<Rightarrow> 's
   \<Rightarrow> case_result res \<times> 's" where
  "run_case schema_ok conforms exec ticks t i cs s =
     (case exec (t_provider t) (case_input cs) (target_policy t) s of
        (Inl e, s') \<Rightarrow>
          (if is_QuotaExceededError e then Inl e else Inr (failed_case t cs (measured_ms ticks i 2) e), s')
      | (Inr result, s') \<Rightarrow>
          (case evaluate_rules schema_ok conforms (case_rules cs) (x_result_payload result) (Some (measured_ms ticks i 1)) of
             Inl e \<Rightarrow>
               (if is_QuotaExceededError e then Inl e else Inr (failed_case t cs (measured_ms ticks i 2) e), s')
           | Inr out \<Rightarrow> (Inr (judged_case t cs (measured_ms ticks i 1) out), s')))"

fun run_cases ::
  "(json \<Rightarrow> bool) \<Rightarrow> (json \<Rightarrow> json \<Rightarrow> bool) \<Rightarrow> 's runner \<Rightarrow> (nat \<Rightarrow> rat) \<Rightarrow> target \<Rightarrow> nat \<Rightarrow> regression_case list \<Rightarrow> 's
   \<Rightarrow> case_result list res \<times> 's" where
  "run_cases schema_ok conforms exec ticks t i [] s = (Inr [], s)"
| "run_cases schema_ok conforms exec ticks t i (cs # rest) s =
     (case run_case schema_ok conforms exec ticks t i cs s of
        (Inl e, s') \<Rightarrow> (Inl e, s')
      | (Inr r, s') \<Rightarrow>
          (case run_cases schema_ok conforms exec ticks t (Suc i) rest s' of
             (Inl e, s'') \<Rightarrow> (Inl e, s'')
           | (Inr rs, s'') \<Rightarrow> (Inr (r # rs), s'')))"

record target_result =
  tr_target :: target
  tr_cases :: "case_result list"
  tr_passed_cases :: int
  tr_failed_cases :: int
  tr_pass_rate :: rat
  tr_average_latency_ms :: rat
  tr_estimated_cost :: int

definition passed_count :: "case_result list \<Rightarrow> int" where
  "passed_count rs = int (length (filter cr_passed rs))"

definition summarize :: "target \<Rightarrow> case_result list \<Rightarrow> target_result res" where
  "summarize t rs =
     (if rs = [] then Inl (ForeignError ''ZeroDivisionError'' None)
      else Inr \<lparr>tr_target = t, tr_cases = rs, tr_passed_cases = passed_count rs,
        tr_failed_cases = int (length rs) - passed_count rs,
        tr_pass_rate = py_round 6 (fl (of_int (passed_count rs) / of_nat (length rs))),
        tr_average_latency_ms = py_round 3 (fl (of_int (sum_list (map cr_latency_ms rs)) / of_nat (length rs))),
        tr_estimated_cost = sum_list (map cr_cost rs)\<rparr>)"

definition run_target ::
  "(json \<Rightarrow> bool) \<Rightarrow> (json \<Rightarrow> json \<Rightarrow> bool) \<Rightarrow> 's runner \<Rightarrow> (nat \<Rightarrow> rat) \<Rightarrow> regression_dataset \<Rightarrow> target \<Rightarrow> 's
   \<Rightarrow> target_result res \<times> 's" where
  "run_target schema_ok conforms exec ticks ds t s =
     (case run_cases schema_ok conforms exec ticks t 0 (dataset_cases ds) s of
        (Inl e, s') \<Rightarrow> (Inl e, s')
      | (Inr rs, s') \<Rightarrow> (summarize t rs, s'))"

section \<open>Comparing two results\<close>

text \<open>A measure is an int (a cost) or a float (an average latency).\<close>

datatype measure = IntM int | FloatM rat

fun measure_value :: "measure \<Rightarrow> rat" where
  "measure_value (IntM i) = of_int i"
| "measure_value (FloatM x) = x"

fun measure_json :: "measure \<Rightarrow> json" where
  "measure_json (IntM i) = JInt i"
| "measure_json (FloatM x) = JFloat (Fin x)"

text \<open>\<open>round(candidate - baseline, 3)\<close>: an int stays an int.\<close>

fun absolute_delta :: "measure \<Rightarrow> measure \<Rightarrow> measure" where
  "absolute_delta (IntM b) (IntM c) = IntM (c - b)"
| "absolute_delta b c = FloatM (py_round 3 (fl (measure_value c - measure_value b)))"

text \<open>\<open>(candidate - baseline) / baseline * 100\<close>: the quotient of two ints is rounded once.\<close>

fun relative_change :: "measure \<Rightarrow> measure \<Rightarrow> rat" where
  "relative_change (IntM b) (IntM c) = fl (of_int (c - b) / of_int b)"
| "relative_change b c = fl (fl (measure_value c - measure_value b) / measure_value b)"

definition percent_delta :: "measure \<Rightarrow> measure \<Rightarrow> rat option" where
  "percent_delta b c =
     (if measure_value b = 0 then (if measure_value c = 0 then Some 0 else None)
      else Some (py_round 3 (fl (relative_change b c * 100))))"

record metric_comparison =
  mc_baseline :: measure
  mc_candidate :: measure
  mc_absolute_delta :: measure
  mc_percent_delta :: "rat option"
  mc_max_percent :: json
  mc_regressed :: bool

definition metric_regressed :: "measure \<Rightarrow> measure \<Rightarrow> json \<Rightarrow> bool" where
  "metric_regressed b c allowed = (case num_of allowed of
     None \<Rightarrow> False
   | Some limit \<Rightarrow> (case percent_delta b c of
       None \<Rightarrow> measure_value b < measure_value c
     | Some p \<Rightarrow> f_lt limit (Fin p)))"

definition compare_metric :: "measure \<Rightarrow> measure \<Rightarrow> json \<Rightarrow> metric_comparison" where
  "compare_metric b c allowed = \<lparr>mc_baseline = b, mc_candidate = c, mc_absolute_delta = absolute_delta b c,
     mc_percent_delta = percent_delta b c, mc_max_percent = allowed, mc_regressed = metric_regressed b c allowed\<rparr>"

definition quality_delta :: "rat \<Rightarrow> rat \<Rightarrow> rat" where
  "quality_delta base cand = py_round 3 (fl (fl (cand - base) * 100))"

fun f_neg :: "pyfloat \<Rightarrow> pyfloat" where
  "f_neg (Fin x) = Fin (- x)"
| "f_neg PosInf = NegInf"
| "f_neg NegInf = PosInf"
| "f_neg NaN = NaN"

record comparison =
  cmp_baseline_rate :: rat
  cmp_candidate_rate :: rat
  cmp_delta_points :: rat
  cmp_max_points :: json
  cmp_quality_regressed :: bool
  cmp_latency :: metric_comparison
  cmp_cost :: metric_comparison
  cmp_passed :: bool

definition compare_results :: "target_result \<Rightarrow> target_result \<Rightarrow> gates \<Rightarrow> comparison res" where
  "compare_results b c g =
     (case num_of (max_quality_regression_points g) of
        None \<Rightarrow> Inl (TypeError ''bad operand type for unary -'')
      | Some points \<Rightarrow>
          (let latency = compare_metric (FloatM (tr_average_latency_ms b)) (FloatM (tr_average_latency_ms c))
                 (max_latency_regression_percent g);
               cost = compare_metric (IntM (tr_estimated_cost b)) (IntM (tr_estimated_cost c))
                 (max_cost_regression_percent g);
               delta = quality_delta (tr_pass_rate b) (tr_pass_rate c);
               quality_regressed = f_lt (Fin delta) (f_neg points)
           in Inr \<lparr>cmp_baseline_rate = tr_pass_rate b, cmp_candidate_rate = tr_pass_rate c, cmp_delta_points = delta,
                cmp_max_points = max_quality_regression_points g, cmp_quality_regressed = quality_regressed,
                cmp_latency = latency, cmp_cost = cost,
                cmp_passed = (\<not> quality_regressed \<and> \<not> mc_regressed latency \<and> \<not> mc_regressed cost)\<rparr>))"

section \<open>The report\<close>

definition case_dict :: "case_result \<Rightarrow> dict" where
  "case_dict r = [(''case_id'', JStr (cr_case_id r)), (''passed'', JBool (cr_passed r)),
     (''latency_ms'', JInt (cr_latency_ms r)), (''estimated_cost_microusd'', JInt (cr_cost r)),
     (case cr_detail r of Rules rs \<Rightarrow> (''rules'', JList (map JDict rs)) | ErrorType n \<Rightarrow> (''error_type'', JStr n))]"

definition target_dict :: "target_result \<Rightarrow> dict" where
  "target_dict r = [(''target'', JDict (target_as_dict (tr_target r))),
     (''cases'', JList (map (\<lambda>c. JDict (case_dict c)) (tr_cases r))),
     (''summary'', JDict [(''passed_cases'', JInt (tr_passed_cases r)), (''failed_cases'', JInt (tr_failed_cases r)),
       (''pass_rate'', JFloat (Fin (tr_pass_rate r))), (''average_latency_ms'', JFloat (Fin (tr_average_latency_ms r))),
       (''estimated_cost_microusd'', JInt (tr_estimated_cost r))])]"

definition metric_dict :: "metric_comparison \<Rightarrow> dict" where
  "metric_dict m = [(''baseline'', measure_json (mc_baseline m)), (''candidate'', measure_json (mc_candidate m)),
     (''absolute_delta'', measure_json (mc_absolute_delta m)),
     (''percent_delta'', case mc_percent_delta m of None \<Rightarrow> JNull | Some p \<Rightarrow> JFloat (Fin p)),
     (''max_regression_percent'', mc_max_percent m), (''regressed'', JBool (mc_regressed m))]"

definition comparison_dict :: "comparison \<Rightarrow> dict" where
  "comparison_dict c = [
     (''quality'', JDict [(''baseline_pass_rate'', JFloat (Fin (cmp_baseline_rate c))),
       (''candidate_pass_rate'', JFloat (Fin (cmp_candidate_rate c))), (''delta_points'', JFloat (Fin (cmp_delta_points c))),
       (''max_regression_points'', cmp_max_points c), (''regressed'', JBool (cmp_quality_regressed c))]),
     (''latency'', JDict (metric_dict (cmp_latency c))), (''cost'', JDict (metric_dict (cmp_cost c))),
     (''passed'', JBool (cmp_passed c))]"

definition REPORT_SCHEMA_VERSION :: string where
  "REPORT_SCHEMA_VERSION = ''evaluation-regression-report.v1''"

definition has_error :: "target_result \<Rightarrow> bool" where
  "has_error r = list_ex (\<lambda>c. case cr_detail c of ErrorType _ \<Rightarrow> True | Rules _ \<Rightarrow> False) (tr_cases r)"

definition final_comparison :: "target_result \<Rightarrow> target_result \<Rightarrow> comparison \<Rightarrow> comparison" where
  "final_comparison b c cmp = (if has_error b \<or> has_error c then cmp\<lparr>cmp_passed := False\<rparr> else cmp)"

definition report_dict :: "regression_dataset \<Rightarrow> target_result \<Rightarrow> target_result \<Rightarrow> comparison \<Rightarrow> dict" where
  "report_dict ds b c cmp = [(''schema_version'', JStr REPORT_SCHEMA_VERSION),
     (''dataset'', JDict [(''dataset_id'', JStr (dataset_id ds)), (''version'', JStr (dataset_version ds)),
       (''case_count'', JInt (int (length (dataset_cases ds))))]),
     (''baseline'', JDict (target_dict b)), (''candidate'', JDict (target_dict c)),
     (''comparison'', JDict (comparison_dict cmp)), (''passed'', JBool (cmp_passed cmp))]"

definition run_regression ::
  "(json \<Rightarrow> bool) \<Rightarrow> (json \<Rightarrow> json \<Rightarrow> bool) \<Rightarrow> 's runner \<Rightarrow> (nat \<Rightarrow> rat) \<Rightarrow> (nat \<Rightarrow> rat) \<Rightarrow> regression_dataset \<Rightarrow> target \<Rightarrow> target
   \<Rightarrow> gates option \<Rightarrow> 's \<Rightarrow> dict res \<times> 's" where
  "run_regression schema_ok conforms exec ticks ticks' ds base cand g s =
     (case run_target schema_ok conforms exec ticks ds base s of
        (Inl e, s') \<Rightarrow> (Inl e, s')
      | (Inr b, s') \<Rightarrow> (case run_target schema_ok conforms exec ticks' ds cand s' of
          (Inl e, s'') \<Rightarrow> (Inl e, s'')
        | (Inr c, s'') \<Rightarrow>
            (res_bind (compare_results b c (case g of None \<Rightarrow> default_gates | Some g' \<Rightarrow> g')) (\<lambda>cmp.
               Inr (report_dict ds b c (final_comparison b c cmp))), s'')))"

end
