(* ===== verification/Regression_Runs.thy ===== *)
theory Regression_Runs
  imports Regression
begin

text \<open>The regression runner: well-formed datasets, which failures end a job, and one call for each case and target.\<close>

section \<open>Datasets\<close>

definition case_ok :: "regression_case \<Rightarrow> bool" where
  "case_ok cs \<longleftrightarrow> strip (case_id cs) \<noteq> [] \<and> case_input cs \<noteq> [] \<and> case_rules cs \<noteq> []"

definition dataset_ok :: "regression_dataset \<Rightarrow> bool" where
  "dataset_ok ds \<longleftrightarrow> strip (dataset_id ds) \<noteq> [] \<and> strip (dataset_version ds) \<noteq> [] \<and> dataset_cases ds \<noteq> [] \<and>
     distinct (map case_id (dataset_cases ds)) \<and> list_all case_ok (dataset_cases ds)"

lemma non_blank_Inr: "non_blank d k m = Inr s \<Longrightarrow> strip s \<noteq> []"
  by (auto simp: non_blank_def split: option.splits json.splits if_splits)

lemma read_case_Inr: "read_case raw ids = Inr cs \<Longrightarrow> case_ok cs \<and> case_id cs \<notin> set ids"
  by (auto simp: read_case_def case_ok_def dest!: non_blank_Inr split: json.splits option.splits if_splits)

lemma read_cases_Inr:
  "read_cases raws ids = Inr css \<Longrightarrow> list_all case_ok css \<and> distinct (map case_id css) \<and>
   set ids \<inter> case_id ` set css = {} \<and> length css = length raws"
proof (induction raws arbitrary: ids css)
  case (Cons raw raws)
  then obtain cs rest where r: "read_case raw ids = Inr cs" "read_cases raws (case_id cs # ids) = Inr rest" "css = cs # rest"
    by auto
  show ?case using Cons.IH [OF r(2)] read_case_Inr [OF r(1)] r(3) by auto
qed simp

text \<open>
  A dataset that was read is well formed: it and its version are named, it has at least one case,
  every case has a name of its own, an input and rules.
\<close>

theorem from_mapping_well_formed: "from_mapping v = Inr ds \<Longrightarrow> dataset_ok ds"
  by (auto simp: from_mapping_def dataset_ok_def split: option.splits json.splits if_splits
      dest!: non_blank_Inr read_cases_Inr)

definition sample_dataset_json :: dict where
  "sample_dataset_json = [(''dataset_id'', JStr ''qa''), (''version'', JStr ''1''),
     (''cases'', JList [JDict [(''case_id'', JStr ''a''), (''input'', JDict [(''prompt'', JStr ''hi'')]),
       (''rules'', JList [JDict [(''type'', JStr ''non_empty''), (''path'', JStr ''accepted'')]])]])]"

definition sample_case :: regression_case where
  "sample_case = \<lparr>case_id = ''a'', case_input = [(''prompt'', JStr ''hi'')],
     case_rules = [[(''type'', JStr ''non_empty''), (''path'', JStr ''accepted'')]]\<rparr>"

definition sample_dataset :: regression_dataset where
  "sample_dataset = \<lparr>dataset_id = ''qa'', dataset_version = ''1'', dataset_cases = [sample_case]\<rparr>"

lemma read_sample_dataset: "from_mapping sample_dataset_json = Inr sample_dataset"
  by code_simp

theorem from_mapping_well_formed_witness: "dataset_ok sample_dataset"
  by (rule from_mapping_well_formed [OF read_sample_dataset])

section \<open>Failures\<close>

lemma run_case_failure: "run_case sok conf exec ticks t i cs s = (Inl e, s') \<Longrightarrow> is_QuotaExceededError e"
  by (auto simp: run_case_def split: prod.splits sum.splits if_splits)

lemma run_cases_failure: "run_cases sok conf exec ticks t i css s = (Inl e, s') \<Longrightarrow> is_QuotaExceededError e"
proof (induction css arbitrary: i s)
  case (Cons cs css)
  then show ?case by (auto dest: run_case_failure split: prod.splits sum.splits)
qed simp

lemma run_cases_length: "run_cases sok conf exec ticks t i css s = (Inr rs, s') \<Longrightarrow> length rs = length css"
proof (induction css arbitrary: i s rs)
  case (Cons cs css)
  then show ?case by (auto split: prod.splits sum.splits)
qed simp

lemma run_target_Inr:
  assumes "run_target sok conf exec ticks ds t s = (Inr r, s')"
  obtains rs where "summarize t rs = Inr r" "length rs = length (dataset_cases ds)"
  using assms by (auto simp: run_target_def dest: run_cases_length split: prod.splits sum.splits)

lemma run_target_failure:
  assumes "run_target sok conf exec ticks ds t s = (Inl e, s')" "dataset_cases ds \<noteq> []"
  shows "is_QuotaExceededError e"
  using assms by (auto simp: run_target_def summarize_def dest: run_cases_failure run_cases_length
      split: prod.splits sum.splits if_splits)

lemma gates_check_number: "gates_check (v # vs) = Inr () \<Longrightarrow> v \<noteq> JNull \<Longrightarrow> \<exists>x. num_of v = Some x \<and> \<not> f_lt x (Fin 0)"
  by (cases v) (auto split: if_splits option.splits)


definition spent_runner :: "nat runner" where
  "spent_runner prov inp pol n =
     (if n = 0 then (Inl (QuotaExceededError ''spent''), 0)
      else (Inr \<lparr>x_provider = prov, x_result_payload = [(''accepted'', JBool True)], x_usage = None\<rparr>, n - 1))"

definition sample_target :: target where
  "sample_target = \<lparr>t_provider = ''deterministic'', t_model = None, t_cost = 5\<rparr>"


section \<open>One call for each case and target\<close>

text \<open>An executor that also records its calls.\<close>

definition recording :: "'s runner \<Rightarrow> ((string \<times> dict \<times> dict) list \<times> 's) runner" where
  "recording exec prov inp pol st = (case exec prov inp pol (snd st) of (r, s') \<Rightarrow> (r, (fst st @ [(prov, inp, pol)], s')))"

definition calls_of :: "target \<Rightarrow> regression_case list \<Rightarrow> (string \<times> dict \<times> dict) list" where
  "calls_of t css = map (\<lambda>cs. (t_provider t, case_input cs, target_policy t)) css"

lemma run_case_calls:
  "run_case sok conf (recording exec) ticks t i cs (h, s) = (r, st) \<Longrightarrow> fst st = h @ calls_of t [cs]"
  by (auto simp: run_case_def recording_def calls_of_def split: prod.splits sum.splits)

lemma run_cases_calls:
  "run_cases sok conf (recording exec) ticks t i css (h, s) = (Inr rs, st) \<Longrightarrow> fst st = h @ calls_of t css"
proof (induction css arbitrary: i h s rs st)
  case (Cons cs css)
  obtain r h1 s1 where c: "run_case sok conf (recording exec) ticks t i cs (h, s) = (r, (h1, s1))" by (metis surj_pair)
  obtain r' rs' where r: "r = Inr r'" "run_cases sok conf (recording exec) ticks t (Suc i) css (h1, s1) = (Inr rs', st)"
    using Cons.prems c by (auto split: sum.splits prod.splits)
  show ?case using Cons.IH [OF r(2)] run_case_calls [OF c] by (simp add: calls_of_def)
qed (simp add: calls_of_def)

lemma run_target_calls:
  "run_target sok conf (recording exec) ticks ds t (h, s) = (Inr r, st) \<Longrightarrow> fst st = h @ calls_of t (dataset_cases ds)"
  by (auto simp: run_target_def split: prod.splits sum.splits dest: run_cases_calls)

text \<open>
  C33. A regression that ends with a report has sent every case of the dataset exactly once to the baseline
  and then exactly once to the candidate, in the order of the dataset, each with its target's policy.
\<close>

theorem regression_calls:
  assumes "run_regression sok conf (recording exec) ticks ticks' ds base cand g ([], s) = (Inr report, st)"
  shows "fst st = calls_of base (dataset_cases ds) @ calls_of cand (dataset_cases ds)"
proof -
  obtain b h1 s1 where b: "run_target sok conf (recording exec) ticks ds base ([], s) = (Inr b, (h1, s1))"
    using assms by (auto simp: run_regression_def split: prod.splits sum.splits)
  obtain c where c: "run_target sok conf (recording exec) ticks' ds cand (h1, s1) = (Inr c, st)"
    using assms b by (auto simp: run_regression_def split: prod.splits sum.splits)
  show ?thesis using run_target_calls [OF b] run_target_calls [OF c] by simp
qed

theorem regression_calls_witness:
  "fst (snd (run_regression (\<lambda>_. True) (\<lambda>_ _. True) (recording spent_runner) (\<lambda>n. of_nat n) (\<lambda>n. of_nat n) sample_dataset
     sample_target sample_target None ([], 2)))
   = calls_of sample_target [sample_case] @ calls_of sample_target [sample_case]"
proof -
  let ?r = "run_regression (\<lambda>_. True) (\<lambda>_ _. True) (recording spent_runner) (\<lambda>n. of_nat n) (\<lambda>n. of_nat n) sample_dataset
     sample_target sample_target None ([], 2)"
  have "isl (fst ?r) = False" by code_simp
  then obtain report where "?r = (Inr report, snd ?r)" by (metis isl_def prod.collapse sum.exhaust_disc sum.collapse(2))
  from regression_calls [OF this] show ?thesis by (simp add: sample_dataset_def)
qed

end
