(* ===== verification/Resource_Executor.thy ===== *)
theory Resource_Executor
  imports Providers Regression_Runs Runtime_System
begin

text \<open>
  \<open>execution/resource_executor.py\<close>: what a worker runs for a claimed run. An evaluation job applies the
  rules to the source run's output; a regression job runs its dataset; any other run is one provider
  call. Every provider call is charged in a transaction of its own, which also checks that the attempt is
  open and the lease alive. Other processes commit between those transactions: \<open>ee_between\<close> gives
  the database the k-th of them finds. \<open>ee_timeout\<close> tells whether \<open>wait_for\<close> gives up on the k-th call.
\<close>

section \<open>Settings and environment\<close>

record exec_settings =
  es_quotas :: quota_limits
  regression_provider_call_budget :: int
  regression_max_cases :: int
  provider_max_output_tokens :: int

record exec_env =
  ee_ctx :: "nat \<Rightarrow> ctx"
  ee_between :: "nat \<Rightarrow> db \<Rightarrow> db"
  ee_timeout :: "nat \<Rightarrow> bool"
  ee_registry :: "nat \<Rightarrow> string \<Rightarrow> adapter"

section \<open>A charged provider call\<close>

definition charge_call :: "ctx \<Rightarrow> quota_limits \<Rightarrow> uuid \<Rightarrow> json \<Rightarrow> uuid \<Rightarrow> db \<Rightarrow> db res" where
  "charge_call c lm i worker aid d = (case row_with a_id aid (attempts d) of
     None \<Rightarrow> Inl (RuntimeError ''Execution attempt is no longer active'')
   | Some attempt \<Rightarrow>
       if a_run_id attempt \<noteq> i \<or> a_finished_at attempt \<noteq> None
       then Inl (RuntimeError ''Execution attempt is no longer active'')
       else (case get_row i d of
         None \<Rightarrow> Inl (RuntimeError ''Execution lease is no longer active'')
       | Some active \<Rightarrow>
           if r_execution_status active \<noteq> RUNNING \<or> jstr_opt (r_lease_owner active) \<noteq> worker \<or>
              (case r_lease_expires_at active of None \<Rightarrow> True | Some t \<Rightarrow> t \<le> c_now c)
           then Inl (RuntimeError ''Execution lease is no longer active'')
           else charge_provider_call c (str_or (r_principal_id active) (r_client_id active)) (r_client_id active) lm d))"

text \<open>\<open>min(policy_snapshot.get(''max_output_tokens'', cap), cap)\<close>: the second value only if it is smaller.\<close>

definition clamp_tokens :: "int \<Rightarrow> dict \<Rightarrow> json res" where
  "clamp_tokens cap pol = (let v = dget_or pol ''max_output_tokens'' (JInt cap) in
     case num_of v of
       None \<Rightarrow> Inl (TypeError ''not supported between these instances'')
     | Some x \<Rightarrow> Inr (if f_lt (Fin (of_int cap)) x then JInt cap else v))"

record charged =
  ch_calls :: int
  ch_turn :: nat
  ch_db :: db

definition charged_execute ::
  "exec_settings \<Rightarrow> exec_env \<Rightarrow> uuid \<Rightarrow> json \<Rightarrow> uuid \<Rightarrow> int \<Rightarrow> charged runner" where
  "charged_execute es env i worker aid budget prov inp pol st =
     (if ch_calls st \<ge> budget then (Inl (QuotaExceededError ''Job provider-call budget exceeded''), st)
      else (let k = ch_turn st; d = ee_between env k (ch_db st) in
        case charge_call (ee_ctx env k) (es_quotas es) i worker aid d of
          Inl e \<Rightarrow> (Inl e, st\<lparr>ch_turn := Suc k, ch_db := d\<rparr>)
        | Inr d' \<Rightarrow>
            (res_bind (clamp_tokens (provider_max_output_tokens es) pol) (\<lambda>tokens.
               if ee_timeout env k then Inl TimeoutError
               else ee_registry env k prov inp (dset ''max_output_tokens'' tokens pol)),
             st\<lparr>ch_calls := ch_calls st + 1, ch_turn := Suc k, ch_db := d'\<rparr>)))"

section \<open>Reading a job\<close>

definition need :: "dict \<Rightarrow> string \<Rightarrow> json res" where
  "need d k = (case dget d k of None \<Rightarrow> Inl (KeyError k) | Some v \<Rightarrow> Inr v)"

definition AttributeError :: exn where
  "AttributeError = ForeignError ''AttributeError'' None"

text \<open>\<open>UUID(v)\<close> of a value that need not be a string.\<close>

definition uuid_of :: "json \<Rightarrow> uuid res" where
  "uuid_of v = (case v of
     JStr s \<Rightarrow> UUID s
   | JNull \<Rightarrow> Inl (TypeError ''one of the hex, bytes, bytes_le, fields, or int arguments must be given'')
   | _ \<Rightarrow> Inl AttributeError)"

text \<open>
  The rules, the dataset and the targets of a job were written by \<open>evaluate\<close> and \<open>submit_regression\<close> from
  validated requests: a list of objects, an object, and objects with the fields of the dataclass. The
  first access to a value of another shape is an error; for a cost that is not an int the class has no such
  check, and the model refuses it.
\<close>

definition rules_of :: "json \<Rightarrow> dict list res" where
  "rules_of v = (case v of
     JList rules \<Rightarrow> if list_all is_dict rules then Inr (map dict_of rules) else Inl AttributeError
   | _ \<Rightarrow> Inl AttributeError)"

definition mapping_of :: "json \<Rightarrow> dict res" where
  "mapping_of v = (case v of JDict d \<Rightarrow> Inr d | _ \<Rightarrow> Inl AttributeError)"

text \<open>\<open>C(**v)\<close>: the keyword arguments, none of them unknown.\<close>

definition keywords_of :: "string list \<Rightarrow> json \<Rightarrow> dict res" where
  "keywords_of known v = (case v of
     JDict d \<Rightarrow> if list_all (\<lambda>k. k \<in> set known) (dkeys d) then Inr d else Inl (TypeError ''unexpected keyword argument'')
   | _ \<Rightarrow> Inl (TypeError ''argument after ** must be a mapping''))"

definition target_of :: "json \<Rightarrow> target res" where
  "target_of v = res_bind (keywords_of [''provider'', ''model'', ''estimated_cost_microusd''] v) (\<lambda>d.
     case dget d ''provider'' of
       None \<Rightarrow> Inl (TypeError ''missing required argument: provider'')
     | Some (JStr prov) \<Rightarrow>
         res_bind (case dget_or d ''model'' JNull of
             JNull \<Rightarrow> Inr None
           | JStr model \<Rightarrow> Inr (Some model)
           | _ \<Rightarrow> res_bind (ProviderModelTarget prov None 0) (\<lambda>_. Inl AttributeError)) (\<lambda>model.
         case dget_or d ''estimated_cost_microusd'' (JInt 0) of
           JInt cost \<Rightarrow> ProviderModelTarget prov model cost
         | _ \<Rightarrow> res_bind (ProviderModelTarget prov model 0) (\<lambda>_. Inl (TypeError ''estimated_cost_microusd must be an int'')))
     | Some _ \<Rightarrow> Inl AttributeError)"

definition gates_of :: "json \<Rightarrow> gates res" where
  "gates_of v = res_bind (keywords_of [''max_quality_regression_points'', ''max_latency_regression_percent'',
       ''max_cost_regression_percent''] v) (\<lambda>d.
     RegressionGates (dget_or d ''max_quality_regression_points'' (JFloat (Fin 0)))
       (dget_or d ''max_latency_regression_percent'' JNull) (dget_or d ''max_cost_regression_percent'' JNull))"

section \<open>The executor\<close>

text \<open>The latency of the source run's last successful attempt.\<close>

definition source_latency :: "uuid \<Rightarrow> db \<Rightarrow> int option" where
  "source_latency i d =
     (case sort_key (\<lambda>a. - a_number a) (filter (\<lambda>a. a_run_id a = i \<and> a_outcome a = Some ''SUCCEEDED'') (attempts d)) of
        [] \<Rightarrow> None | a # _ \<Rightarrow> a_latency_ms a)"

definition evaluation_source :: "string \<Rightarrow> uuid \<Rightarrow> db \<Rightarrow> (dict \<times> int option) res" where
  "evaluation_source tenant i d = (case get_row i d of
     None \<Rightarrow> Inl (RuntimeError ''Evaluation source is unavailable'')
   | Some source \<Rightarrow>
       if r_client_id source \<noteq> tenant then Inl (RuntimeError ''Evaluation source is unavailable'')
       else (case r_result_payload source of
         None \<Rightarrow> Inl (RuntimeError ''Evaluation source is unavailable'')
       | Some payload \<Rightarrow> Inr (payload, source_latency i d)))"

definition run_evaluation ::
  "(json \<Rightarrow> bool) \<Rightarrow> (json \<Rightarrow> json \<Rightarrow> bool) \<Rightarrow> string \<Rightarrow> dict \<Rightarrow> db \<Rightarrow> execution_result res" where
  "run_evaluation schema_ok conforms tenant inp d =
     res_bind (need inp ''source_run_id'') (\<lambda>v. res_bind (uuid_of v) (\<lambda>i.
     res_bind (evaluation_source tenant i d) (\<lambda>(payload, latency).
     res_bind (need inp ''rules'') (\<lambda>v. res_bind (rules_of v) (\<lambda>rules.
     res_bind (evaluate_rules schema_ok conforms rules payload latency) (\<lambda>out.
       Inr \<lparr>x_provider = ''evaluation'', x_result_payload = as_persisted_result out, x_usage = None\<rparr>))))))"

text \<open>What a regression job runs: its dataset within the server's budget, the two targets and the gates.\<close>

definition regression_job :: "exec_settings \<Rightarrow> int \<Rightarrow> dict \<Rightarrow> (regression_dataset \<times> target \<times> target \<times> gates) res" where
  "regression_job es budget inp =
     res_bind (need inp ''dataset'') (\<lambda>v. res_bind (mapping_of v) (\<lambda>m. res_bind (from_mapping m) (\<lambda>ds.
       if int (length (dataset_cases ds)) > regression_max_cases es \<or> 2 * int (length (dataset_cases ds)) > budget
       then Inl (QuotaExceededError ''Regression exceeds the server budget'')
       else res_bind (need inp ''baseline'') (\<lambda>v. res_bind (target_of v) (\<lambda>base.
         res_bind (need inp ''candidate'') (\<lambda>v. res_bind (target_of v) (\<lambda>cand.
         res_bind (gates_of (dget_or inp ''gates'' (JDict []))) (\<lambda>g. Inr (ds, base, cand, g)))))))))"

definition run_regression_job ::
  "(json \<Rightarrow> bool) \<Rightarrow> (json \<Rightarrow> json \<Rightarrow> bool) \<Rightarrow> charged runner \<Rightarrow> (nat \<Rightarrow> rat) \<Rightarrow> (nat \<Rightarrow> rat) \<Rightarrow> exec_settings \<Rightarrow> int \<Rightarrow> dict
   \<Rightarrow> charged \<Rightarrow> execution_result res \<times> charged" where
  "run_regression_job schema_ok conforms exec ticks ticks' es budget inp st =
     (case regression_job es budget inp of
        Inl e \<Rightarrow> (Inl e, st)
      | Inr (ds, base, cand, g) \<Rightarrow>
          (case run_regression schema_ok conforms exec ticks ticks' ds base cand (Some g) st of
             (Inl e, st') \<Rightarrow> (Inl e, st')
           | (Inr report, st') \<Rightarrow> (Inr \<lparr>x_provider = ''regression'', x_result_payload = report, x_usage = None\<rparr>, st')))"

definition resource_execute ::
  "(json \<Rightarrow> bool) \<Rightarrow> (json \<Rightarrow> json \<Rightarrow> bool) \<Rightarrow> (nat \<Rightarrow> rat) \<Rightarrow> (nat \<Rightarrow> rat) \<Rightarrow> exec_settings \<Rightarrow> exec_env \<Rightarrow> executor" where
  "resource_execute schema_ok conforms ticks ticks' es env prov inp pol d =
     (case res_bind (need pol ''_runtime_run_id'') uuid_of of Inl e \<Rightarrow> (Inl e, d) | Inr i \<Rightarrow>
      (case need pol ''_runtime_worker_id'' of Inl e \<Rightarrow> (Inl e, d) | Inr worker \<Rightarrow>
      (case res_bind (need pol ''_runtime_attempt_id'') uuid_of of Inl e \<Rightarrow> (Inl e, d) | Inr aid \<Rightarrow>
      (case get_row i d of None \<Rightarrow> (Inl (RuntimeError ''Missing durable execution''), d) | Some run \<Rightarrow>
        if r_work_kind run = ''evaluation''
        then (run_evaluation schema_ok conforms (r_client_id run) inp (ee_between env 0 d), ee_between env 0 d)
        else
          (let budget = (if r_work_kind run = ''regression'' then regression_provider_call_budget es else 1);
               exec = charged_execute es env i worker aid budget;
               st = \<lparr>ch_calls = 0, ch_turn = 1, ch_db = d\<rparr>
           in case (if r_work_kind run = ''regression''
                    then run_regression_job schema_ok conforms exec ticks ticks' es budget inp st
                    else exec prov inp pol st) of
                (r, st') \<Rightarrow> (r, ch_db st'))))))"

section \<open>What a runner keeps, a regression keeps\<close>

text \<open>A relation between the states before and after each call of an executor holds across a whole regression.\<close>

locale runner_relation =
  fixes exec :: "'s runner" and rel :: "'s \<Rightarrow> 's \<Rightarrow> bool"
  assumes rel_refl: "rel s s"
    and rel_trans: "rel s t \<Longrightarrow> rel t u \<Longrightarrow> rel s u"
    and call_rel: "exec prov inp pol s = (r, s') \<Longrightarrow> rel s s'"
begin

lemma run_case_rel: "run_case sok conf exec ticks t i cs s = (r, s') \<Longrightarrow> rel s s'"
  by (auto simp: run_case_def split: prod.splits sum.splits dest: call_rel)

lemma run_cases_rel: "run_cases sok conf exec ticks t i css s = (r, s') \<Longrightarrow> rel s s'"
proof (induction css arbitrary: i s r s')
  case (Cons cs css)
  obtain x s1 where c: "run_case sok conf exec ticks t i cs s = (x, s1)" by fastforce
  show ?case
  proof (cases x)
    case (Inl e)
    then show ?thesis using Cons.prems c run_case_rel [OF c] by simp
  next
    case (Inr y)
    obtain z s2 where d: "run_cases sok conf exec ticks t (Suc i) css s1 = (z, s2)" by fastforce
    then have "s' = s2" using Cons.prems c Inr by (auto split: sum.splits)
    then show ?thesis using rel_trans [OF run_case_rel [OF c] Cons.IH [OF d]] by simp
  qed
qed (simp add: rel_refl)

lemma run_target_rel: "run_target sok conf exec ticks ds t s = (r, s') \<Longrightarrow> rel s s'"
  by (auto simp: run_target_def split: prod.splits sum.splits dest: run_cases_rel)

lemma run_regression_rel:
  "run_regression sok conf exec ticks ticks' ds base cand g s = (r, s') \<Longrightarrow> rel s s'"
  by (auto simp: run_regression_def split: prod.splits sum.splits dest: run_target_rel)
    (metis rel_trans run_target_rel)+

end

section \<open>Charged calls\<close>

definition env_ok :: "exec_config \<Rightarrow> exec_settings \<Rightarrow> exec_env \<Rightarrow> bool" where
  "env_ok cfg es env \<longleftrightarrow> es_quotas es = exec_quotas cfg \<and> (\<forall>k d. (svc_step cfg)\<^sup>*\<^sup>* d (ee_between env k d))"

lemma charge_call_charges:
  assumes "charge_call c lm i (JStr w) aid d = Inr d'"
  obtains run where "get_row i d = Some run" "owns_active_lease run w (c_now c)"
    "charge_provider_call c (str_or (r_principal_id run) (r_client_id run)) (r_client_id run) lm d = Inr d'"
  using assms
  by (auto simp: charge_call_def owns_active_lease_def jstr_opt_def not_le split: option.splits if_splits)

lemma charge_call_step:
  assumes "charge_call c (exec_quotas cfg) i worker aid d = Inr d'"
  shows "svc_step cfg d d'"
proof -
  obtain p t where "charge_provider_call c p t (exec_quotas cfg) d = Inr d'"
    using assms by (auto simp: charge_call_def split: option.splits if_splits)
  then show ?thesis by (rule step_charge)
qed

text \<open>The two relations a charged call keeps: its database moves by steps of the services, and it stays within its budget.\<close>

definition by_steps :: "exec_config \<Rightarrow> exec_settings \<Rightarrow> exec_env \<Rightarrow> charged \<Rightarrow> charged \<Rightarrow> bool" where
  "by_steps cfg es env st st' \<longleftrightarrow> (env_ok cfg es env \<longrightarrow> (svc_step cfg)\<^sup>*\<^sup>* (ch_db st) (ch_db st'))"

definition in_budget :: "int \<Rightarrow> charged \<Rightarrow> charged \<Rightarrow> bool" where
  "in_budget budget st st' \<longleftrightarrow> ch_calls st \<le> ch_calls st' \<and> (ch_calls st \<le> budget \<longrightarrow> ch_calls st' \<le> budget)"

lemma charged_by_steps:
  assumes "charged_execute es env i worker aid budget prov inp pol st = (r, st')"
  shows "by_steps cfg es env st st'"
  unfolding by_steps_def
proof
  assume ok: "env_ok cfg es env"
  let ?k = "ch_turn st"
  let ?d = "ee_between env ?k (ch_db st)"
  have d: "(svc_step cfg)\<^sup>*\<^sup>* (ch_db st) ?d" using ok by (simp add: env_ok_def)
  show "(svc_step cfg)\<^sup>*\<^sup>* (ch_db st) (ch_db st')"
  proof (cases "charge_call (ee_ctx env ?k) (es_quotas es) i worker aid ?d")
    case (Inl e)
    then show ?thesis using assms d by (auto simp: charged_execute_def Let_def split: if_splits)
  next
    case (Inr d')
    then have "svc_step cfg ?d d'" using ok charge_call_step by (simp add: env_ok_def)
    then show ?thesis using assms d Inr by (auto simp: charged_execute_def Let_def split: if_splits)
  qed
qed

lemma charged_in_budget:
  "charged_execute es env i worker aid budget prov inp pol st = (r, st') \<Longrightarrow> in_budget budget st st'"
  by (auto simp: charged_execute_def in_budget_def Let_def split: if_splits sum.splits)

interpretation steps: runner_relation "charged_execute es env i worker aid budget" "by_steps cfg es env"
  for cfg es env i worker aid budget
  by unfold_locales (auto simp: by_steps_def intro: charged_by_steps [unfolded by_steps_def, rule_format] rtranclp_trans)

interpretation budget: runner_relation "charged_execute es env i worker aid b" "in_budget b"
  for es env i worker aid b
  by unfold_locales (auto simp: in_budget_def intro: charged_in_budget dest: charged_in_budget)

section \<open>Properties\<close>

text \<open>
  C15. The executor the worker runs changes the database only by committed transactions of the services,
  whatever the job is and however it ends, so every invariant of the services and of the whole system
  holds while it runs; this discharges what the worker's theorems assume of their executor.
\<close>

theorem resource_executor_keeps_steps:
  assumes "env_ok cfg es env"
  shows "keeps_steps (svc_step cfg) (resource_execute sok conf ticks ticks' es env)"
  unfolding keeps_steps_def
proof (intro allI impI)
  fix prov inp pol d r d'
  assume "resource_execute sok conf ticks ticks' es env prov inp pol d = (r, d')"
  then consider "d' = d" | "d' = ee_between env 0 d"
    | i worker aid b st' where "charged_execute es env i worker aid b prov inp pol \<lparr>ch_calls = 0, ch_turn = 1, ch_db = d\<rparr> = (r, st')"
      "d' = ch_db st'"
    | i worker aid b st' where "run_regression_job sok conf (charged_execute es env i worker aid b) ticks ticks' es b inp
        \<lparr>ch_calls = 0, ch_turn = 1, ch_db = d\<rparr> = (r, st')" "d' = ch_db st'"
    by (auto simp: resource_execute_def Let_def split: sum.splits option.splits if_splits prod.splits)
  then show "(svc_step cfg)\<^sup>*\<^sup>* d d'"
  proof cases
    case 2
    then show ?thesis using assms by (simp add: env_ok_def)
  next
    case 3
    then show ?thesis using charged_by_steps [OF 3(1)] assms by (simp add: by_steps_def)
  next
    case 4
    then have "by_steps cfg es env \<lparr>ch_calls = 0, ch_turn = 1, ch_db = d\<rparr> st'"
      by (auto simp: run_regression_job_def split: sum.splits prod.splits dest: steps.run_regression_rel intro: steps.rel_refl)
    then show ?thesis using assms 4(2) by (simp add: by_steps_def)
  qed simp
qed

definition sample_settings :: exec_settings where
  "sample_settings = \<lparr>es_quotas = exec_quotas sample_cfg, regression_provider_call_budget = 20,
     regression_max_cases = 10, provider_max_output_tokens = 1024\<rparr>"

definition sample_env :: exec_env where
  "sample_env = \<lparr>ee_ctx = (\<lambda>_. done_ctx), ee_between = (\<lambda>_ d. d), ee_timeout = (\<lambda>_. False),
     ee_registry = (\<lambda>_. registry_execute [(''deterministic'', deterministic_execute False)])\<rparr>"

definition sample_charged :: charged where
  "sample_charged = \<lparr>ch_calls = 0, ch_turn = 1, ch_db = sample_running\<rparr>"

lemma sample_env_ok: "env_ok sample_cfg sample_settings sample_env"
  by (simp add: env_ok_def sample_settings_def sample_env_def)

lemma sample_charge: "\<exists>d'. charge_call done_ctx (exec_quotas sample_cfg) 1 (JStr ''worker-1'') 10 sample_running = Inr d'"
proof -
  have "row_with a_id 10 (attempts sample_running) = Some sample_attempt" "a_run_id sample_attempt = 1" "a_finished_at sample_attempt = None"
    by (simp_all add: sample_running_def sample_attempt_def new_attempt_def claim_ctx_def)
  moreover have "r_execution_status running_run = RUNNING" "r_lease_owner running_run = Some ''worker-1''"
    "r_lease_expires_at running_run = Some 36000000" by (simp_all add: running_run_def)
  moreover have "c_now done_ctx = 8000000" by (simp add: done_ctx_def)
  ultimately show ?thesis using sample_rows(1)
    by (simp add: charge_call_def jstr_opt_def) (simp add: charge_provider_call_def Let_def rolled_row_def quota_row_of_def
        sample_running_def sample_queued_def sample_cfg_def default_quotas_def)
qed

lemma sample_call:
  "\<exists>d'. charged_execute sample_settings sample_env 1 (JStr ''worker-1'') 10 1 ''deterministic'' [] [] sample_charged =
     (Inr \<lparr>x_provider = ''deterministic'', x_result_payload = [(''accepted'', JBool True)], x_usage = None\<rparr>,
      \<lparr>ch_calls = 1, ch_turn = 2, ch_db = d'\<rparr>)"
  using sample_charge
  by (auto simp: charged_execute_def sample_settings_def sample_env_def sample_charged_def Let_def clamp_tokens_def dget_or_def
      dget_def registry_execute_def deterministic_execute_def)

theorem resource_executor_keeps_steps_witness:
  "keeps_steps (svc_step sample_cfg) (resource_execute (\<lambda>_. True) (\<lambda>_ _. True) (\<lambda>n. of_nat n) (\<lambda>n. of_nat n) sample_settings sample_env)"
  by (rule resource_executor_keeps_steps [OF sample_env_ok])

text \<open>
  C16. No provider is called without a charge: if what a call returns depends on the provider at all, then
  the call was within the job's budget, the worker still held a live lease on the running run, and the
  charge against the principal's and the tenant's quota is committed.
\<close>

theorem provider_call_is_charged:
  assumes "charged_execute es env i (JStr w) aid budget prov inp pol st = (r, st')"
    and "fst (charged_execute es (env\<lparr>ee_registry := reg\<rparr>) i (JStr w) aid budget prov inp pol st) \<noteq> r"
  shows "ch_calls st < budget \<and> ch_calls st' = ch_calls st + 1 \<and>
    (\<exists>run. get_row i (ee_between env (ch_turn st) (ch_db st)) = Some run \<and>
      owns_active_lease run w (c_now (ee_ctx env (ch_turn st))) \<and>
      charge_provider_call (ee_ctx env (ch_turn st)) (str_or (r_principal_id run) (r_client_id run)) (r_client_id run)
        (es_quotas es) (ee_between env (ch_turn st) (ch_db st)) = Inr (ch_db st'))"
proof -
  obtain d' where d': "ch_calls st < budget" "charge_call (ee_ctx env (ch_turn st)) (es_quotas es) i (JStr w) aid
      (ee_between env (ch_turn st) (ch_db st)) = Inr d'" "st' = st\<lparr>ch_calls := ch_calls st + 1, ch_turn := Suc (ch_turn st), ch_db := d'\<rparr>"
    using assms by (auto simp: charged_execute_def Let_def split: if_splits sum.splits)
  show ?thesis using charge_call_charges [OF d'(2)] d'(1,3) by auto
qed

theorem provider_call_is_charged_witness:
  "\<exists>d' run. get_row 1 sample_running = Some run \<and> owns_active_lease run ''worker-1'' (c_now done_ctx) \<and>
    charge_provider_call done_ctx (str_or (r_principal_id run) (r_client_id run)) (r_client_id run) (exec_quotas sample_cfg) sample_running = Inr d'"
proof -
  obtain d' where c: "charged_execute sample_settings sample_env 1 (JStr ''worker-1'') 10 1 ''deterministic'' [] [] sample_charged =
     (Inr \<lparr>x_provider = ''deterministic'', x_result_payload = [(''accepted'', JBool True)], x_usage = None\<rparr>,
      \<lparr>ch_calls = 1, ch_turn = 2, ch_db = d'\<rparr>)" using sample_call by blast
  have "fst (charged_execute sample_settings (sample_env\<lparr>ee_registry := (\<lambda>_ _ _ _. Inl TimeoutError)\<rparr>) 1 (JStr ''worker-1'') 10 1
      ''deterministic'' [] [] sample_charged) = Inl TimeoutError"
    using sample_charge by (auto simp: charged_execute_def sample_settings_def sample_env_def sample_charged_def Let_def
        clamp_tokens_def dget_or_def dget_def)
  then show ?thesis using provider_call_is_charged [OF c, of "\<lambda>_ _ _ _. Inl TimeoutError"]
    by (auto simp: sample_env_def sample_charged_def sample_settings_def)
qed


definition sample_job_input :: dict where
  "sample_job_input = [(''dataset'', JDict sample_dataset_json), (''baseline'', JDict [(''provider'', JStr ''deterministic'')]),
     (''candidate'', JDict [(''provider'', JStr ''deterministic'')])]"


text \<open>The policies a provider may see: with a numeric token limit of at most the cap.\<close>

definition capped :: "int \<Rightarrow> dict \<Rightarrow> bool" where
  "capped cap pol \<longleftrightarrow> (\<exists>v x. dget pol ''max_output_tokens'' = Some v \<and> num_of v = Some x \<and> \<not> f_lt (Fin (of_int cap)) x)"

lemma clamp_capped: "clamp_tokens cap pol = Inr tokens \<Longrightarrow> capped cap (dset ''max_output_tokens'' tokens pol)"
  by (auto simp: clamp_tokens_def capped_def dget_dset Let_def split: option.splits if_splits)

text \<open>
  C18. No provider ever sees a token limit above the deployment's cap, whatever the run's policy or a
  regression target asks for: replacing the providers by others that behave the same on capped policies
  changes nothing of what the executor does.
\<close>

theorem provider_tokens_capped:
  assumes "\<forall>k prov inp pol. capped (provider_max_output_tokens es) pol \<longrightarrow> reg k prov inp pol = ee_registry env k prov inp pol"
  shows "resource_execute sok conf ticks ticks' es (env\<lparr>ee_registry := reg\<rparr>) = resource_execute sok conf ticks ticks' es env"
proof -
  have call: "charged_execute es (env\<lparr>ee_registry := reg\<rparr>) i worker aid budget = charged_execute es env i worker aid budget"
    for i worker aid budget
  proof (intro ext)
    fix prov inp pol st
    have "reg k prov inp (dset ''max_output_tokens'' tokens pol) = ee_registry env k prov inp (dset ''max_output_tokens'' tokens pol)"
      if "clamp_tokens (provider_max_output_tokens es) pol = Inr tokens" for k tokens
      using assms clamp_capped [OF that] by blast
    then show "charged_execute es (env\<lparr>ee_registry := reg\<rparr>) i worker aid budget prov inp pol st =
        charged_execute es env i worker aid budget prov inp pol st"
      by (cases "clamp_tokens (provider_max_output_tokens es) pol") (auto simp: charged_execute_def Let_def split: sum.split)
  qed
  have same: "ee_between (env\<lparr>ee_registry := reg\<rparr>) = ee_between env" by simp
  show ?thesis by (intro ext) (simp only: resource_execute_def call same)
qed

theorem provider_tokens_capped_witness:
  "resource_execute (\<lambda>_. True) (\<lambda>_ _. True) (\<lambda>n. of_nat n) (\<lambda>n. of_nat n) sample_settings
     (sample_env\<lparr>ee_registry := (\<lambda>k prov inp pol. if capped 1024 pol then ee_registry sample_env k prov inp pol else Inl TimeoutError)\<rparr>)
   = resource_execute (\<lambda>_. True) (\<lambda>_ _. True) (\<lambda>n. of_nat n) (\<lambda>n. of_nat n) sample_settings sample_env"
  by (rule provider_tokens_capped) (simp add: sample_settings_def)

end
