(* ===== verification/Py_Float_Error.thy ===== *)
theory Py_Float_Error
  imports Py_Float
begin

text \<open>Error bounds and signs of float rounding and of \<open>round\<close>, for the arithmetic of reports and comparisons.\<close>

lemma fl_near: "\<bar>fl x - x\<bar> \<le> \<bar>x\<bar> / 2 ^ 53"
proof (cases "x = 0")
  case False
  let ?u = "2 powi (bin_exp \<bar>x\<bar> - 52) :: rat"
  have u: "0 < ?u" by simp
  have "\<bar>fl x - x\<bar> = \<bar>of_int (rhe (x / ?u)) - x / ?u\<bar> * ?u"
    using False u by (simp add: fl_def Let_def abs_mult_pos left_diff_distrib)
  also have "\<dots> \<le> 1 / 2 * ?u" using rhe_near [of "x / ?u"] u by (intro mult_right_mono) simp_all
  also have "\<dots> = 2 powi bin_exp \<bar>x\<bar> / 2 ^ 53" by (simp add: power_int_diff)
  also have "\<dots> \<le> \<bar>x\<bar> / 2 ^ 53" using bin_exp_bounds(1) [of "\<bar>x\<bar>"] False by (intro divide_right_mono) simp_all
  finally show ?thesis .
qed simp

lemma fl_bounds:
  assumes "\<bar>x\<bar> \<le> b"
  shows "fl x \<le> x + b / 2 ^ 53" "x - b / 2 ^ 53 \<le> fl x"
proof -
  have "\<bar>x\<bar> / 2 ^ 53 \<le> b / 2 ^ 53" using assms by (intro divide_right_mono) simp_all
  then show "fl x \<le> x + b / 2 ^ 53" "x - b / 2 ^ 53 \<le> fl x" using fl_near [of x] by linarith+
qed

lemma fl_less_0: "x < 0 \<Longrightarrow> fl x < 0"
  using fl_near [of x] by (simp add: abs_le_iff)

lemma fl_le_0: "x \<le> 0 \<Longrightarrow> fl x \<le> 0"
  using fl_less_0 [of x] by (cases "x = 0") auto

lemma fl_ge_0: "0 \<le> x \<Longrightarrow> 0 \<le> fl x"
  using fl_mono_nonneg [of 0 x] by simp

lemma rhe_le_0: "x \<le> 0 \<Longrightarrow> rhe x \<le> 0"
  using rhe_mono [of x 0] by simp

lemma rhe_ge_0: "0 \<le> x \<Longrightarrow> 0 \<le> rhe x"
  using rhe_mono [of 0 x] by simp

lemma py_round_ge_0: "0 \<le> x \<Longrightarrow> 0 \<le> py_round n x"
  by (simp add: py_round_def fl_ge_0 rhe_ge_0)

lemma py_round_le_0: "x \<le> 0 \<Longrightarrow> py_round n x \<le> 0"
  unfolding py_round_def by (rule fl_le_0) (simp add: divide_nonpos_pos rhe_le_0 mult_nonpos_nonneg)

lemma py_round_mono: "0 \<le> x \<Longrightarrow> x \<le> y \<Longrightarrow> py_round n x \<le> py_round n y"
  unfolding py_round_def
  by (intro fl_mono_nonneg divide_right_mono) (simp_all add: rhe_ge_0 rhe_mono mult_right_mono)

text \<open>A value beyond half a unit of the last place does not round to zero.\<close>

lemma py_round_less_0: "x * 10 ^ n < - 1 / 2 \<Longrightarrow> py_round n x < 0"
proof -
  assume x: "x * 10 ^ n < - 1 / 2"
  have "of_int (rhe (x * 10 ^ n)) < (0 :: rat)" using rhe_near [of "x * 10 ^ n"] x by linarith
  then show ?thesis unfolding py_round_def by (intro fl_less_0 divide_neg_pos) simp_all
qed

lemma py_round_bounds:
  assumes "\<bar>x\<bar> \<le> b"
  shows "\<bar>py_round n x - x\<bar> \<le> 1 / 2 / 10 ^ n + (b + 1 / 2 / 10 ^ n) / 2 ^ 53"
proof -
  let ?k = "of_int (rhe (x * 10 ^ n)) / 10 ^ n :: rat"
  have "\<bar>?k - x\<bar> = \<bar>of_int (rhe (x * 10 ^ n)) - x * 10 ^ n\<bar> / 10 ^ n"
    by (simp add: abs_div_pos diff_divide_distrib)
  also have "\<dots> \<le> 1 / 2 / 10 ^ n" using rhe_near [of "x * 10 ^ n"] by (intro divide_right_mono) simp_all
  finally have k: "\<bar>?k - x\<bar> \<le> 1 / 2 / 10 ^ n" .
  then have "\<bar>?k\<bar> \<le> b + 1 / 2 / 10 ^ n" using assms by linarith
  then have "\<bar>?k\<bar> / 2 ^ 53 \<le> (b + 1 / 2 / 10 ^ n) / 2 ^ 53" by (intro divide_right_mono) simp_all
  then have "\<bar>fl ?k - ?k\<bar> \<le> (b + 1 / 2 / 10 ^ n) / 2 ^ 53" using fl_near [of ?k] by linarith
  then show ?thesis unfolding py_round_def using k by linarith
qed

text \<open>The same bounds with a decimal constant, for linear arithmetic.\<close>

lemma near_trans: "\<bar>a - b\<bar> \<le> u \<Longrightarrow> \<bar>b - c\<bar> \<le> v \<Longrightarrow> u + v \<le> w \<Longrightarrow> \<bar>a - c\<bar> \<le> w" for a :: rat
  by linarith

lemma near_bound: "\<bar>a - b\<bar> \<le> u \<Longrightarrow> \<bar>b\<bar> \<le> v \<Longrightarrow> u + v \<le> w \<Longrightarrow> \<bar>a\<bar> \<le> w" for a :: rat
  by linarith

lemma fl_err: "\<bar>x\<bar> \<le> b \<Longrightarrow> \<bar>fl x - x\<bar> \<le> b / 1000000000000000"
  using fl_near [of x] abs_ge_zero [of x] by simp

lemma py_round_err:
  assumes "\<bar>x\<bar> \<le> b"
  shows "\<bar>py_round n x - x\<bar> \<le> 1 / 2 / 10 ^ n + (b + 1) / 1000000000000000"
proof -
  have "1 \<le> (10 ^ n :: rat)" by (rule one_le_power) simp
  then have "1 \<le> (2 * 10 ^ n :: rat)" by linarith
  then have "1 / 2 / 10 ^ n \<le> (1 :: rat)" by simp
  then have "(b + 1 / 2 / 10 ^ n) / 2 ^ 53 \<le> (b + 1) / 2 ^ 53" by (intro divide_right_mono) simp_all
  also have "\<dots> \<le> (b + 1) / 1000000000000000" using assms by (intro divide_left_mono) simp_all
  finally show ?thesis using py_round_bounds [OF assms, of n] by linarith
qed

end
