(* ===== verification/Regression_Gates.thy ===== *)
theory Regression_Gates
  imports Regression_Runs Py_Float_Error
begin

text \<open>The gates of a regression report decide as exact arithmetic does, up to the stated margins.\<close>

section \<open>The quality gate\<close>

definition pass_rate :: "int \<Rightarrow> nat \<Rightarrow> rat" where
  "pass_rate p n = py_round 6 (fl (of_int p / of_nat n))"

lemma pass_rate_near:
  assumes "0 \<le> p" "p \<le> int n" "0 < n"
  shows "\<bar>pass_rate p n - of_int p / of_nat n\<bar> \<le> 501 / 1000000000"
proof -
  let ?x = "of_int p / of_nat n :: rat"
  have "of_int p \<le> (of_int (int n) :: rat)" using assms(2) by (simp only: of_int_le_iff)
  then have x: "0 \<le> ?x" "?x \<le> 1" using assms by simp_all
  then have "\<bar>?x\<bar> \<le> 1" by linarith
  from fl_err [OF this] have a: "\<bar>fl ?x - ?x\<bar> \<le> 1 / 1000000000000000" .
  then have "\<bar>fl ?x\<bar> \<le> 2" by (rule near_bound [OF _ \<open>\<bar>?x\<bar> \<le> 1\<close>]) simp
  then show ?thesis unfolding pass_rate_def by (rule near_trans [OF py_round_err a]) simp
qed

lemma pass_rate_mono: "0 \<le> p \<Longrightarrow> p \<le> q \<Longrightarrow> pass_rate p n \<le> pass_rate q n"
  unfolding pass_rate_def by (intro py_round_mono fl_mono_nonneg divide_right_mono) (simp_all add: fl_ge_0)

lemma quality_delta_sign:
  assumes "0 \<le> p" "p \<le> int n" "0 \<le> q" "q \<le> int n" "0 < n" "n \<le> 100000"
  shows "quality_delta (pass_rate p n) (pass_rate q n) < 0 \<longleftrightarrow> q < p"
proof
  assume "q < p"
  let ?d = "pass_rate q n - pass_rate p n"
  have n: "0 < (of_nat n :: rat)" "of_nat n \<le> (100000 :: rat)" using assms by (simp_all add: of_nat_le_iff [of n 100000, simplified])
  have "of_int q + 1 \<le> (of_int p :: rat)" using \<open>q < p\<close> by linarith
  then have "(of_int q + 1) / of_nat n \<le> (of_int p / of_nat n :: rat)" using n by (intro divide_right_mono) simp_all
  moreover have "1 / 100000 \<le> (1 / of_nat n :: rat)" using n by (intro divide_left_mono) simp_all
  ultimately have gap: "of_int q / of_nat n + 1 / 100000 \<le> (of_int p / of_nat n :: rat)" by (simp add: add_divide_distrib)
  have r: "\<bar>pass_rate p n - of_int p / of_nat n\<bar> \<le> 501 / 1000000000"
    "\<bar>pass_rate q n - of_int q / of_nat n\<bar> \<le> 501 / 1000000000"
    using pass_rate_near assms by simp_all
  have range: "0 \<le> (of_int q / of_nat n :: rat)" "of_int p / of_nat n \<le> (1 :: rat)"
    using assms n by (simp_all add: of_int_le_iff [of p "int n", simplified])
  have d: "?d \<le> - 8 / 1000000" "\<bar>?d\<bar> \<le> 2" using gap r range by linarith+
  note fd = fl_err [OF d(2)]
  have "\<bar>fl ?d * 100\<bar> \<le> 300" using d fd by linarith
  from fl_err [OF this] have "fl (fl ?d * 100) * 1000 < - 1 / 2" using d fd by linarith
  then have "fl (fl ?d * 100) * 10 ^ 3 < - 1 / 2" by simp
  then show "quality_delta (pass_rate p n) (pass_rate q n) < 0" unfolding quality_delta_def by (rule py_round_less_0)
next
  assume neg: "quality_delta (pass_rate p n) (pass_rate q n) < 0"
  show "q < p"
  proof (rule ccontr)
    assume "\<not> q < p"
    then have "0 \<le> pass_rate q n - pass_rate p n" using pass_rate_mono [OF assms(1)] by simp
    then have "0 \<le> quality_delta (pass_rate p n) (pass_rate q n)"
      unfolding quality_delta_def by (intro py_round_ge_0 fl_ge_0 mult_nonneg_nonneg) simp_all
    then show False using neg by simp
  qed
qed

lemma summarize_fields:
  assumes "summarize t rs = Inr r"
  shows "tr_pass_rate r = pass_rate (passed_count rs) (length rs)" "tr_passed_cases r = passed_count rs"
    "0 < length rs" "0 \<le> passed_count rs" "passed_count rs \<le> int (length rs)"
  using assms by (auto simp: summarize_def pass_rate_def passed_count_def split: if_splits)

text \<open>
  C31. The default quality gate is exact in spite of the rounded rates it compares: with a gate of zero
  points and a dataset of at most 100000 cases, the candidate is reported as regressed exactly when it
  passed fewer cases than the baseline.
\<close>

theorem quality_gate_exact:
  assumes "summarize t rs = Inr b" "summarize t' rs' = Inr c" "length rs' = length rs" "length rs \<le> 100000"
    and "num_of (max_quality_regression_points g) = Some (Fin 0)" "compare_results b c g = Inr cmp"
  shows "cmp_quality_regressed cmp \<longleftrightarrow> tr_passed_cases c < tr_passed_cases b"
  using quality_delta_sign [of "passed_count rs" "length rs" "passed_count rs'"]
    summarize_fields [OF assms(1)] summarize_fields [OF assms(2)] assms(3-6)
  by (auto simp: compare_results_def Let_def)

definition sample_case_result :: "bool \<Rightarrow> case_result" where
  "sample_case_result ok = \<lparr>cr_case_id = ''a'', cr_passed = ok, cr_latency_ms = 12, cr_cost = 5, cr_detail = Rules []\<rparr>"

theorem quality_gate_exact_witness:
  "\<exists>b c cmp. summarize sample_target [sample_case_result True, sample_case_result True] = Inr b \<and>
    summarize sample_target [sample_case_result True, sample_case_result False] = Inr c \<and>
    compare_results b c default_gates = Inr cmp \<and> cmp_quality_regressed cmp"
proof -
  obtain b c where b: "summarize sample_target [sample_case_result True, sample_case_result True] = Inr b"
    and c: "summarize sample_target [sample_case_result True, sample_case_result False] = Inr c"
    by (simp add: summarize_def)
  obtain cmp where cmp: "compare_results b c default_gates = Inr cmp"
    by (simp add: compare_results_def default_gates_def Let_def)
  have "tr_passed_cases b = 2" "tr_passed_cases c = 1"
    using summarize_fields(2) [OF b] summarize_fields(2) [OF c] by (simp_all add: passed_count_def sample_case_result_def)
  then have "cmp_quality_regressed cmp"
    using quality_gate_exact [OF b c _ _ _ cmp] by (simp add: default_gates_def)
  then show ?thesis using b c cmp by blast
qed

section \<open>The latency and cost gates\<close>

definition exact_percent :: "measure \<Rightarrow> measure \<Rightarrow> rat" where
  "exact_percent b c = (measure_value c - measure_value b) / measure_value b * 100"

lemma relative_change_near:
  assumes "0 < measure_value b" "\<bar>exact_percent b c\<bar> \<le> 1000000"
  shows "\<bar>relative_change b c - exact_percent b c / 100\<bar> \<le> 4 / 100000000000"
proof -
  let ?b = "measure_value b" and ?c = "measure_value c"
  define x where "x = (?c - ?b) / ?b"
  have p: "exact_percent b c = x * 100" by (simp add: exact_percent_def x_def)
  then have x: "\<bar>x\<bar> \<le> 10000" using assms(2) by linarith
  have one: "\<bar>fl x - x\<bar> \<le> 4 / 100000000000" using fl_err [OF x] by linarith
  define y where "y = fl (?c - ?b) / ?b"
  have "y - x = (fl (?c - ?b) - (?c - ?b)) / ?b" unfolding x_def y_def by (simp only: diff_divide_distrib)
  then have "\<bar>y - x\<bar> = \<bar>fl (?c - ?b) - (?c - ?b)\<bar> / ?b" using assms(1) by (simp only: abs_divide abs_of_pos)
  also have "\<dots> \<le> \<bar>?c - ?b\<bar> / 1000000000000000 / ?b" using fl_err [OF order_refl] assms(1) by (intro divide_right_mono) simp_all
  also have "\<dots> = \<bar>x\<bar> / 1000000000000000" unfolding x_def using assms(1)
    by (simp only: abs_divide abs_of_pos divide_divide_eq_left mult.commute)
  finally have y: "\<bar>y - x\<bar> \<le> 10000 / 1000000000000000" using x by linarith
  have "\<bar>y\<bar> \<le> 20000" by (rule near_bound [OF y x]) simp
  then have three: "\<bar>fl y - x\<bar> \<le> 4 / 100000000000" by (rule near_trans [OF fl_err y]) simp
  have "relative_change b c = fl x \<or> relative_change b c = fl y" by (cases b; cases c) (simp_all add: x_def y_def)
  moreover have "exact_percent b c / 100 = x" using p by simp
  ultimately show ?thesis using one three by metis
qed

lemma percent_delta_near:
  assumes "0 < measure_value b" "\<bar>exact_percent b c\<bar> \<le> 1000000"
  obtains p where "percent_delta b c = Some p" "\<bar>p - exact_percent b c\<bar> < 1 / 1000"
proof -
  let ?r = "relative_change b c" and ?e = "exact_percent b c"
  have r: "\<bar>?r - ?e / 100\<bar> \<le> 4 / 100000000000" by (rule relative_change_near [OF assms])
  then have r: "\<bar>?r * 100 - ?e\<bar> \<le> 4 / 1000000000" by linarith
  then have b: "\<bar>?r * 100\<bar> \<le> 2000000" by (rule near_bound [OF _ assms(2)]) simp
  have "\<bar>fl (?r * 100)\<bar> \<le> 3000000" by (rule near_bound [OF fl_err [OF b] b]) simp
  from near_trans [OF near_trans [OF py_round_err [OF this, of 3] fl_err [OF b] order_refl] r order_refl]
  have "\<bar>py_round 3 (fl (?r * 100)) - ?e\<bar> < 1 / 1000" by (rule le_less_trans) simp
  then show thesis using that assms(1) by (simp add: percent_delta_def)
qed

text \<open>
  C32. The latency and cost gates decide as exact arithmetic would, except within a thousandth of a
  percentage point of the limit: an increase that stays below the limit by that much is not reported, one
  that exceeds it by that much is, for increases of up to a million per cent over a positive baseline.
\<close>

theorem metric_gate_accurate:
  assumes "0 < measure_value b" "\<bar>exact_percent b c\<bar> \<le> 1000000" "num_of allowed = Some (Fin l)"
  shows "(exact_percent b c \<le> l - 1 / 1000 \<longrightarrow> \<not> metric_regressed b c allowed) \<and>
    (l + 1 / 1000 \<le> exact_percent b c \<longrightarrow> metric_regressed b c allowed)"
proof -
  obtain p where p: "percent_delta b c = Some p" "\<bar>p - exact_percent b c\<bar> < 1 / 1000"
    using percent_delta_near [OF assms(1,2)] .
  then have "metric_regressed b c allowed \<longleftrightarrow> l < p" using assms(3) by (simp add: metric_regressed_def)
  then show ?thesis using p(2) by linarith
qed

theorem metric_gate_accurate_witness:
  "\<not> metric_regressed (IntM 300) (IntM 309) (JInt 4) \<and> metric_regressed (FloatM 200) (FloatM 250) (JFloat (Fin 24))"
proof -
  have "exact_percent (IntM 300) (IntM 309) = 3" "exact_percent (FloatM 200) (FloatM 250) = 25"
    by (simp_all add: exact_percent_def)
  then show ?thesis
    using metric_gate_accurate [of "IntM 300" "IntM 309" "JInt 4" 4]
      metric_gate_accurate [of "FloatM 200" "FloatM 250" "JFloat (Fin 24)" 24] by simp
qed

end
