(* ===== verification/Py_Bytes.thy ===== *)
theory Py_Bytes
  imports Sha256
begin

text \<open>
  Operations of the standard library on bytes: hexadecimal text, SHA-256 digests, \<open>hmac\<close>,
  \<open>hashlib.pbkdf2_hmac\<close> and \<open>base64\<close>. A \<open>bytes\<close> value is the list of its bytes, each from 0 to 255.
\<close>

unbundle bit_operations_syntax

type_synonym bytes = "int list"

definition is_bytes :: "bytes \<Rightarrow> bool" where
  "is_bytes bs \<longleftrightarrow> list_all (\<lambda>b. 0 \<le> b \<and> b < 256) bs"

section \<open>Hexadecimal text\<close>

definition hex_of :: "bytes \<Rightarrow> string" where
  "hex_of bs = concat (map (hex_fixed 2) bs)"

text \<open>\<open>bytes.fromhex\<close> for text without spaces.\<close>

fun fromhex :: "string \<Rightarrow> bytes res" where
  "fromhex [] = Inr []"
| "fromhex [c] = Inl (ValueError ''non-hexadecimal number found in fromhex() arg'')"
| "fromhex (c # d # s) = (case (hex_value c, hex_value d) of
     (Some x, Some y) \<Rightarrow> res_bind (fromhex s) (\<lambda>bs. Inr ((x * 16 + y) # bs))
   | _ \<Rightarrow> Inl (ValueError ''non-hexadecimal number found in fromhex() arg''))"

section \<open>HMAC and PBKDF2\<close>

definition sha256_digest :: "bytes \<Rightarrow> bytes" where
  "sha256_digest bs = concat (map (\<lambda>w. big_endian 4 (uint w)) (foldl sha_block sha_init (blocks_of (words_of (sha_pad bs)))))"

definition hmac_sha256 :: "bytes \<Rightarrow> bytes \<Rightarrow> bytes" where
  "hmac_sha256 key msg =
     (let k = (if length key > 64 then sha256_digest key else key);
          padded = k @ replicate (64 - length k) 0
      in sha256_digest (map (\<lambda>b. b XOR 92) padded @ sha256_digest (map (\<lambda>b. b XOR 54) padded @ msg)))"

fun pbkdf2_rounds :: "nat \<Rightarrow> bytes \<Rightarrow> bytes \<Rightarrow> bytes \<Rightarrow> bytes" where
  "pbkdf2_rounds 0 password u acc = acc"
| "pbkdf2_rounds (Suc n) password u acc =
     (let u' = hmac_sha256 password u in pbkdf2_rounds n password u' (map2 (\<lambda>a b. a XOR b) acc u'))"

text \<open>One block of output, which is what \<open>pbkdf2_hmac(''sha256'', ...)\<close> returns by default.\<close>

definition pbkdf2_sha256 :: "bytes \<Rightarrow> bytes \<Rightarrow> nat \<Rightarrow> bytes" where
  "pbkdf2_sha256 password salt iterations =
     (let u = hmac_sha256 password (salt @ [0, 0, 0, 1]) in pbkdf2_rounds (iterations - 1) password u u)"

section \<open>Base64\<close>

definition b64_char :: "int \<Rightarrow> char" where
  "b64_char n = char_of (nat (if n < 26 then n + 65 else if n < 52 then n + 71 else if n < 62 then n - 4
     else if n = 62 then 43 else 47))"

fun b64encode :: "bytes \<Rightarrow> string" where
  "b64encode [] = []"
| "b64encode [a] = [b64_char (a div 4), b64_char (a mod 4 * 16), CHR ''='', CHR ''='']"
| "b64encode [a, b] = [b64_char (a div 4), b64_char (a mod 4 * 16 + b div 16), b64_char (b mod 16 * 4), CHR ''='']"
| "b64encode (a # b # c # rest) =
     b64_char (a div 4) # b64_char (a mod 4 * 16 + b div 16) # b64_char (b mod 16 * 4 + c div 64) # b64_char (c mod 64)
     # b64encode rest"

definition b64_value :: "char \<Rightarrow> int option" where
  "b64_value c =
    (if 65 \<le> code c \<and> code c \<le> 90 then Some (int (code c) - 65)
     else if 97 \<le> code c \<and> code c \<le> 122 then Some (int (code c) - 71)
     else if 48 \<le> code c \<and> code c \<le> 57 then Some (int (code c) + 4)
     else if code c = 43 then Some 62 else if code c = 47 then Some 63 else None)"

definition b64_error :: exn where
  "b64_error = ValueError ''binascii.Error''"

text \<open>\<open>base64.b64decode(s, validate=True)\<close>: groups of four, padding only at the end.\<close>

fun b64decode :: "string \<Rightarrow> bytes res" where
  "b64decode [] = Inr []"
| "b64decode (p # q # r # s # rest) = (case (b64_value p, b64_value q) of
     (Some x, Some y) \<Rightarrow>
       if rest = [] \<and> r = CHR ''='' \<and> s = CHR ''='' then Inr [x * 4 + y div 16]
       else (case b64_value r of
         None \<Rightarrow> Inl b64_error
       | Some z \<Rightarrow>
           if rest = [] \<and> s = CHR ''='' then Inr [x * 4 + y div 16, y mod 16 * 16 + z div 4]
           else (case b64_value s of
             None \<Rightarrow> Inl b64_error
           | Some w \<Rightarrow> res_bind (b64decode rest) (\<lambda>bs.
               Inr ((x * 4 + y div 16) # (y mod 16 * 16 + z div 4) # (z mod 4 * 64 + w) # bs))))
   | _ \<Rightarrow> Inl b64_error)"
| "b64decode _ = Inl b64_error"

section \<open>Facts\<close>

lemma code_char_of: "k < 256 \<Longrightarrow> code (char_of k) = k"
  by (simp add: code_def)

lemma b64_value_char [simp]:
  assumes "0 \<le> n" "n < 64"
  shows "b64_value (b64_char n) = Some n"
proof -
  consider "n < 26" | "26 \<le> n" "n < 52" | "52 \<le> n" "n < 62" | "n = 62" | "n = 63" using assms by linarith
  then show ?thesis
  proof cases
    case 1
    then have "b64_char n = char_of (nat (n + 65))" by (simp add: b64_char_def)
    moreover have "code (char_of (nat (n + 65))) = nat (n + 65)" using 1 by (intro code_char_of) simp
    ultimately have "code (b64_char n) = nat (n + 65)" by (simp only:)
    then show ?thesis using 1 assms(1) by (simp add: b64_value_def nat_le_iff)
  next
    case 2
    then have "b64_char n = char_of (nat (n + 71))" by (simp add: b64_char_def)
    moreover have "code (char_of (nat (n + 71))) = nat (n + 71)" using 2 by (intro code_char_of) simp
    ultimately have "code (b64_char n) = nat (n + 71)" by (simp only:)
    then show ?thesis using 2 by (simp add: b64_value_def nat_le_iff)
  next
    case 3
    then have "b64_char n = char_of (nat (n - 4))" by (simp add: b64_char_def)
    moreover have "code (char_of (nat (n - 4))) = nat (n - 4)" using 3 by (intro code_char_of) simp
    ultimately have "code (b64_char n) = nat (n - 4)" by (simp only:)
    then show ?thesis using 3 by (simp add: b64_value_def nat_le_iff le_nat_iff)
  qed (simp_all add: b64_char_def b64_value_def code_def)
qed

lemma b64_char_pad [simp]: "0 \<le> n \<Longrightarrow> n < 64 \<Longrightarrow> b64_char n \<noteq> CHR ''=''"
proof
  assume "0 \<le> n" "n < 64" "b64_char n = CHR ''=''"
  then have "b64_value (CHR ''='') = Some n" using b64_value_char [of n] by simp
  then show False by (simp add: b64_value_def code_def)
qed

lemma digit_split:
  fixes m r k :: int
  assumes "0 \<le> r" "r < k"
  shows "(m * k + r) div k = m" "(m * k + r) mod k = r"
  using assms by simp_all

lemma digit_range:
  fixes x k n :: int
  assumes "0 \<le> x" "x < k * n" "0 < k"
  shows "0 \<le> x div k" "x div k < n"
proof -
  show "0 \<le> x div k" using assms by (simp add: pos_imp_zdiv_nonneg_iff)
  show "x div k < n"
  proof (rule ccontr)
    assume "\<not> x div k < n"
    then have "k * n \<le> k * (x div k)" using assms(3) by simp
    also have "\<dots> \<le> x" using mult_div_mod_eq [of k x] pos_mod_sign [OF assms(3), of x] by linarith
    finally show False using assms(2) by simp
  qed
qed

lemma sextets:
  fixes a b c :: int
  assumes "0 \<le> a" "a < 256" "0 \<le> b" "b < 256" "0 \<le> c" "c < 256"
  shows "0 \<le> a div 4" "a div 4 < 64" "0 \<le> a mod 4 * 16 + b div 16" "a mod 4 * 16 + b div 16 < 64"
    "0 \<le> b mod 16 * 4 + c div 64" "b mod 16 * 4 + c div 64 < 64"
    "a div 4 * 4 + (a mod 4 * 16 + b div 16) div 16 = a"
    "(a mod 4 * 16 + b div 16) mod 16 * 16 + (b mod 16 * 4 + c div 64) div 4 = b"
    "(b mod 16 * 4 + c div 64) mod 4 * 64 + c mod 64 = c"
proof -
  have r: "0 \<le> b div 16" "b div 16 < 16" "0 \<le> c div 64" "c div 64 < 4" "0 \<le> a div 4" "a div 4 < 64"
    using digit_range [of b 16 16] digit_range [of c 64 4] digit_range [of a 4 64] assms by simp_all
  have m: "0 \<le> a mod 4" "a mod 4 < 4" "0 \<le> b mod 16" "b mod 16 < 16" by simp_all
  show "0 \<le> a div 4" "a div 4 < 64" by (rule r)+
  show "0 \<le> a mod 4 * 16 + b div 16" "a mod 4 * 16 + b div 16 < 64"
    "0 \<le> b mod 16 * 4 + c div 64" "b mod 16 * 4 + c div 64 < 64" using r m by linarith+
  show "a div 4 * 4 + (a mod 4 * 16 + b div 16) div 16 = a"
    "(a mod 4 * 16 + b div 16) mod 16 * 16 + (b mod 16 * 4 + c div 64) div 4 = b"
    "(b mod 16 * 4 + c div 64) mod 4 * 64 + c mod 64 = c"
    unfolding digit_split [OF r(1,2)] digit_split [OF r(3,4)] by simp_all
qed

lemma b64decode_groups:
  assumes "b64_value p = Some x" "b64_value q = Some y"
  shows "b64decode [p, q, CHR ''='', CHR ''=''] = Inr [x * 4 + y div 16]"
    "b64_value r = Some z \<Longrightarrow> r \<noteq> CHR ''='' \<Longrightarrow>
     b64decode [p, q, r, CHR ''=''] = Inr [x * 4 + y div 16, y mod 16 * 16 + z div 4]"
    "b64_value r = Some z \<Longrightarrow> r \<noteq> CHR ''='' \<Longrightarrow> b64_value s = Some w \<Longrightarrow> s \<noteq> CHR ''='' \<Longrightarrow>
     b64decode (p # q # r # s # rest) = res_bind (b64decode rest) (\<lambda>bs.
       Inr ((x * 4 + y div 16) # (y mod 16 * 16 + z div 4) # (z mod 4 * 64 + w) # bs))"
  using assms by simp_all

lemma b64decode_encode: "is_bytes bs \<Longrightarrow> b64decode (b64encode bs) = Inr bs"
proof (induction bs rule: b64encode.induct)
  case (2 a)
  then have r: "0 \<le> a" "a < 256" by (simp_all add: is_bytes_def)
  note s = sextets [OF r, of 0 0]
  have z: "0 \<le> a mod 4 * 16" "a mod 4 * 16 < 64" using pos_mod_bound [of 4 a] by simp_all
  have "a div 4 * 4 + a mod 4 * 16 div 16 = a" by simp
  then show ?case
    using b64decode_groups(1) [OF b64_value_char [OF s(1,2)] b64_value_char [OF z]] by (simp only: b64encode.simps)
next
  case (3 a b)
  then have r: "0 \<le> a" "a < 256" "0 \<le> b" "b < 256" by (simp_all add: is_bytes_def)
  note s = sextets [OF r, of 0]
  have z: "0 \<le> b mod 16 * 4" "b mod 16 * 4 < 64" using pos_mod_bound [of 16 b] by simp_all
  have "(a mod 4 * 16 + b div 16) mod 16 * 16 + b mod 16 * 4 div 4 = b" using s(8) by simp
  then show ?case
    using b64decode_groups(2) [OF b64_value_char [OF s(1,2)] b64_value_char [OF s(3,4)] b64_value_char [OF z] b64_char_pad [OF z]] s(7)
    by (simp only: b64encode.simps)
next
  case (4 a b c rest)
  then have r: "0 \<le> a" "a < 256" "0 \<le> b" "b < 256" "0 \<le> c" "c < 256" "is_bytes rest" by (simp_all add: is_bytes_def)
  note s = sextets [OF r(1-6)]
  have z: "0 \<le> c mod 64" "c mod 64 < 64" by simp_all
  show ?case
    unfolding b64encode.simps b64decode_groups(3) [OF b64_value_char [OF s(1,2)] b64_value_char [OF s(3,4)]
        b64_value_char [OF s(5,6)] b64_char_pad [OF s(5,6)] b64_value_char [OF z] b64_char_pad [OF z]] 4(1) [OF r(7)] s(7-9)
    by (simp only: res_bind_simps)
qed simp

lemma length_big_endian [simp]: "length (big_endian k n) = k"
  by (induction k n rule: big_endian.induct) simp_all

lemma big_endian_bytes: "is_bytes (big_endian k n)"
  by (induction k n rule: big_endian.induct) (simp_all add: is_bytes_def)

lemma sha256_digest_bytes: "is_bytes (sha256_digest bs)"
  using big_endian_bytes by (auto simp: sha256_digest_def is_bytes_def list_all_iff)

lemma hmac_bytes: "is_bytes (hmac_sha256 key msg)"
  by (simp add: hmac_sha256_def Let_def sha256_digest_bytes)

lemma length_hex_of: "length (hex_of bs) = 2 * length bs"
  by (induction bs) (simp_all add: hex_of_def)

lemma length_sha256_digest [simp]: "length (sha256_digest bs) = 32"
proof -
  have "length (concat (map (\<lambda>w. big_endian 4 (uint w)) ws)) = 4 * length ws" for ws :: "w32 list"
    by (induction ws) simp_all
  then show ?thesis by (simp add: sha256_digest_def primes_below_20 sha_init_def)
qed

lemma hex_of_is_hex: "c \<in> set (hex_of bs) \<Longrightarrow> is_hex c"
  by (auto simp: hex_of_def dest: hex_fixed_is_hex)

lemma hex_of_is_lower: "list_all is_lower_hex (hex_of bs)"
  by (auto simp: list_all_iff is_lower_hex_def is_ascii_digit_def dest!: hex_of_is_hex is_hex_code)

end
