(* ===== verification/Security_Audit.thy ===== *)
theory Security_Audit
  imports Py_Time Py_Value Py_Uuid
begin

text \<open>
  The security audit table: the sink that appends to it (\<open>security/audit.py\<close>), the trigger that keeps it
  append-only (the migrations) and the retention purge (\<open>security/audit_retention.py\<close>). What other processes add
  to the table between two batches of a purge is an argument.
\<close>

section \<open>The table and the sink\<close>

record audit_record =
  ad_event_type :: string
  ad_outcome :: string
  ad_reason :: string
  ad_client_id :: "string option"
  ad_fingerprint :: "string option"
  ad_principal_id :: "string option"
  ad_target_run_id :: "uuid option"
  ad_resource :: "string option"

record audit_row =
  sa_id :: uuid
  sa_record :: audit_record
  sa_created_at :: time

definition safe_text :: "string option \<Rightarrow> nat \<Rightarrow> string option" where
  "safe_text value limit = map_option (\<lambda>s. map (\<lambda>c. if 32 \<le> code c \<and> code c < 127 then c else CHR ''_'') (take limit s)) value"

text \<open>One inserted row: its identifier and the server's transaction time are arguments.\<close>

definition record_audit :: "uuid \<Rightarrow> time \<Rightarrow> audit_record \<Rightarrow> audit_row list \<Rightarrow> audit_row list" where
  "record_audit i db_now a rows = rows @ [\<lparr>sa_id = i, sa_record =
     \<lparr>ad_event_type = the (safe_text (Some (ad_event_type a)) 64),
      ad_outcome = the (safe_text (Some (ad_outcome a)) 16),
      ad_reason = the (safe_text (Some (ad_reason a)) 64),
      ad_client_id = safe_text (ad_client_id a) 128,
      ad_fingerprint = safe_text (ad_fingerprint a) 64,
      ad_principal_id = safe_text (ad_principal_id a) 128,
      ad_target_run_id = ad_target_run_id a,
      ad_resource = (if ad_resource a \<in> {Some ''run'', Some ''attempts'', Some ''events'', Some ''evaluations'', Some ''job''}
        then ad_resource a else None)\<rparr>,
     sa_created_at = db_now\<rparr>]"

definition noop_record :: "audit_record \<Rightarrow> audit_row list \<Rightarrow> audit_row list" where
  "noop_record a rows = rows"

section \<open>The append-only trigger\<close>

definition append_only_error :: exn where
  "append_only_error = ForeignError ''DBAPIError'' None"

text \<open>\<open>prevent_security_audit_mutation\<close>: whether the row operation passes; \<open>gate\<close> is the setting of the transaction.\<close>

definition trigger_passes :: "string \<Rightarrow> string option \<Rightarrow> bool" where
  "trigger_passes tg_op gate \<longleftrightarrow> tg_op = ''DELETE'' \<and> gate = Some ''on''"

text \<open>Statements on the table; the trigger fires for each row they touch.\<close>

definition delete_audit :: "string option \<Rightarrow> (audit_row \<Rightarrow> bool) \<Rightarrow> audit_row list \<Rightarrow> audit_row list res" where
  "delete_audit gate p rows =
     (if list_ex p rows \<and> \<not> trigger_passes ''DELETE'' gate then Inl append_only_error else Inr (filter (\<lambda>r. \<not> p r) rows))"

definition update_audit :: "string option \<Rightarrow> (audit_row \<Rightarrow> bool) \<Rightarrow> (audit_row \<Rightarrow> audit_row) \<Rightarrow> audit_row list \<Rightarrow> audit_row list res" where
  "update_audit gate p f rows =
     (if list_ex p rows \<and> \<not> trigger_passes ''UPDATE'' gate then Inl append_only_error else Inr (rewrite p f rows))"

section \<open>The purge\<close>

record retention_settings =
  rs_retention_days :: "int option"
  rs_batch_size :: nat

record purge_report =
  pr_dry_run :: bool
  pr_cutoff :: time
  pr_retention_days :: int
  pr_batch_size :: nat
  pr_eligible :: nat
  pr_deleted :: nat
  pr_batches :: "nat list"
  pr_stopped_early :: bool

definition as_dict :: "purge_report \<Rightarrow> dict" where
  "as_dict p = [(''dry_run'', JBool (pr_dry_run p)), (''cutoff'', JStr (isoformat (pr_cutoff p))),
     (''retention_days'', JInt (pr_retention_days p)), (''batch_size'', JInt (int (pr_batch_size p))),
     (''eligible'', JInt (int (pr_eligible p))), (''deleted'', JInt (int (pr_deleted p))),
     (''batches'', JList (map (\<lambda>n. JInt (int n)) (pr_batches p))), (''stopped_early'', JBool (pr_stopped_early p))]"

definition resolve_cutoff :: "retention_settings \<Rightarrow> time \<Rightarrow> time res" where
  "resolve_cutoff st now = (case rs_retention_days st of
     None \<Rightarrow> Inl (RetentionDisabledError ''Audit retention is disabled; set APP_AUDIT_RETENTION_DAYS to enable it.'')
   | Some days \<Rightarrow>
       let cutoff = now - days * 86400 * us_per_second
       in if min_time \<le> cutoff \<and> cutoff \<le> max_time then Inr cutoff else Inl OverflowError)"

definition expired :: "time \<Rightarrow> audit_row \<Rightarrow> bool" where
  "expired cutoff r \<longleftrightarrow> sa_created_at r < cutoff"

definition count_expired :: "time \<Rightarrow> audit_row list \<Rightarrow> nat" where
  "count_expired cutoff rows = length (filter (expired cutoff) rows)"

text \<open>
  One transaction: open the gate, delete the oldest expired rows. Rows of equal age are taken in the order of
  the table.
\<close>

definition purge_batch :: "time \<Rightarrow> nat \<Rightarrow> audit_row list \<Rightarrow> (nat \<times> audit_row list) res" where
  "purge_batch cutoff batch_size rows =
     (let gate = Some ''on'';
          doomed = take batch_size (sort_key sa_created_at (filter (expired cutoff) rows))
      in res_bind (delete_audit gate (\<lambda>r. sa_id r \<in> sa_id ` set doomed) rows) (\<lambda>rows'.
           Inr (length rows - length rows', rows')))"

text \<open>
  The loop over the batches; \<open>between i\<close> is what other processes do to the table after batch \<open>i\<close>. A purge that
  never ends has the value \<open>None\<close>.
\<close>

partial_function (option) purge_loop ::
  "(nat \<Rightarrow> audit_row list \<Rightarrow> audit_row list) \<Rightarrow> int option \<Rightarrow> nat \<Rightarrow> purge_report \<Rightarrow> audit_row list \<Rightarrow>
    ((purge_report \<times> audit_row list) res) option" where
  "purge_loop between max_batches batches report rows =
     (if (case max_batches of None \<Rightarrow> True | Some m \<Rightarrow> int batches < m)
      then (case purge_batch (pr_cutoff report) (pr_batch_size report) rows of
          Inl e \<Rightarrow> Some (Inl e)
        | Inr done \<Rightarrow>
            if fst done = 0 then Some (Inr (report, snd done))
            else purge_loop between max_batches (batches + 1)
              (report\<lparr>pr_deleted := pr_deleted report + fst done, pr_batches := pr_batches report @ [fst done]\<rparr>)
              (between batches (snd done)))
      else Some (Inr (report\<lparr>pr_stopped_early := True\<rparr>, rows)))"

definition purge_expired_audit_events ::
  "(nat \<Rightarrow> audit_row list \<Rightarrow> audit_row list) \<Rightarrow> retention_settings \<Rightarrow> bool \<Rightarrow> int option \<Rightarrow> time \<Rightarrow> audit_row list \<Rightarrow>
    ((purge_report \<times> audit_row list) res) option" where
  "purge_expired_audit_events between st dry_run max_batches now rows =
     (case resolve_cutoff st now of
        Inl e \<Rightarrow> Some (Inl e)
      | Inr cutoff \<Rightarrow>
          let report = \<lparr>pr_dry_run = dry_run, pr_cutoff = cutoff,
                pr_retention_days = (case rs_retention_days st of Some d \<Rightarrow> d | None \<Rightarrow> 0), pr_batch_size = rs_batch_size st,
                pr_eligible = count_expired cutoff rows, pr_deleted = 0, pr_batches = [], pr_stopped_early = False\<rparr>
          in if dry_run \<or> pr_eligible report = 0 then Some (Inr (report, rows))
             else purge_loop between max_batches 0 report rows)"

text \<open>The command line: what \<open>main\<close> refuses, and the purge it runs otherwise.\<close>

definition purge_main ::
  "(nat \<Rightarrow> audit_row list \<Rightarrow> audit_row list) \<Rightarrow> retention_settings \<Rightarrow> bool \<Rightarrow> int option \<Rightarrow> int option \<Rightarrow> time \<Rightarrow> audit_row list \<Rightarrow>
    ((purge_report \<times> audit_row list) res) option" where
  "purge_main between st apply_it confirm max_batches now rows =
     (if apply_it \<and> rs_retention_days st = None then Some (Inl (ForeignError ''SystemExit'' None))
      else if apply_it \<and> confirm \<noteq> rs_retention_days st then Some (Inl (ForeignError ''SystemExit'' None))
      else (case purge_expired_audit_events between st (\<not> apply_it) max_batches now rows of
        Some (Inl (RetentionDisabledError m)) \<Rightarrow> Some (Inl (ForeignError ''SystemExit'' None))
      | out \<Rightarrow> out))"

section \<open>One batch\<close>

lemma gate_opens: "delete_audit (Some ''on'') p rows = Inr (filter (\<lambda>r. \<not> p r) rows)"
  by (simp add: delete_audit_def trigger_passes_def)

text \<open>A batch removes as many of the expired rows as it may, and no other row.\<close>

lemma purge_batch_effect:
  assumes "distinct (map sa_id rows)"
  obtains rows' where
    "purge_batch cutoff n rows = Inr (min n (count_expired cutoff rows), rows')"
    "count_expired cutoff rows' = count_expired cutoff rows - n"
    "filter (\<lambda>r. \<not> expired cutoff r) rows' = filter (\<lambda>r. \<not> expired cutoff r) rows"
    "distinct (map sa_id rows')"
proof -
  let ?old = "filter (expired cutoff) rows"
  define doomed where "doomed = take n (sort_key sa_created_at ?old)"
  define p where "p = (\<lambda>r :: audit_row. sa_id r \<in> sa_id ` set doomed)"
  let ?rows = "filter (\<lambda>r. \<not> p r) rows"
  have dist: "distinct rows" using assms by (simp add: distinct_map)
  have sub: "set doomed \<subseteq> set ?old" unfolding doomed_def by (metis set_sort set_take_subset)
  have inj: "p r \<longleftrightarrow> r \<in> set doomed" if "r \<in> set rows" for r
    using that sub assms unfolding p_def by (auto simp: distinct_map dest: inj_onD)
  have old: "expired cutoff r" if "r \<in> set rows" "p r" for r using that inj sub by auto
  have "set (filter p rows) = set doomed" using inj sub by auto
  moreover have "distinct doomed" "distinct (filter p rows)" using dist by (simp_all add: doomed_def distinct_take)
  ultimately have "length (filter p rows) = length doomed" by (metis distinct_card)
  then have count: "length (filter p rows) = min n (count_expired cutoff rows)"
    by (simp add: doomed_def count_expired_def min.commute)
  have len: "length rows - length ?rows = min n (count_expired cutoff rows)"
    using sum_length_filter_compl [of p rows] count by linarith
  have "filter p ?old = filter p rows" using old by (auto simp: filter_filter intro: filter_cong)
  moreover have "filter (\<lambda>r. \<not> p r) ?old = filter (expired cutoff) ?rows" by (auto simp: filter_filter intro: filter_cong)
  ultimately have left: "count_expired cutoff ?rows = count_expired cutoff rows - n"
    using sum_length_filter_compl [of p ?old] count 
    by (cases "n \<le> count_expired cutoff rows") (simp_all add: count_expired_def)
  have keep: "filter (\<lambda>r. \<not> expired cutoff r) ?rows = filter (\<lambda>r. \<not> expired cutoff r) rows"
    using old by (auto simp: filter_filter intro: filter_cong)
  have "purge_batch cutoff n rows = Inr (min n (count_expired cutoff rows), ?rows)"
    using len by (simp add: purge_batch_def gate_opens Let_def flip: doomed_def p_def)
  moreover have "distinct (map sa_id ?rows)" using assms by (simp add: distinct_map inj_on_def)
  ultimately show ?thesis using left keep that by blast
qed

section \<open>The loop\<close>

text \<open>Other processes only append rows of their own, created after the horizon.\<close>

definition appends_fresh :: "time \<Rightarrow> (nat \<Rightarrow> audit_row list \<Rightarrow> audit_row list) \<Rightarrow> bool" where
  "appends_fresh cutoff between \<longleftrightarrow> (\<forall>i rows. distinct (map sa_id rows) \<longrightarrow>
     (\<exists>new. between i rows = rows @ new \<and> list_all (\<lambda>r. \<not> expired cutoff r) new \<and> distinct (map sa_id (rows @ new))))"

lemma purge_loop_ends:
  assumes "appends_fresh (pr_cutoff report) between" "0 < pr_batch_size report" "distinct (map sa_id rows)"
  shows "\<exists>report' rows' new. purge_loop between None batches report rows = Some (Inr (report', rows')) \<and>
    pr_deleted report' = pr_deleted report + count_expired (pr_cutoff report) rows \<and>
    sum_list (pr_batches report') = sum_list (pr_batches report) + count_expired (pr_cutoff report) rows \<and>
    (list_all (\<lambda>n. n \<le> pr_batch_size report) (pr_batches report) \<longrightarrow> list_all (\<lambda>n. n \<le> pr_batch_size report) (pr_batches report')) \<and>
    pr_eligible report' = pr_eligible report \<and> pr_stopped_early report' = pr_stopped_early report \<and>
    rows' = filter (\<lambda>r. \<not> expired (pr_cutoff report) r) rows @ new"
  using assms
proof (induction "count_expired (pr_cutoff report) rows" arbitrary: batches report rows rule: less_induct)
  case less
  let ?c = "pr_cutoff report" and ?n = "pr_batch_size report"
  obtain rows1 where b: "purge_batch ?c ?n rows = Inr (min ?n (count_expired ?c rows), rows1)"
    and left: "count_expired ?c rows1 = count_expired ?c rows - ?n"
    and keep: "filter (\<lambda>r. \<not> expired ?c r) rows1 = filter (\<lambda>r. \<not> expired ?c r) rows"
    and dist: "distinct (map sa_id rows1)"
    using purge_batch_effect [OF less.prems(3)] by blast
  show ?case
  proof (cases "count_expired ?c rows = 0")
    case True
    then have "purge_loop between None batches report rows = Some (Inr (report, rows1))"
      using b by (subst purge_loop.simps) simp
    moreover have "rows1 = filter (\<lambda>r. \<not> expired ?c r) rows"
    proof -
      have "count_expired ?c rows1 = 0" using left True by simp
      then have "filter (\<lambda>r. \<not> expired ?c r) rows1 = rows1" by (auto simp: count_expired_def filter_empty_conv intro: filter_True)
      then show ?thesis using keep by simp
    qed
    ultimately show ?thesis using True by auto
  next
    case False
    obtain m where m: "m = min ?n (count_expired ?c rows)" by blast
    let ?report = "report\<lparr>pr_deleted := pr_deleted report + m, pr_batches := pr_batches report @ [m]\<rparr>"
    obtain new where new: "between batches rows1 = rows1 @ new" "list_all (\<lambda>r. \<not> expired ?c r) new"
      "distinct (map sa_id (rows1 @ new))" using less.prems(1) dist unfolding appends_fresh_def by blast
    have none: "filter (expired ?c) new = []" "filter (\<lambda>r. \<not> expired ?c r) new = new"
      using new(2) by (auto simp: filter_empty_conv list_all_iff)
    have fewer: "count_expired ?c (rows1 @ new) = count_expired ?c rows - ?n"
      using left none(1) by (simp add: count_expired_def)
    then have "count_expired (pr_cutoff ?report) (rows1 @ new) < count_expired ?c rows"
      using False less.prems(2) by simp
    from less.hyps [OF this, of "batches + 1"] less.prems(1,2) new(3)
    obtain report' rows' new' where IH:
      "purge_loop between None (batches + 1) ?report (rows1 @ new) = Some (Inr (report', rows'))"
      "pr_deleted report' = pr_deleted report + m + (count_expired ?c rows - ?n)"
      "sum_list (pr_batches report') = sum_list (pr_batches report) + m + (count_expired ?c rows - ?n)"
      "list_all (\<lambda>n. n \<le> ?n) (pr_batches report @ [m]) \<longrightarrow> list_all (\<lambda>n. n \<le> ?n) (pr_batches report')"
      "pr_eligible report' = pr_eligible report" "pr_stopped_early report' = pr_stopped_early report"
      "rows' = filter (\<lambda>r. \<not> expired ?c r) (rows1 @ new) @ new'"
      by (auto simp: fewer)
    have "m \<noteq> 0" "purge_batch ?c ?n rows = Inr (m, rows1)" using False less.prems(2) m b by auto
    then have "purge_loop between None batches report rows = Some (Inr (report', rows'))"
      using IH(1) new(1) by (subst purge_loop.simps) simp
    moreover have "rows' = filter (\<lambda>r. \<not> expired ?c r) rows @ (new @ new')" using IH(7) keep none(2) by simp
    ultimately show ?thesis using IH(2-6) m by (intro exI [of _ report'] exI [of _ rows'] exI [of _ "new @ new'"]) auto
  qed
qed

section \<open>Properties\<close>

text \<open>
  C26. An unbounded purge ends, whatever other processes append meanwhile: it deletes exactly the rows that
  were past the horizon, in batches of at most the configured size, and keeps every younger row in its place.
\<close>

theorem purge_terminates:
  assumes "resolve_cutoff st now = Inr cutoff" "appends_fresh cutoff between" "0 < rs_batch_size st" "distinct (map sa_id rows)"
  shows "\<exists>report new. purge_expired_audit_events between st False None now rows =
      Some (Inr (report, filter (\<lambda>r. \<not> expired cutoff r) rows @ new)) \<and>
    pr_deleted report = count_expired cutoff rows \<and> pr_eligible report = count_expired cutoff rows \<and>
    sum_list (pr_batches report) = pr_deleted report \<and> list_all (\<lambda>n. n \<le> rs_batch_size st) (pr_batches report) \<and>
    \<not> pr_stopped_early report"
proof -
  let ?report = "\<lparr>pr_dry_run = False, pr_cutoff = cutoff,
    pr_retention_days = (case rs_retention_days st of Some d \<Rightarrow> d | None \<Rightarrow> 0), pr_batch_size = rs_batch_size st,
    pr_eligible = count_expired cutoff rows, pr_deleted = 0, pr_batches = [], pr_stopped_early = False\<rparr>"
  show ?thesis
  proof (cases "count_expired cutoff rows = 0")
    case True
    then have "filter (\<lambda>r. \<not> expired cutoff r) rows = rows" by (auto simp: count_expired_def filter_empty_conv intro: filter_True)
    then have "purge_expired_audit_events between st False None now rows =
        Some (Inr (?report, filter (\<lambda>r. \<not> expired cutoff r) rows @ []))"
      using assms(1) True by (simp add: purge_expired_audit_events_def Let_def)
    then show ?thesis using True by (intro exI [of _ ?report] exI [of _ "[]"]) simp
  next
    case False
    then have "purge_expired_audit_events between st False None now rows = purge_loop between None 0 ?report rows"
      using assms(1) by (simp add: purge_expired_audit_events_def Let_def)
    then show ?thesis using purge_loop_ends [of ?report between rows 0] assms(2-4) by auto
  qed
qed

definition sample_audit :: "uuid \<Rightarrow> time \<Rightarrow> audit_row" where
  "sample_audit i t = \<lparr>sa_id = i, sa_record = \<lparr>ad_event_type = ''AUTH'', ad_outcome = ''DENIED'', ad_reason = ''INVALID_CREDENTIAL'',
     ad_client_id = None, ad_fingerprint = None, ad_principal_id = None, ad_target_run_id = None, ad_resource = None\<rparr>,
     sa_created_at = t\<rparr>"

theorem purge_terminates_witness:
  "\<exists>report new. purge_expired_audit_events (\<lambda>i rows. rows) \<lparr>rs_retention_days = Some 1, rs_batch_size = 1\<rparr> False None 86400000005
      [sample_audit 1 3, sample_audit 2 9, sample_audit 3 1] = Some (Inr (report, sample_audit 2 9 # new)) \<and> pr_deleted report = 2"
proof -
  have "resolve_cutoff \<lparr>rs_retention_days = Some 1, rs_batch_size = 1\<rparr> 86400000005 = Inr 5" by code_simp
  moreover have "appends_fresh 5 (\<lambda>i rows. rows)" by (simp add: appends_fresh_def)
  ultimately show ?thesis
    using purge_terminates [of "\<lparr>rs_retention_days = Some 1, rs_batch_size = 1\<rparr>" 86400000005 5 "\<lambda>i rows. rows"
      "[sample_audit 1 3, sample_audit 2 9, sample_audit 3 1]"]
    by (auto simp: sample_audit_def expired_def count_expired_def)
qed

end
