(* ===== verification/Envelope.thy ===== *)
theory Envelope
  imports Py_Bytes Py_Json_Parse Security_Audit Db_Model
begin

text \<open>
  Envelope encryption of tenant data (\<open>security/envelope.py\<close>) and the operator's key retention
  (\<open>security/retention_cli.py\<close>). The AEAD cipher is third-party code: a parameter with its documented law.
  Random bytes and the clock are arguments. Each method runs inside a transaction of its caller, so an exception
  leaves nothing behind.
\<close>

section \<open>Ciphers and key wrappers\<close>

record aead =
  seal :: "bytes \<Rightarrow> bytes \<Rightarrow> bytes \<Rightarrow> bytes \<Rightarrow> bytes"
  unseal :: "bytes \<Rightarrow> bytes \<Rightarrow> bytes \<Rightarrow> bytes \<Rightarrow> bytes res"

definition aead_laws :: "aead \<Rightarrow> bool" where
  "aead_laws A \<longleftrightarrow> (\<forall>k n d aad. is_bytes d \<longrightarrow> unseal A k n (seal A k n d aad) aad = Inr d \<and> is_bytes (seal A k n d aad))"

record key_wrapper =
  kw_wrap :: "bytes \<Rightarrow> bytes \<Rightarrow> bytes"
  kw_unwrap :: "bytes \<Rightarrow> bytes res"

text \<open>What the envelope relies on: unwrapping gives back what was wrapped, under any nonce.\<close>

definition wrapper_laws :: "key_wrapper \<Rightarrow> bool" where
  "wrapper_laws W \<longleftrightarrow> (\<forall>nonce dek. length nonce = 12 \<and> is_bytes dek \<longrightarrow> kw_unwrap W (kw_wrap W nonce dek) = Inr dek)"

definition LocalKeyWrapper :: "aead \<Rightarrow> bytes \<Rightarrow> key_wrapper res" where
  "LocalKeyWrapper A key =
     (if length key \<noteq> 32 then Inl (ValueError ''A random 256-bit wrapping key is required'')
      else Inr \<lparr>kw_wrap = (\<lambda>nonce dek. nonce @ seal A key nonce dek (utf8_encode ''arr-local-wrap-v1'')),
                kw_unwrap = (\<lambda>blob. unseal A key (take 12 blob) (drop 12 blob) (utf8_encode ''arr-local-wrap-v1''))\<rparr>)"

section \<open>Tenant keys\<close>

record tenant_key =
  tk_tenant_id :: string
  tk_wrapped_dek :: "bytes option"
  tk_last_encrypted_at :: time
  tk_destroyed_at :: "time option"

record vault =
  vt_keys :: "tenant_key list"
  vt_db :: db
  vt_audit :: "audit_row list"

text \<open>The random bytes of one call: the key it may create, its wrapping nonce and the nonce of the message.\<close>

record entropy =
  en_now :: time
  en_dek :: bytes
  en_wrap_nonce :: bytes
  en_nonce :: bytes

definition key_prefix :: "string \<Rightarrow> bytes" where
  "key_prefix tenant = utf8_encode tenant @ [0]"

definition get_key :: "string \<Rightarrow> vault \<Rightarrow> tenant_key option" where
  "get_key tenant vt = row_with tk_tenant_id tenant (vt_keys vt)"

definition key_row :: "key_wrapper \<Rightarrow> entropy \<Rightarrow> string \<Rightarrow> bool \<Rightarrow> vault \<Rightarrow> (tenant_key \<times> vault) res" where
  "key_row W en tenant create vt = (case get_key tenant vt of
     Some row \<Rightarrow> Inr (row, vt)
   | None \<Rightarrow>
       if \<not> create then Inl (KeyDestroyedError ''Tenant key is unavailable'')
       else let row = \<lparr>tk_tenant_id = tenant, tk_wrapped_dek = Some (kw_wrap W (en_wrap_nonce en) (key_prefix tenant @ en_dek en)),
              tk_last_encrypted_at = en_now en, tk_destroyed_at = None\<rparr>
         in Inr (row, vt\<lparr>vt_keys := vt_keys vt @ [row]\<rparr>))"

definition touch_key :: "string \<Rightarrow> time \<Rightarrow> vault \<Rightarrow> vault" where
  "touch_key tenant now vt = vt\<lparr>vt_keys :=
     rewrite (\<lambda>r. tk_tenant_id r = tenant) (\<lambda>r. r\<lparr>tk_last_encrypted_at := now\<rparr>) (vt_keys vt)\<rparr>"

definition tenant_dek :: "key_wrapper \<Rightarrow> entropy \<Rightarrow> string \<Rightarrow> bool \<Rightarrow> vault \<Rightarrow> (bytes \<times> vault) res" where
  "tenant_dek W en tenant create vt =
     res_bind (key_row W en tenant create vt) (\<lambda>(row, vt1).
       case (tk_destroyed_at row, tk_wrapped_dek row) of
         (None, Some blob) \<Rightarrow>
           res_bind (kw_unwrap W blob) (\<lambda>raw.
             if take (length (key_prefix tenant)) raw \<noteq> key_prefix tenant \<or> length raw \<noteq> length (key_prefix tenant) + 32
             then Inl (KeyDestroyedError ''Tenant key binding is invalid'')
             else Inr (drop (length (key_prefix tenant)) raw,
               if create then touch_key tenant (en_now en) vt1 else vt1))
       | _ \<Rightarrow> Inl (KeyDestroyedError ''Tenant key has been destroyed''))"

section \<open>Envelopes\<close>

definition ENCRYPTED_FIELDS :: "string list" where
  "ENCRYPTED_FIELDS = [''input'', ''result'', ''instructions'', ''evaluation_result'']"

definition aad_of :: "string \<Rightarrow> uuid \<Rightarrow> string \<Rightarrow> bytes res" where
  "aad_of tenant run_id fld =
     (if fld \<notin> set ENCRYPTED_FIELDS then Inl (ValueError ''Unsupported encrypted field'')
      else Inr (utf8_encode (CHR ''['' # join '', '' (map (dump_str True) [''arr-envelope-v1'', tenant, uuid_str run_id, fld]) @ '']'')))"

text \<open>\<open>allow_nan=False\<close> refuses values that hold an infinity or a NaN.\<close>

function finite_json :: "json \<Rightarrow> bool" where
  "finite_json JNull = True"
| "finite_json (JBool b) = True"
| "finite_json (JInt i) = True"
| "finite_json (JFloat f) = (case f of Fin q \<Rightarrow> True | _ \<Rightarrow> False)"
| "finite_json (JStr s) = True"
| "finite_json (JList xs) = list_all finite_json xs"
| "finite_json (JDict d) = list_all (\<lambda>kv. finite_json (snd kv)) d"
  by pat_completeness auto
termination
  by (relation "measure size") (auto simp: size_in_list dest!: size_in_dict)

definition encrypt :: "aead \<Rightarrow> key_wrapper \<Rightarrow> entropy \<Rightarrow> string \<Rightarrow> uuid \<Rightarrow> string \<Rightarrow> json \<Rightarrow> vault \<Rightarrow> (dict \<times> vault) res" where
  "encrypt A W en tenant run_id fld value vt =
     res_bind (tenant_dek W en tenant True vt) (\<lambda>(key, vt1).
       if \<not> finite_json value then Inl (ValueError ''Out of range float values are not JSON compliant'')
       else res_bind (aad_of tenant run_id fld) (\<lambda>aad.
         Inr ([(''format'', JStr ''arr-envelope-v1''),
               (''data'', JStr (b64encode (en_nonce en @ seal A key (en_nonce en) (utf8_encode (json_dump False True value)) aad)))], vt1)))"

text \<open>
  \<open>json.loads\<close> on bytes decodes them first: as UTF-8 unless one of the first bytes is zero, which marks the
  wider encodings; those, and characters beyond the model's range, are errors of the model.
\<close>

fun utf8_decode :: "bytes \<Rightarrow> string res" where
  "utf8_decode [] = Inr []"
| "utf8_decode (b # bs) =
     (if 0 \<le> b \<and> b < 128 then res_bind (utf8_decode bs) (\<lambda>s. Inr (char_of (nat b) # s))
      else (case bs of
        [] \<Rightarrow> Inl (ValueError ''UnicodeDecodeError'')
      | c # cs \<Rightarrow>
          if (b = 194 \<or> b = 195) \<and> 128 \<le> c \<and> c < 192
          then res_bind (utf8_decode cs) (\<lambda>s. Inr (char_of (nat ((b - 192) * 64 + (c - 128))) # s))
          else Inl (ValueError ''UnicodeDecodeError'')))"

definition loads_bytes :: "bytes \<Rightarrow> json res" where
  "loads_bytes bs = (if list_ex (\<lambda>b. b = 0) (take 4 bs) then Inl (ValueError ''UnicodeDecodeError'') else res_bind (utf8_decode bs) loads)"

definition decrypt :: "aead \<Rightarrow> key_wrapper \<Rightarrow> entropy \<Rightarrow> string \<Rightarrow> uuid \<Rightarrow> string \<Rightarrow> dict \<Rightarrow> vault \<Rightarrow> json res" where
  "decrypt A W en tenant run_id fld envelope vt =
     (if dget envelope ''format'' \<noteq> Some (JStr ''arr-envelope-v1'') then Inl (ValueError ''Unsupported envelope'')
      else res_bind (tenant_dek W en tenant False vt) (\<lambda>(key, _).
        case dget envelope ''data'' of
          None \<Rightarrow> Inl (KeyError ''data'')
        | Some (JStr text) \<Rightarrow>
            res_bind (b64decode text) (\<lambda>data.
            res_bind (aad_of tenant run_id fld) (\<lambda>aad.
            res_bind (unseal A key (take 12 data) (drop 12 data) aad) loads_bytes))
        | Some _ \<Rightarrow> Inl (TypeError ''argument should be a bytes-like object or ASCII string'')))"

definition protect_policy ::
  "aead \<Rightarrow> key_wrapper \<Rightarrow> entropy \<Rightarrow> string \<Rightarrow> uuid \<Rightarrow> dict \<Rightarrow> vault \<Rightarrow> (dict \<times> vault) res" where
  "protect_policy A W en tenant run_id policy vt =
     (if dget policy ''_encrypted_instructions'' \<noteq> None then Inl (ValueError ''Policy is already protected'')
      else (case dget policy ''instructions'' of
        None \<Rightarrow> Inr (policy, vt)
      | Some value \<Rightarrow> res_bind (encrypt A W en tenant run_id ''instructions'' value vt) (\<lambda>(sealed, vt1).
          Inr (dset ''_encrypted_instructions'' (JDict sealed) (ddel ''instructions'' policy), vt1))))"

section \<open>Retention\<close>

definition unsafe_run :: "time option \<Rightarrow> string \<Rightarrow> run_row \<Rightarrow> bool" where
  "unsafe_run cutoff tenant r \<longleftrightarrow> r_client_id r = tenant \<and>
     (case r_completed_at r of None \<Rightarrow> True | Some t \<Rightarrow> (case cutoff of None \<Rightarrow> False | Some c \<Rightarrow> t > c))"

definition retention_candidates :: "time \<Rightarrow> int \<Rightarrow> vault \<Rightarrow> string list" where
  "retention_candidates cutoff limit vt =
     take (nat (max 1 (min limit 100)))
       (sort (map tk_tenant_id (filter (\<lambda>k. tk_destroyed_at k = None \<and> tk_last_encrypted_at k \<le> cutoff \<and>
          \<not> list_ex (unsafe_run (Some cutoff) (tk_tenant_id k)) (runs (vt_db vt))) (vt_keys vt))))"

definition erased_row :: "uuid \<Rightarrow> time \<Rightarrow> string \<Rightarrow> string \<Rightarrow> audit_row" where
  "erased_row i db_now tenant prin = \<lparr>sa_id = i, sa_record =
     \<lparr>ad_event_type = ''TENANT_KEY_ERASED'', ad_outcome = ''ALLOWED'', ad_reason = ''EXPLICIT_ERASURE'',
      ad_client_id = safe_text (Some tenant) 128, ad_fingerprint = None, ad_principal_id = safe_text (Some prin) 128,
      ad_target_run_id = None, ad_resource = None\<rparr>, sa_created_at = db_now\<rparr>"

definition erase_tenant_key ::
  "uuid \<Rightarrow> time \<Rightarrow> time \<Rightarrow> string \<Rightarrow> string \<Rightarrow> bool \<Rightarrow> string option \<Rightarrow> time option \<Rightarrow> vault \<Rightarrow> (bool \<times> vault) res" where
  "erase_tenant_key i db_now now tenant prin dry_run confirm cutoff vt = (case get_key tenant vt of
     None \<Rightarrow> Inr (False, vt)
   | Some row \<Rightarrow>
       if tk_destroyed_at row \<noteq> None then Inr (False, vt)
       else if (case cutoff of Some c \<Rightarrow> tk_last_encrypted_at row > c | None \<Rightarrow> False) then Inr (False, vt)
       else if list_ex (unsafe_run cutoff tenant) (runs (vt_db vt)) then Inr (False, vt)
       else if dry_run then Inr (True, vt)
       else if confirm \<noteq> Some tenant then Inl (ValueError ''Explicit tenant confirmation is required'')
       else Inr (True, vt\<lparr>
         vt_keys := rewrite (\<lambda>k. tk_tenant_id k = tenant) (\<lambda>k. k\<lparr>tk_wrapped_dek := None, tk_destroyed_at := Some now\<rparr>) (vt_keys vt),
         vt_audit := vt_audit vt @ [erased_row i db_now tenant prin]\<rparr>))"

text \<open>The command: the parser's check, then one transaction. Its result is what it prints.\<close>

definition retention_main ::
  "uuid \<Rightarrow> time \<Rightarrow> time \<Rightarrow> int \<Rightarrow> bool \<Rightarrow> string option \<Rightarrow> string option \<Rightarrow> string \<Rightarrow> vault \<Rightarrow> (dict \<times> vault) res" where
  "retention_main i db_now now days apply_it tenant confirm prin vt =
     (if apply_it \<and> (tenant = None \<or> tenant = Some [] \<or> confirm \<noteq> tenant) then Inl (ForeignError ''SystemExit'' None)
      else let cutoff = now - days * 86400 * us_per_second in
        if \<not> (min_time \<le> cutoff \<and> cutoff \<le> max_time) then Inl OverflowError
        else (case (apply_it, tenant) of
          (True, Some t) \<Rightarrow> res_bind (erase_tenant_key i db_now now t prin False confirm (Some cutoff) vt) (\<lambda>(changed, vt1).
            Inr ([(''dry_run'', JBool False), (''destroyed'', JBool changed), (''tenant_id'', JStr t)], vt1))
        | _ \<Rightarrow> Inr ([(''dry_run'', JBool True), (''candidates'', JList (map JStr (retention_candidates cutoff 100 vt)))], vt)))"

section \<open>Bytes and text\<close>

lemma utf8_decode_encode: "utf8_decode (utf8_encode s) = Inr s"
proof (induction s)
  case (Cons c s)
  have lt: "code c < 256" by (simp add: code_def)
  have same: "char_of (code c) = c" by (simp add: code_def)
  show ?case
  proof (cases "code c < 128")
    case False
    have "int (code c) div 64 = 2 \<or> int (code c) div 64 = 3" using lt False by linarith
    moreover have "int (code c) div 64 * 64 + int (code c) mod 64 = int (code c)" by simp
    ultimately show ?thesis using False Cons same by (auto simp: utf8_encode_def)
  qed (use Cons same in \<open>simp add: utf8_encode_def\<close>)
qed (simp add: utf8_encode_def)

lemma utf8_encode_bytes: "is_bytes (utf8_encode s)"
proof (induction s)
  case (Cons c s)
  have "code c < 256" by (simp add: code_def)
  then have "int (code c) div 64 < 4" by linarith
  then show ?case using Cons by (auto simp: utf8_encode_def is_bytes_def)
qed (simp add: utf8_encode_def is_bytes_def)

definition no_nul :: "string \<Rightarrow> bool" where
  "no_nul s \<longleftrightarrow> list_all (\<lambda>c. code c \<noteq> 0) s"

lemma no_nul_simps [simp]: "no_nul []" "no_nul (c # s) \<longleftrightarrow> code c \<noteq> 0 \<and> no_nul s" "no_nul (s @ t) \<longleftrightarrow> no_nul s \<and> no_nul t"
  by (simp_all add: no_nul_def)

lemma no_nul_encode: "no_nul s \<Longrightarrow> 0 \<notin> set (utf8_encode s)"
  by (induction s) (auto simp: utf8_encode_def)

lemma no_nul_join: "(\<And>p. p \<in> set ps \<Longrightarrow> no_nul p) \<Longrightarrow> no_nul sep \<Longrightarrow> no_nul (join sep ps)"
  by (induction ps) (auto simp: join_Cons join_def [of _ "[]"])

lemma no_nul_hex: "no_nul (hex_fixed k n)"
  by (auto simp: no_nul_def list_all_iff dest!: hex_fixed_is_hex is_hex_code)

lemma no_nul_dump_str: "no_nul (dump_str a s)"
proof -
  have "no_nul (escape_char a c)" for c
    using no_nul_hex [of 4 "int (code c)"] by (auto simp: escape_char_def code_def simp del: hex_fixed.simps)
  then show ?thesis by (induction s) (auto simp: dump_str_def code_def)
qed

lemma no_nul_show_int: "no_nul (show_int i)"
proof -
  have "no_nul (show_digits n)" if "0 \<le> n" for n
    using show_digits_facts(2) [OF that] by (auto simp: no_nul_def list_all_iff is_ascii_digit_def)
  then show ?thesis by (auto simp: show_int_def code_def)
qed

lemma no_nul_dump: "plain v \<Longrightarrow> no_nul (json_dump so a v)"
proof (induction rule: plain.induct)
  case (plain_list xs)
  then show ?case by (auto simp: json_dump.simps code_def intro!: no_nul_join)
next
  case (plain_dict d)
  then show ?case by (auto simp: json_dump.simps code_def no_nul_dump_str intro!: no_nul_join)
qed (simp_all add: no_nul_dump_str no_nul_show_int code_def)

lemma loads_bytes_dump: "plain v \<Longrightarrow> loads_bytes (utf8_encode (json_dump False a v)) = Inr v"
  using no_nul_encode [OF no_nul_dump, of v False a]
  by (auto simp: loads_bytes_def utf8_decode_encode loads_dumps list_ex_iff dest!: in_set_takeD)

lemma plain_finite: "plain v \<Longrightarrow> finite_json v"
  by (induction rule: plain.induct) (auto simp: list_all_iff)

section \<open>Keys\<close>

lemma LocalKeyWrapper_laws:
  assumes "aead_laws A" "LocalKeyWrapper A key = Inr W"
  shows "wrapper_laws W"
  using assms by (auto simp: wrapper_laws_def aead_laws_def LocalKeyWrapper_def split: if_splits)

text \<open>A tenant's key can be used: it is absent, or live and bound to the tenant.\<close>

definition key_usable :: "key_wrapper \<Rightarrow> string \<Rightarrow> vault \<Rightarrow> bool" where
  "key_usable W tenant vt = (case get_key tenant vt of
     None \<Rightarrow> True
   | Some row \<Rightarrow> tk_destroyed_at row = None \<and> (\<exists>blob dek. tk_wrapped_dek row = Some blob \<and> length dek = 32 \<and>
       kw_unwrap W blob = Inr (key_prefix tenant @ dek)))"

lemma get_key_touch:
  "get_key t (touch_key tenant now vt) =
    map_option (\<lambda>r. if t = tenant then r\<lparr>tk_last_encrypted_at := now\<rparr> else r) (get_key t vt)"
  by (cases "get_key t vt") (auto simp: get_key_def touch_key_def row_with_rewrite dest: row_with_SomeD)

lemma tenant_dek_live:
  assumes "get_key tenant vt = Some row" "tk_destroyed_at row = None" "tk_wrapped_dek row = Some blob"
    and "kw_unwrap W blob = Inr (key_prefix tenant @ dek)" "length dek = 32"
  shows "tenant_dek W en tenant create vt = Inr (dek, if create then touch_key tenant (en_now en) vt else vt)"
  using assms by (simp add: tenant_dek_def key_row_def)

text \<open>The key an encryption uses is the one a later decryption finds.\<close>

lemma tenant_dek_create:
  assumes "wrapper_laws W" "key_usable W tenant vt" "length (en_dek en) = 32" "length (en_wrap_nonce en) = 12" "is_bytes (en_dek en)"
  obtains key vt' where "tenant_dek W en tenant True vt = Inr (key, vt')"
    "\<And>en'. tenant_dek W en' tenant False vt' = Inr (key, vt')"
proof (cases "get_key tenant vt")
  case None
  let ?row = "\<lparr>tk_tenant_id = tenant, tk_wrapped_dek = Some (kw_wrap W (en_wrap_nonce en) (key_prefix tenant @ en_dek en)),
    tk_last_encrypted_at = en_now en, tk_destroyed_at = None\<rparr>"
  let ?vt = "vt\<lparr>vt_keys := vt_keys vt @ [?row]\<rparr>"
  let ?vt' = "touch_key tenant (en_now en) ?vt"
  have un: "kw_unwrap W (kw_wrap W (en_wrap_nonce en) (key_prefix tenant @ en_dek en)) = Inr (key_prefix tenant @ en_dek en)"
    using assms(1,4,5) utf8_encode_bytes [of tenant] by (simp add: wrapper_laws_def key_prefix_def is_bytes_def)
  have row: "get_key tenant ?vt = Some ?row" using None by (simp add: get_key_def row_with_append)
  have "tenant_dek W en tenant True vt = tenant_dek W en tenant True ?vt"
    using None row by (simp add: tenant_dek_def key_row_def Let_def)
  also have "\<dots> = Inr (en_dek en, ?vt')" using tenant_dek_live [OF row _ _ un assms(3)] by simp
  finally have first: "tenant_dek W en tenant True vt = Inr (en_dek en, ?vt')" .
  have "get_key tenant ?vt' = Some (?row\<lparr>tk_last_encrypted_at := en_now en\<rparr>)"
    using row by (simp add: get_key_touch)
  then have "tenant_dek W en' tenant False ?vt' = Inr (en_dek en, ?vt')" for en'
    using tenant_dek_live [of tenant ?vt' _ _ W "en_dek en" en' False] un assms(3) by simp
  then show ?thesis using first that by blast
next
  case (Some row)
  then obtain blob dek where k: "tk_destroyed_at row = None" "tk_wrapped_dek row = Some blob" "length dek = 32"
    "kw_unwrap W blob = Inr (key_prefix tenant @ dek)" using assms(2) by (auto simp: key_usable_def)
  let ?vt' = "touch_key tenant (en_now en) vt"
  have first: "tenant_dek W en tenant True vt = Inr (dek, ?vt')" using tenant_dek_live [OF Some k(1,2,4,3)] by simp
  have "get_key tenant ?vt' = Some (row\<lparr>tk_last_encrypted_at := en_now en\<rparr>)" using Some by (simp add: get_key_touch)
  then have "tenant_dek W en' tenant False ?vt' = Inr (dek, ?vt')" for en'
    using tenant_dek_live [of tenant ?vt' _ blob W dek en' False] k by simp
  then show ?thesis using first that by blast
qed

section \<open>Tombstones\<close>

definition destroyed :: "string \<Rightarrow> vault \<Rightarrow> bool" where
  "destroyed tenant vt = (case get_key tenant vt of None \<Rightarrow> False | Some row \<Rightarrow> tk_destroyed_at row \<noteq> None)"

text \<open>What may happen to a vault: encryptions and erasures, and any change of the runs and the audit table.\<close>

inductive vault_later :: "vault \<Rightarrow> vault \<Rightarrow> bool" for start where
  later_refl: "vault_later start start"
| later_encrypt: "vault_later start vt \<Longrightarrow> encrypt A W en tenant run_id fld value vt = Inr (e, vt') \<Longrightarrow> vault_later start vt'"
| later_protect: "vault_later start vt \<Longrightarrow> protect_policy A W en tenant run_id policy vt = Inr (p, vt') \<Longrightarrow> vault_later start vt'"
| later_erase: "vault_later start vt \<Longrightarrow>
    erase_tenant_key i db_now now tenant prin dry_run confirm cutoff vt = Inr (b, vt') \<Longrightarrow> vault_later start vt'"
| later_other: "vault_later start vt \<Longrightarrow> vault_later start (vt\<lparr>vt_db := d, vt_audit := rows\<rparr>)"

lemma destroyed_dek: "destroyed tenant vt \<Longrightarrow> tenant_dek W en tenant create vt = Inl (KeyDestroyedError ''Tenant key has been destroyed'')"
  by (auto simp: destroyed_def tenant_dek_def key_row_def split: option.splits)

lemma tenant_dek_keeps:
  assumes "tenant_dek W en t create vt = Inr (key, vt')" "destroyed tenant vt"
  shows "destroyed tenant vt'"
proof -
  obtain row vt1 where k: "key_row W en t create vt = Inr (row, vt1)"
    and vt': "vt' = (if create then touch_key t (en_now en) vt1 else vt1)"
    using assms(1) by (auto simp: tenant_dek_def split: option.splits if_splits)
  have "destroyed tenant vt1"
    using k assms(2) by (auto simp: key_row_def destroyed_def get_key_def row_with_append Let_def split: option.splits if_splits)
  then show ?thesis
    by (auto simp: vt' destroyed_def get_key_touch split: option.splits)
qed

lemma encrypt_keeps: "encrypt A W en t run_id fld value vt = Inr (e, vt') \<Longrightarrow> destroyed tenant vt \<Longrightarrow> destroyed tenant vt'"
  by (auto simp: encrypt_def split: if_splits dest: tenant_dek_keeps)

lemma erase_keeps:
  assumes "erase_tenant_key i db_now now t prin dry_run confirm cutoff vt = Inr (b, vt')" "destroyed tenant vt"
  shows "destroyed tenant vt'"
  using assms by (auto simp: erase_tenant_key_def destroyed_def get_key_def row_with_rewrite split: option.splits if_splits)

lemma later_destroyed: "vault_later start vt \<Longrightarrow> destroyed tenant start \<Longrightarrow> destroyed tenant vt"
proof (induction rule: vault_later.induct)
  case (later_protect vt A W en t run_id policy p vt')
  then show ?case by (auto simp: protect_policy_def split: if_splits option.splits dest: encrypt_keeps)
qed (auto dest: encrypt_keeps erase_keeps simp: destroyed_def get_key_def)

section \<open>Properties\<close>

text \<open>
  C27. What is sealed for a tenant can be read back: if the tenant's key is live or does not exist yet, an
  encryption of any value without floats succeeds and decrypting its envelope, for the same tenant, run and field,
  gives the value. The cipher opens what it sealed, and the wrapper unwraps what it wrapped.
\<close>

theorem envelope_round_trip:
  assumes "aead_laws A" "wrapper_laws W" "key_usable W tenant vt" "plain value" "fld \<in> set ENCRYPTED_FIELDS"
    and "length (en_dek en) = 32" "length (en_wrap_nonce en) = 12" "length (en_nonce en) = 12"
    and "is_bytes (en_dek en)" "is_bytes (en_nonce en)"
  shows "\<exists>envelope vt'. encrypt A W en tenant run_id fld value vt = Inr (envelope, vt') \<and>
    decrypt A W en' tenant run_id fld envelope vt' = Inr value"
proof -
  obtain key vt' where k: "tenant_dek W en tenant True vt = Inr (key, vt')" "tenant_dek W en' tenant False vt' = Inr (key, vt')"
    using tenant_dek_create [OF assms(2,3,6,7,9)] by metis
  obtain aad where aad: "aad_of tenant run_id fld = Inr aad" using assms(5) by (simp add: aad_of_def)
  let ?c = "seal A key (en_nonce en) (utf8_encode (json_dump False True value)) aad"
  have "is_bytes (en_nonce en @ ?c)" using assms(1,10) utf8_encode_bytes [of "json_dump False True value"]
    by (auto simp: aead_laws_def is_bytes_def)
  then have "b64decode (b64encode (en_nonce en @ ?c)) = Inr (en_nonce en @ ?c)" by (rule b64decode_encode)
  moreover have "unseal A key (en_nonce en) ?c aad = Inr (utf8_encode (json_dump False True value))"
    using assms(1) utf8_encode_bytes by (simp add: aead_laws_def)
  ultimately show ?thesis
    using k aad assms(8) plain_finite [OF assms(4)] loads_bytes_dump [OF assms(4), of True]
    by (simp add: encrypt_def decrypt_def)
qed

text \<open>A cipher, a wrapping key and random bytes to apply the round trip to.\<close>

definition sample_aead :: aead where
  "sample_aead = \<lparr>seal = (\<lambda>k n d aad. d), unseal = (\<lambda>k n c aad. Inr c)\<rparr>"

definition sample_wrapper :: key_wrapper where
  "sample_wrapper = (case LocalKeyWrapper sample_aead (replicate 32 7) of Inr W \<Rightarrow> W | Inl _ \<Rightarrow> \<lparr>kw_wrap = (\<lambda>n d. d), kw_unwrap = Inr\<rparr>)"

definition sample_entropy :: entropy where
  "sample_entropy = \<lparr>en_now = 5, en_dek = replicate 32 1, en_wrap_nonce = replicate 12 2, en_nonce = replicate 12 3\<rparr>"

definition sample_vault :: vault where
  "sample_vault = \<lparr>vt_keys = [], vt_db = empty_db, vt_audit = []\<rparr>"

lemma sample_laws: "aead_laws sample_aead" "wrapper_laws sample_wrapper"
proof -
  show "aead_laws sample_aead" by (simp add: aead_laws_def sample_aead_def)
  then show "wrapper_laws sample_wrapper"
    using LocalKeyWrapper_laws [of sample_aead "replicate 32 7"] by (simp add: sample_wrapper_def LocalKeyWrapper_def)
qed

theorem envelope_round_trip_witness:
  "\<exists>envelope vt'. encrypt sample_aead sample_wrapper sample_entropy ''acme'' 9 ''result'' (JStr ''secret'') sample_vault = Inr (envelope, vt') \<and>
    decrypt sample_aead sample_wrapper sample_entropy ''acme'' 9 ''result'' envelope vt' = Inr (JStr ''secret'')"
  by (rule envelope_round_trip [OF sample_laws])
    (simp_all add: key_usable_def get_key_def sample_vault_def sample_entropy_def plain_str ENCRYPTED_FIELDS_def is_bytes_def list_all_iff)

text \<open>
  C28. Erasing a tenant's key is final and safe: it happens only on explicit confirmation and when no run of the
  tenant is unfinished or, with a horizon, finished after it; it leaves the runs and every other tenant's key alone;
  and whatever encryptions, erasures and runs follow, nothing is encrypted or decrypted for that tenant any more.
\<close>

theorem erasure_is_final:
  assumes "erase_tenant_key i db_now now tenant prin False confirm cutoff vt = Inr (True, vt')"
  shows "confirm = Some tenant \<and> \<not> list_ex (unsafe_run cutoff tenant) (runs (vt_db vt)) \<and> vt_db vt' = vt_db vt \<and>
    vt_audit vt' = vt_audit vt @ [erased_row i db_now tenant prin] \<and>
    (\<forall>other. other \<noteq> tenant \<longrightarrow> get_key other vt' = get_key other vt) \<and>
    (\<forall>vt''. vault_later vt' vt'' \<longrightarrow>
      encrypt A W en tenant run_id fld value vt'' = Inl (KeyDestroyedError ''Tenant key has been destroyed'') \<and>
      isl (decrypt A W en tenant run_id fld envelope vt''))"
proof -
  obtain row where row: "get_key tenant vt = Some row"
    and facts: "confirm = Some tenant" "\<not> list_ex (unsafe_run cutoff tenant) (runs (vt_db vt))"
    and vt': "vt' = vt\<lparr>vt_keys := rewrite (\<lambda>k. tk_tenant_id k = tenant)
        (\<lambda>k. k\<lparr>tk_wrapped_dek := None, tk_destroyed_at := Some now\<rparr>) (vt_keys vt),
      vt_audit := vt_audit vt @ [erased_row i db_now tenant prin]\<rparr>"
    using assms by (auto simp: erase_tenant_key_def split: option.splits if_splits)
  have keys: "get_key t vt' = map_option (\<lambda>k. if t = tenant then k\<lparr>tk_wrapped_dek := None, tk_destroyed_at := Some now\<rparr> else k) (get_key t vt)" for t
    unfolding vt' by (cases "get_key t vt") (auto simp: get_key_def row_with_rewrite dest: row_with_SomeD)
  then have "destroyed tenant vt'" using row by (simp add: destroyed_def)
  then have gone: "tenant_dek W en tenant create vt'' = Inl (KeyDestroyedError ''Tenant key has been destroyed'')"
    if "vault_later vt' vt''" for vt'' create using later_destroyed that destroyed_dek by blast
  have "get_key other vt' = get_key other vt" if "other \<noteq> tenant" for other using keys that by (cases "get_key other vt") simp_all
  then show ?thesis using facts gone by (auto simp: vt' encrypt_def decrypt_def)
qed

theorem erasure_is_final_witness:
  "\<exists>vt'. erase_tenant_key 1 7 8 ''acme'' ''ops'' False (Some ''acme'') (Some 6)
      (sample_vault\<lparr>vt_keys := [\<lparr>tk_tenant_id = ''acme'', tk_wrapped_dek = Some [], tk_last_encrypted_at = 5, tk_destroyed_at = None\<rparr>]\<rparr>) =
      Inr (True, vt') \<and>
    encrypt sample_aead sample_wrapper sample_entropy ''acme'' 9 ''result'' JNull vt' = Inl (KeyDestroyedError ''Tenant key has been destroyed'')"
proof -
  let ?vt = "sample_vault\<lparr>vt_keys := [\<lparr>tk_tenant_id = ''acme'', tk_wrapped_dek = Some [], tk_last_encrypted_at = 5, tk_destroyed_at = None\<rparr>]\<rparr>"
  obtain vt' where e: "erase_tenant_key 1 7 8 ''acme'' ''ops'' False (Some ''acme'') (Some 6) ?vt = Inr (True, vt')"
    by (simp add: erase_tenant_key_def get_key_def sample_vault_def empty_db_def)
  then show ?thesis using erasure_is_final [OF e] later_refl by blast
qed

text \<open>
  The preview and the erasure agree: a tenant the preview lists with a horizon would be erased under it.
\<close>

theorem candidates_can_be_erased:
  assumes "tenant \<in> set (retention_candidates cutoff limit vt)" "distinct (map tk_tenant_id (vt_keys vt))"
  shows "erase_tenant_key i db_now now tenant prin True confirm (Some cutoff) vt = Inr (True, vt)"
proof -
  obtain k where k: "k \<in> set (vt_keys vt)" "tk_tenant_id k = tenant" "tk_destroyed_at k = None" "tk_last_encrypted_at k \<le> cutoff"
    "\<not> list_ex (unsafe_run (Some cutoff) tenant) (runs (vt_db vt))"
    using assms(1) by (auto simp: retention_candidates_def dest!: in_set_takeD)
  have "get_key tenant vt = Some k" using k(1,2) assms(2) by (auto simp: get_key_def row_with_distinct)
  then show ?thesis using k by (simp add: erase_tenant_key_def)
qed

end
