(* ===== verification/Authentication.thy ===== *)
theory Authentication
  imports Py_Bytes Py_Time
begin

text \<open>
  \<open>security/credentials.py\<close>, the registry checks of \<open>settings.py\<close> and \<open>security/authentication.py\<close>: issued API
  keys, their registry records and the verification of a request's key. The random tokens of \<open>secrets\<close> and the
  readings of the clock are arguments, and so is the parser of the registry text (pydantic). \<open>hmac.compare_digest\<close>
  compares ASCII strings and refuses others.
\<close>

section \<open>Credentials\<close>

definition HMAC_SCHEME :: string where "HMAC_SCHEME = ''hmac-sha256-v1''"
definition PBKDF2_SCHEME :: string where "PBKDF2_SCHEME = ''pbkdf2-sha256-v1''"
definition SUPPORTED_SCHEMES :: "string list" where "SUPPORTED_SCHEMES = [HMAC_SCHEME, PBKDF2_SCHEME]"
definition DEFAULT_SCHEME :: string where "DEFAULT_SCHEME = HMAC_SCHEME"
definition KDF_ITERATIONS :: nat where "KDF_ITERATIONS = 600000"

record credential =
  cr_key_id :: string
  cr_principal_id :: string
  cr_tenant_id :: string
  cr_scheme :: string
  cr_salt :: string
  cr_verifier :: string
  cr_enabled :: bool
  cr_expires_at :: "time option"

text \<open>The pattern \<open>^[0-9a-f]{32}$\<close> and the client identifiers \<open>[A-Za-z0-9][A-Za-z0-9._:-]{0,127}\<close>.\<close>

definition is_token_hex :: "string \<Rightarrow> bool" where
  "is_token_hex s \<longleftrightarrow> length s = 32 \<and> list_all is_lower_hex s"

definition is_client_id :: "string \<Rightarrow> bool" where
  "is_client_id s = (case s of
     [] \<Rightarrow> False
   | c # cs \<Rightarrow> is_ascii_alnum c \<and> length cs \<le> 127 \<and> list_all (\<lambda>d. is_ascii_alnum d \<or> d \<in> set ''._:-'') cs)"

definition valid_record :: "credential \<Rightarrow> bool" where
  "valid_record r \<longleftrightarrow> is_token_hex (cr_key_id r) \<and> is_client_id (cr_principal_id r) \<and> is_client_id (cr_tenant_id r) \<and>
     cr_scheme r \<in> set SUPPORTED_SCHEMES \<and> is_token_hex (cr_salt r)"

definition CredentialRecord :: "credential \<Rightarrow> credential res" where
  "CredentialRecord r = (if valid_record r then Inr r else Inl (ValueError ''ValidationError''))"

definition is_active_credential :: "time \<Rightarrow> credential \<Rightarrow> bool" where
  "is_active_credential now r \<longleftrightarrow> cr_enabled r \<and> (case cr_expires_at r of None \<Rightarrow> True | Some t \<Rightarrow> now < t)"

definition derive_verifier :: "string \<Rightarrow> string \<Rightarrow> string \<Rightarrow> string \<Rightarrow> string res" where
  "derive_verifier raw_key salt pepper scheme =
     (if scheme = HMAC_SCHEME then
        res_bind (fromhex salt) (\<lambda>sb. Inr (hex_of (hmac_sha256 (utf8_encode pepper)
          (utf8_encode ''arr-credential-hmac-v1'' @ [0] @ sb @ [0] @ utf8_encode raw_key))))
      else if scheme = PBKDF2_SCHEME then
        res_bind (fromhex salt) (\<lambda>sb. Inr (hex_of (pbkdf2_sha256
          (hmac_sha256 (utf8_encode pepper) (utf8_encode ''arr-credential-v1'' @ [0] @ utf8_encode raw_key)) sb KDF_ITERATIONS)))
      else Inl (ValueError (''Unsupported credential scheme: '' @ scheme)))"

definition issue_credential ::
  "string \<Rightarrow> string \<Rightarrow> string \<Rightarrow> string \<Rightarrow> string \<Rightarrow> string \<Rightarrow> time option \<Rightarrow> (string \<times> credential) res" where
  "issue_credential key_id secret salt prin tenant pepper expires_at =
     (if length pepper < 32 then Inl (ValueError ''Credential pepper must contain at least 32 characters'')
      else let raw_key = ''arr_'' @ key_id @ ''.'' @ secret in
        res_bind (derive_verifier raw_key salt pepper DEFAULT_SCHEME) (\<lambda>v.
        res_bind (CredentialRecord \<lparr>cr_key_id = key_id, cr_principal_id = prin, cr_tenant_id = tenant,
            cr_scheme = DEFAULT_SCHEME, cr_salt = salt, cr_verifier = v, cr_enabled = True, cr_expires_at = expires_at\<rparr>) (\<lambda>r.
          Inr (raw_key, r))))"

section \<open>Authentication\<close>

record auth_settings =
  auth_mode :: string
  auth_credentials :: "credential list"
  auth_pepper :: "string option"

text \<open>
  What \<open>Settings.model_post_init\<close> reads: the deployment, the registry text and the schemes of the two internal
  links. The parser of the registry is the argument \<open>validate_json\<close>.
\<close>

record settings_source =
  ss_environment :: string
  ss_auth_mode :: string
  ss_auth_credentials :: "string option"
  ss_auth_pepper :: "string option"
  ss_retry_base_delay :: rat
  ss_retry_max_backoff :: rat
  ss_redis_scheme :: string
  ss_rabbitmq_scheme :: string
  ss_allow_plaintext :: bool

definition enforce_transport_encryption :: "settings_source \<Rightarrow> unit res" where
  "enforce_transport_encryption src =
     (if ss_environment src \<notin> {''staging'', ''production''} \<or> ss_allow_plaintext src then Inr ()
      else let insecure = (if ss_redis_scheme src \<noteq> ''rediss'' then [''redis_url''] else []) @
                          (if ss_rabbitmq_scheme src \<noteq> ''amqps'' then [''rabbitmq_url''] else [])
           in guard_that (insecure = []) (ValueError (ss_environment src @ '' requires TLS for '' @ join '', '' insecure @
             ''; use rediss:// and amqps://, or set allow_plaintext_transport'')))"

fun check_registry :: "(string \<times> string) list \<Rightarrow> string list \<Rightarrow> credential list \<Rightarrow> unit res" where
  "check_registry identities key_ids [] = Inr ()"
| "check_registry identities key_ids (r # rs) =
     (if cr_key_id r \<in> set key_ids then Inl (ValueError ''Duplicate credential key_id'')
      else if length (cr_verifier r) \<noteq> 64 \<or> \<not> list_all is_lower_hex (cr_verifier r) then Inl (ValueError ''Invalid credential verifier'')
      else let bound = (case map_of identities (cr_principal_id r) of Some t \<Rightarrow> t | None \<Rightarrow> cr_tenant_id r)
        in if bound \<noteq> cr_tenant_id r then Inl (ValueError ''A principal must be bound to exactly one tenant'')
           else check_registry (if cr_principal_id r \<in> fst ` set identities then identities
             else (cr_principal_id r, cr_tenant_id r) # identities) (cr_key_id r # key_ids) rs)"

definition model_post_init :: "(string \<Rightarrow> credential list res) \<Rightarrow> time \<Rightarrow> settings_source \<Rightarrow> auth_settings res" where
  "model_post_init validate_json now src =
     (if ss_retry_max_backoff src < ss_retry_base_delay src
      then Inl (ValueError ''retry_max_backoff_seconds must be at least retry_base_delay_seconds'')
      else if ss_auth_mode src = ''disabled'' then
        if ss_environment src \<noteq> ''local'' then Inl (ValueError ''disabled auth requires explicit environment=local'')
        else Inr \<lparr>auth_mode = ss_auth_mode src, auth_credentials = [], auth_pepper = ss_auth_pepper src\<rparr>
      else (case (ss_auth_credentials src, ss_auth_pepper src) of
        (Some registry, Some pepper) \<Rightarrow>
          if length pepper < 32 then Inl (ValueError ''auth_pepper must contain at least 32 characters'')
          else (case validate_json registry of
            Inl e \<Rightarrow> if is_ValueError e then Inl (ValueError ''auth_credentials must be a valid credential registry'') else Inl e
          | Inr credentials \<Rightarrow>
              if \<not> list_ex (is_active_credential now) credentials
              then Inl (ValueError ''auth_credentials must contain an active credential'')
              else res_bind (check_registry [] [] credentials) (\<lambda>_.
                   res_bind (enforce_transport_encryption src) (\<lambda>_.
                     Inr \<lparr>auth_mode = ss_auth_mode src, auth_credentials = credentials, auth_pepper = Some pepper\<rparr>)))
      | _ \<Rightarrow> Inl (ValueError ''auth_credentials and auth_pepper are required in api_key mode'')))"

record auth_result =
  ar_authenticated :: bool
  ar_fingerprint :: "string option"
  ar_failure_code :: "string option"
  ar_principal_id :: "string option"
  ar_tenant_id :: "string option"

definition auth_failure :: "string \<Rightarrow> auth_result" where
  "auth_failure why = \<lparr>ar_authenticated = False, ar_fingerprint = None, ar_failure_code = Some why,
     ar_principal_id = None, ar_tenant_id = None\<rparr>"

definition grant :: "string \<Rightarrow> credential \<Rightarrow> auth_result" where
  "grant fp r = \<lparr>ar_authenticated = True, ar_fingerprint = Some fp, ar_failure_code = None,
     ar_principal_id = Some (cr_principal_id r), ar_tenant_id = Some (cr_tenant_id r)\<rparr>"

definition extract_raw_key :: "string option \<Rightarrow> string option \<Rightarrow> string option" where
  "extract_raw_key x_api_key authorization = (case x_api_key of
     Some k \<Rightarrow> if strip k = [] then None else Some (strip k)
   | None \<Rightarrow> (case authorization of
       None \<Rightarrow> None
     | Some a \<Rightarrow> (case partition_at (CHR '' '') a of (scheme, _, credential) \<Rightarrow>
         if lower scheme \<noteq> ''bearer'' \<or> strip credential = [] then None else Some (strip credential))))"

text \<open>\<open>re.fullmatch(KEY_PATTERN, raw_key)\<close> and its first group.\<close>

definition is_url_char :: "char \<Rightarrow> bool" where
  "is_url_char c \<longleftrightarrow> is_ascii_alnum c \<or> c = CHR ''_'' \<or> c = CHR ''-''"

definition key_id_of :: "string \<Rightarrow> string option" where
  "key_id_of raw =
     (if take 4 raw = ''arr_'' \<and> list_all is_lower_hex (take 32 (drop 4 raw)) \<and> take 1 (drop 36 raw) = ''.'' \<and>
         length raw = 80 \<and> list_all is_url_char (drop 37 raw)
      then Some (take 32 (drop 4 raw)) else None)"

definition compare_digest :: "string \<Rightarrow> string \<Rightarrow> bool res" where
  "compare_digest a b =
     (if list_all (\<lambda>c. code c < 128) a \<and> list_all (\<lambda>c. code c < 128) b then Inr (a = b)
      else Inl (TypeError ''comparing strings with non-ASCII characters is not supported''))"

definition fingerprint :: "credential \<Rightarrow> string" where
  "fingerprint r = take 16 (sha256_hexdigest (utf8_encode (''arr-audit-v1:'' @ cr_key_id r)))"

definition verify_credential :: "auth_settings \<Rightarrow> time \<Rightarrow> string \<Rightarrow> auth_result res" where
  "verify_credential st now raw_key = (case key_id_of raw_key of
     None \<Rightarrow> Inr (auth_failure ''INVALID_CREDENTIAL'')
   | Some kid \<Rightarrow> (case row_with cr_key_id kid (auth_credentials st) of
       None \<Rightarrow> Inr (auth_failure ''INVALID_CREDENTIAL'')
     | Some r \<Rightarrow>
         if \<not> is_active_credential now r then Inr (auth_failure ''INVALID_CREDENTIAL'')
         else (case auth_pepper st of
           None \<Rightarrow> Inl (RuntimeError ''API-key authentication has no credential pepper'')
         | Some pepper \<Rightarrow>
             res_bind (derive_verifier raw_key (cr_salt r) pepper (cr_scheme r)) (\<lambda>v.
             res_bind (compare_digest v (cr_verifier r)) (\<lambda>same.
               if \<not> same then Inr (auth_failure ''INVALID_CREDENTIAL'')
               else Inr (grant (fingerprint r) r))))))"

definition authenticate_api_key :: "auth_settings \<Rightarrow> time \<Rightarrow> string option \<Rightarrow> string option \<Rightarrow> auth_result res" where
  "authenticate_api_key st now x_api_key authorization =
     (if auth_mode st = ''disabled'' then Inr \<lparr>ar_authenticated = True, ar_fingerprint = None, ar_failure_code = None,
        ar_principal_id = None, ar_tenant_id = None\<rparr>
      else (case extract_raw_key x_api_key authorization of
        None \<Rightarrow> Inr (auth_failure ''AUTHENTICATION_REQUIRED'')
      | Some raw_key \<Rightarrow> verify_credential st now raw_key))"

section \<open>Keys pass through headers unchanged\<close>

lemma strip_no_space:
  assumes "list_all (\<lambda>c. \<not> is_space c) s"
  shows "strip s = s"
proof -
  have "dropWhile is_space t = t" if "list_all (\<lambda>c. \<not> is_space c) t" for t using that by (cases t) simp_all
  then show ?thesis using assms by (simp add: strip_def lstrip_def rstrip_def)
qed

lemma url_char_not_space: "is_url_char c \<Longrightarrow> \<not> is_space c"
  by (auto simp: is_url_char_def is_ascii_alnum_def is_ascii_digit_def is_ascii_lower_def is_space_def Let_def code_def)

lemma lower_hex_not_space: "is_lower_hex c \<Longrightarrow> \<not> is_space c"
  by (auto simp: is_lower_hex_def is_ascii_digit_def is_space_def Let_def)

lemma issued_key:
  assumes "is_token_hex key_id" "length secret = 43" "list_all is_url_char secret"
  shows "key_id_of (''arr_'' @ key_id @ ''.'' @ secret) = Some key_id"
    "strip (''arr_'' @ key_id @ ''.'' @ secret) = ''arr_'' @ key_id @ ''.'' @ secret"
proof -
  show "key_id_of (''arr_'' @ key_id @ ''.'' @ secret) = Some key_id"
    using assms by (simp add: key_id_of_def is_token_hex_def)
  have "list_all (\<lambda>c. \<not> is_space c) key_id" "list_all (\<lambda>c. \<not> is_space c) secret"
    using assms url_char_not_space lower_hex_not_space by (auto simp: is_token_hex_def list_all_iff)
  then show "strip (''arr_'' @ key_id @ ''.'' @ secret) = ''arr_'' @ key_id @ ''.'' @ secret"
    by (intro strip_no_space) (auto simp: is_space_def code_def Let_def)
qed

lemma bearer_header: "strip raw = raw \<Longrightarrow> raw \<noteq> [] \<Longrightarrow> extract_raw_key None (Some (''Bearer '' @ raw)) = Some raw"
proof -
  assume raw: "strip raw = raw" "raw \<noteq> []"
  have "lower ''Bearer'' = ''bearer''" by code_simp
  then show ?thesis using raw by (simp add: extract_raw_key_def)
qed

lemma lower_hex_ascii: "is_hex c \<Longrightarrow> code c < 128"
  by (auto dest: is_hex_code)

lemma derived_ascii: "derive_verifier raw salt pepper scheme = Inr v \<Longrightarrow> list_all (\<lambda>c. code c < 128) v"
  by (auto simp: derive_verifier_def list_all_iff dest!: hex_of_is_hex lower_hex_ascii split: if_splits)

section \<open>Accepted registries\<close>

definition bind_principal :: "credential \<Rightarrow> (string \<times> string) list \<Rightarrow> (string \<times> string) list" where
  "bind_principal r identities = (if cr_principal_id r \<in> fst ` set identities then identities
     else (cr_principal_id r, cr_tenant_id r) # identities)"

lemma check_registry_step:
  assumes "check_registry identities key_ids (r # rs) = Inr u"
  shows "cr_key_id r \<notin> set key_ids \<and> list_all is_lower_hex (cr_verifier r) \<and>
    map_of (bind_principal r identities) (cr_principal_id r) = Some (cr_tenant_id r) \<and>
    check_registry (bind_principal r identities) (cr_key_id r # key_ids) rs = Inr u"
proof (cases "map_of identities (cr_principal_id r)")
  case None
  then have "cr_principal_id r \<notin> fst ` set identities" by (simp add: map_of_eq_None_iff)
  then show ?thesis using assms None by (simp add: bind_principal_def split: if_splits)
next
  case (Some t)
  then have "cr_principal_id r \<in> fst ` set identities" by (metis map_of_eq_None_iff option.distinct(1))
  then show ?thesis using assms Some by (simp add: bind_principal_def split: if_splits)
qed

lemma check_registry_keys:
  "check_registry identities key_ids rs = Inr u \<Longrightarrow>
    distinct (map cr_key_id rs) \<and> set (map cr_key_id rs) \<inter> set key_ids = {} \<and> list_all (\<lambda>r. list_all is_lower_hex (cr_verifier r)) rs"
proof (induction rs arbitrary: identities key_ids)
  case (Cons r rs)
  note step = check_registry_step [OF Cons.prems]
  have "distinct (map cr_key_id rs) \<and> set (map cr_key_id rs) \<inter> set (cr_key_id r # key_ids) = {} \<and>
    list_all (\<lambda>r. list_all is_lower_hex (cr_verifier r)) rs"
    using Cons.IH step by blast
  then show ?case using step by auto
qed simp

lemma bind_principal_keeps: "map_of identities p = Some t \<Longrightarrow> map_of (bind_principal r identities) p = Some t"
proof -
  assume p: "map_of identities p = Some t"
  then have "p \<in> fst ` set identities" by (metis map_of_eq_None_iff option.distinct(1))
  then show ?thesis using p by (cases "cr_principal_id r = p") (simp_all add: bind_principal_def)
qed

lemma check_registry_bound:
  "check_registry identities key_ids rs = Inr u \<Longrightarrow> r \<in> set rs \<Longrightarrow>
    map_of identities (cr_principal_id r) = Some t \<Longrightarrow> cr_tenant_id r = t"
proof (induction rs arbitrary: identities key_ids)
  case (Cons r' rs)
  note step = check_registry_step [OF Cons.prems(1)]
  have kept: "map_of (bind_principal r' identities) (cr_principal_id r) = Some t"
    using Cons.prems(3) by (rule bind_principal_keeps)
  show ?case
  proof (cases "r = r'")
    case True
    then show ?thesis using step kept by simp
  next
    case False
    then show ?thesis using Cons.IH step kept Cons.prems(2) by (metis set_ConsD)
  qed
qed simp

lemma check_registry_tenants:
  "check_registry identities key_ids rs = Inr u \<Longrightarrow> r \<in> set rs \<Longrightarrow> r' \<in> set rs \<Longrightarrow>
    cr_principal_id r' = cr_principal_id r \<Longrightarrow> cr_tenant_id r' = cr_tenant_id r"
proof (induction rs arbitrary: identities key_ids)
  case (Cons r0 rs)
  note step = check_registry_step [OF Cons.prems(1)]
  have first: "cr_tenant_id x = cr_tenant_id r0" if "x \<in> set rs" "cr_principal_id x = cr_principal_id r0" for x
    using check_registry_bound step that by metis
  show ?case
  proof (cases "r = r0 \<or> r' = r0")
    case True
    then show ?thesis using first Cons.prems(2-4) by (metis set_ConsD)
  next
    case False
    then show ?thesis using Cons.IH step Cons.prems(2-4) by (metis set_ConsD)
  qed
qed simp

lemma accepted_settings:
  assumes "model_post_init validate_json now src = Inr st" "auth_mode st \<noteq> ''disabled''"
  shows "\<exists>registry pepper. ss_auth_pepper src = Some pepper \<and> ss_auth_credentials src = Some registry \<and> validate_json registry = Inr (auth_credentials st) \<and>
    auth_pepper st = Some pepper \<and> 32 \<le> length pepper \<and> check_registry [] [] (auth_credentials st) = Inr ()"
  using assms by (auto simp: model_post_init_def split: if_splits option.splits sum.splits)

lemma fromhex_even:
  "list_all is_lower_hex s \<Longrightarrow> even (length s) \<Longrightarrow> \<exists>bs. fromhex s = Inr bs"
proof (induction s rule: fromhex.induct)
  case (3 c d s)
  have "\<exists>x. hex_value e = Some x" if "is_lower_hex e" for e
    using that by (auto simp: is_lower_hex_def is_ascii_digit_def hex_value_def Let_def)
  then obtain x y where "hex_value c = Some x" "hex_value d = Some y" using "3.prems" by fastforce
  moreover have "\<exists>bs. fromhex s = Inr bs" using 3 calculation by simp
  ultimately show ?case by auto
qed simp_all

lemma derive_verifier_total: "valid_record r \<Longrightarrow> \<exists>v. derive_verifier raw (cr_salt r) pepper (cr_scheme r) = Inr v"
  using fromhex_even [of "cr_salt r"]
  by (auto simp: valid_record_def is_token_hex_def SUPPORTED_SCHEMES_def derive_verifier_def)

lemma lower_hex_code: "is_lower_hex c \<Longrightarrow> code c < 128"
  by (auto simp: is_lower_hex_def is_ascii_digit_def)

text \<open>What an accepted registry gives its users: one record per key, and one tenant per principal.\<close>

lemma accepted_registry:
  assumes "model_post_init validate_json now src = Inr st" "r \<in> set (auth_credentials st)" "auth_mode st \<noteq> ''disabled''"
  shows "row_with cr_key_id (cr_key_id r) (auth_credentials st) = Some r"
    and "list_all (\<lambda>c. code c < 128) (cr_verifier r)"
    and "\<forall>r' \<in> set (auth_credentials st). cr_principal_id r' = cr_principal_id r \<longrightarrow> cr_tenant_id r' = cr_tenant_id r"
proof -
  have ok: "check_registry [] [] (auth_credentials st) = Inr ()" using accepted_settings [OF assms(1,3)] by blast
  note sound = check_registry_keys [OF ok]
  show "row_with cr_key_id (cr_key_id r) (auth_credentials st) = Some r"
    using sound assms(2) by (simp add: row_with_distinct)
  show "list_all (\<lambda>c. code c < 128) (cr_verifier r)"
    using sound assms(2) lower_hex_code by (auto simp: list_all_iff)
  show "\<forall>r' \<in> set (auth_credentials st). cr_principal_id r' = cr_principal_id r \<longrightarrow> cr_tenant_id r' = cr_tenant_id r"
    using check_registry_tenants [OF ok assms(2)] by blast
qed

text \<open>The outcomes of a verification.\<close>

lemma verify_credential_cases:
  assumes "verify_credential st now raw = Inr res"
  obtains "res = auth_failure ''INVALID_CREDENTIAL''"
  | r where "r \<in> set (auth_credentials st)" "is_active_credential now r"
      "res = grant (fingerprint r) r"
  using assms by (auto simp: verify_credential_def split: option.splits if_splits dest: row_with_SomeD)

lemma verify_credential_total:
  assumes "model_post_init validate_json t0 src = Inr st" "auth_mode st \<noteq> ''disabled''"
    and "list_all valid_record (auth_credentials st)"
  shows "\<exists>res. verify_credential st now raw = Inr res"
proof (cases "key_id_of raw")
  case (Some kid)
  show ?thesis
  proof (cases "row_with cr_key_id kid (auth_credentials st)")
    case (Some r)
    then have r: "r \<in> set (auth_credentials st)" by (auto dest: row_with_SomeD)
    obtain pepper where p: "auth_pepper st = Some pepper" using accepted_settings [OF assms(1,2)] by blast
    have "valid_record r" using assms(3) r by (simp add: list_all_iff)
    then obtain v where v: "derive_verifier raw (cr_salt r) pepper (cr_scheme r) = Inr v"
      using derive_verifier_total by blast
    then show ?thesis
      using Some \<open>key_id_of raw = Some kid\<close> p derived_ascii [OF v] accepted_registry(2) [OF assms(1) r assms(2)]
      by (simp add: verify_credential_def compare_digest_def)
  qed (use Some in \<open>simp add: verify_credential_def\<close>)
qed (simp add: verify_credential_def)

section \<open>Properties\<close>

text \<open>
  C22. An issued key authenticates its owner: presented in either header to a process whose accepted settings
  register its record, while the record is enabled and has not expired, it yields the principal and the tenant it
  was issued for.
\<close>

theorem issued_key_authenticates:
  assumes "issue_credential key_id secret salt prin tenant pepper expires_at = Inr (raw, r)"
    and "is_token_hex key_id" "length secret = 43" "list_all is_url_char secret"
    and "model_post_init validate_json t0 src = Inr st" "ss_auth_pepper src = Some pepper"
    and "auth_mode st \<noteq> ''disabled''" "r \<in> set (auth_credentials st)" "is_active_credential now r"
  shows "\<exists>res. ar_authenticated res \<and> ar_principal_id res = Some prin \<and> ar_tenant_id res = Some tenant \<and>
    authenticate_api_key st now (Some raw) authorization = Inr res \<and>
    authenticate_api_key st now None (Some (''Bearer '' @ raw)) = Inr res"
proof -
  have raw: "raw = ''arr_'' @ key_id @ ''.'' @ secret" and rec: "cr_principal_id r = prin" "cr_tenant_id r = tenant"
    "cr_scheme r = DEFAULT_SCHEME" "cr_salt r = salt" "derive_verifier raw salt pepper DEFAULT_SCHEME = Inr (cr_verifier r)"
    and kid: "cr_key_id r = key_id"
    using assms(1) by (auto simp: issue_credential_def CredentialRecord_def Let_def split: if_splits)
  have key: "key_id_of raw = Some key_id" "strip raw = raw" "raw \<noteq> []"
    using issued_key [OF assms(2-4)] raw by simp_all
  let ?res = "\<lparr>ar_authenticated = True, ar_fingerprint = Some (fingerprint r), ar_failure_code = None,
    ar_principal_id = Some prin, ar_tenant_id = Some tenant\<rparr>"
  have "auth_pepper st = Some pepper" using accepted_settings [OF assms(5,7)] assms(6) by auto
  moreover have "row_with cr_key_id key_id (auth_credentials st) = Some r"
    using accepted_registry(1) [OF assms(5,8,7)] kid by simp
  ultimately have "verify_credential st now raw = Inr ?res"
    using key(1) assms(9) rec derived_ascii [OF rec(5)] by (simp add: verify_credential_def compare_digest_def grant_def)
  then have "authenticate_api_key st now (Some raw) authorization = Inr ?res"
    "authenticate_api_key st now None (Some (''Bearer '' @ raw)) = Inr ?res"
    using assms(7) bearer_header [OF key(2,3)] key(2,3) by (simp_all add: authenticate_api_key_def extract_raw_key_def)
  then show ?thesis by (intro exI [of _ ?res]) simp
qed

definition sample_key_id :: string where
  "sample_key_id = replicate 32 (CHR ''a'')"

definition sample_secret :: string where
  "sample_secret = replicate 43 (CHR ''Z'')"

definition sample_pepper :: string where
  "sample_pepper = replicate 40 (CHR ''p'')"

definition sample_source :: settings_source where
  "sample_source = \<lparr>ss_environment = ''production'', ss_auth_mode = ''api_key'', ss_auth_credentials = Some ''registry'',
     ss_auth_pepper = Some sample_pepper, ss_retry_base_delay = 1, ss_retry_max_backoff = 60,
     ss_redis_scheme = ''rediss'', ss_rabbitmq_scheme = ''amqps'', ss_allow_plaintext = False\<rparr>"

lemma derived_shape:
  assumes "derive_verifier raw salt pepper DEFAULT_SCHEME = Inr v"
  shows "length v = 64 \<and> list_all is_lower_hex v"
  using assms by (auto simp: derive_verifier_def DEFAULT_SCHEME_def hmac_sha256_def Let_def length_hex_of hex_of_is_lower)

lemma sample_accepted:
  assumes "issue_credential sample_key_id sample_secret sample_key_id ''alice'' ''acme'' sample_pepper None = Inr (raw, r)"
  shows "model_post_init (\<lambda>_. Inr [r]) 0 sample_source =
    Inr \<lparr>auth_mode = ''api_key'', auth_credentials = [r], auth_pepper = Some sample_pepper\<rparr>"
proof -
  have "cr_enabled r" "cr_expires_at r = None" "length (cr_verifier r) = 64" "list_all is_lower_hex (cr_verifier r)"
    using assms by (auto simp: issue_credential_def CredentialRecord_def Let_def split: if_splits dest!: derived_shape)
  moreover have "\<not> length sample_pepper < 32" by code_simp
  ultimately show ?thesis
    by (simp add: model_post_init_def sample_source_def is_active_credential_def enforce_transport_encryption_def)
qed

theorem issued_key_authenticates_witness:
  "\<exists>raw r res. issue_credential sample_key_id sample_secret sample_key_id ''alice'' ''acme'' sample_pepper None = Inr (raw, r) \<and>
    authenticate_api_key \<lparr>auth_mode = ''api_key'', auth_credentials = [r], auth_pepper = Some sample_pepper\<rparr> 0 (Some raw) None = Inr res \<and>
    ar_principal_id res = Some ''alice''"
proof -
  have t: "is_token_hex sample_key_id" "length sample_secret = 43" "list_all is_url_char sample_secret" by code_simp+
  have c: "is_client_id ''alice''" "is_client_id ''acme''" "\<not> length sample_pepper < 32" by code_simp+
  have "\<not> isl (fromhex sample_key_id)" by code_simp
  then obtain bs where "fromhex sample_key_id = Inr bs" by (cases "fromhex sample_key_id") simp_all
  then obtain v where v: "derive_verifier (''arr_'' @ sample_key_id @ ''.'' @ sample_secret) sample_key_id sample_pepper DEFAULT_SCHEME = Inr v"
    by (auto simp: derive_verifier_def DEFAULT_SCHEME_def)
  obtain raw r where i: "issue_credential sample_key_id sample_secret sample_key_id ''alice'' ''acme'' sample_pepper None = Inr (raw, r)"
    using t c v by (auto simp: issue_credential_def CredentialRecord_def valid_record_def SUPPORTED_SCHEMES_def Let_def DEFAULT_SCHEME_def)
  have "is_active_credential 0 r"
    using i by (auto simp: is_active_credential_def issue_credential_def CredentialRecord_def Let_def split: if_splits)
  then show ?thesis
    using issued_key_authenticates [OF i t sample_accepted [OF i], of 0 None] i by (auto simp: sample_source_def)
qed

text \<open>
  C23. Under accepted settings authentication always answers, and the answer is well formed: access is granted
  without a failure code, or refused with one of the two documented codes and no identity at all; outside the disabled
  mode a granted identity is that of an active registered record, the only tenant its principal is registered
  with, and its fingerprint has sixteen characters. The registry parser returns records that pass their field checks.
\<close>

theorem authentication_answers:
  assumes "model_post_init validate_json t0 src = Inr st"
    and "\<And>registry rs. validate_json registry = Inr rs \<Longrightarrow> list_all valid_record rs"
  shows "\<exists>res. authenticate_api_key st now x_api_key authorization = Inr res \<and>
    (if ar_authenticated res
     then ar_failure_code res = None \<and> (auth_mode st = ''disabled'' \<or>
       (\<exists>r \<in> set (auth_credentials st). is_active_credential now r \<and> ar_principal_id res = Some (cr_principal_id r) \<and>
         ar_tenant_id res = Some (cr_tenant_id r) \<and> ar_fingerprint res = Some (fingerprint r) \<and> length (fingerprint r) = 16 \<and>
         (\<forall>r' \<in> set (auth_credentials st). cr_principal_id r' = cr_principal_id r \<longrightarrow> cr_tenant_id r' = cr_tenant_id r)))
     else ar_failure_code res \<in> {Some ''AUTHENTICATION_REQUIRED'', Some ''INVALID_CREDENTIAL''} \<and>
       ar_principal_id res = None \<and> ar_tenant_id res = None \<and> ar_fingerprint res = None)"
proof (cases "auth_mode st = ''disabled'' \<or> extract_raw_key x_api_key authorization = None")
  case True
  then show ?thesis by (cases "auth_mode st = ''disabled''") (simp_all add: authenticate_api_key_def auth_failure_def)
next
  case False
  then obtain raw where api: "auth_mode st \<noteq> ''disabled''" and raw: "extract_raw_key x_api_key authorization = Some raw" by auto
  have "list_all valid_record (auth_credentials st)" using accepted_settings [OF assms(1) api] assms(2) by blast
  then obtain res where v: "verify_credential st now raw = Inr res" using verify_credential_total [OF assms(1) api] by blast
  then have auth: "authenticate_api_key st now x_api_key authorization = Inr res"
    using api raw by (simp add: authenticate_api_key_def)
  have len: "length (fingerprint r) = 16" for r by (simp add: fingerprint_def length_hexdigest)
  from v show ?thesis
  proof (cases rule: verify_credential_cases)
    case 1
    then show ?thesis using auth by (simp add: auth_failure_def)
  next
    case (2 r)
    have "ar_principal_id res = Some (cr_principal_id r)" "ar_tenant_id res = Some (cr_tenant_id r)"
      "ar_fingerprint res = Some (fingerprint r)" "ar_authenticated res" "ar_failure_code res = None"
      using 2(3) by (simp_all add: grant_def)
    then show ?thesis using auth 2(1,2) len [of r] accepted_registry(3) [OF assms(1) 2(1) api] by metis
  qed
qed

definition sample_record :: credential where
  "sample_record = \<lparr>cr_key_id = sample_key_id, cr_principal_id = ''alice'', cr_tenant_id = ''acme'', cr_scheme = HMAC_SCHEME,
     cr_salt = sample_key_id, cr_verifier = replicate 64 (CHR ''0''), cr_enabled = True, cr_expires_at = None\<rparr>"

theorem authentication_answers_witness:
  "\<exists>res. authenticate_api_key \<lparr>auth_mode = ''api_key'', auth_credentials = [sample_record], auth_pepper = Some sample_pepper\<rparr>
      0 (Some ''guess'') None = Inr res \<and> ar_failure_code res = Some ''INVALID_CREDENTIAL'' \<and> ar_principal_id res = None"
proof -
  let ?st = "\<lparr>auth_mode = ''api_key'', auth_credentials = [sample_record], auth_pepper = Some sample_pepper\<rparr>"
  have "model_post_init (\<lambda>_. Inr [sample_record]) 0 sample_source = Inr ?st" by code_simp
  moreover have "list_all valid_record [sample_record]" by code_simp
  ultimately obtain res where res: "authenticate_api_key ?st 0 (Some ''guess'') None = Inr res"
    using authentication_answers [of "\<lambda>_. Inr [sample_record]" 0 sample_source ?st 0 "Some ''guess''" None] by auto
  moreover have "authenticate_api_key ?st 0 (Some ''guess'') None = Inr (auth_failure ''INVALID_CREDENTIAL'')" by code_simp
  ultimately show ?thesis by (auto simp: auth_failure_def)
qed

end
