(* ===== verification/Api_Handlers.thy ===== *)
theory Api_Handlers
  imports Run_Reads Regression Authentication
begin

text \<open>
  The route handlers of \<open>api/main.py\<close> over the run service, and the responses of \<open>api/schemas.py\<close>. FastAPI's
  routing and the parsing of request bodies are third-party code: a request is modelled from the point where its
  handler is called with the parsed values, or where the framework answers itself.
\<close>

section \<open>Settings, errors and responses\<close>

record api_settings =
  ap_auth :: auth_settings
  ap_quotas :: quota_limits
  ap_policy :: policy_limits
  ap_job_timeout :: rat
  ap_openai_key :: bool
  ap_max_cases :: int
  ap_call_budget :: int
  ap_rate_limit :: int
  ap_rate_window :: int
  ap_fail_open :: bool

text \<open>What a handler may raise: an \<open>ApiProblem\<close>, or an exception of the services.\<close>

datatype api_exn = ApiProblem int string string | Raised exn

type_synonym 'a api = "api_exn + 'a"

fun api_bind :: "'a api \<Rightarrow> ('a \<Rightarrow> 'b api) \<Rightarrow> 'b api" where
  "api_bind (Inl e) f = Inl e"
| "api_bind (Inr x) f = f x"

fun lift_res :: "'a res \<Rightarrow> 'a api" where
  "lift_res (Inl e) = Inl (Raised e)"
| "lift_res (Inr x) = Inr x"

text \<open>\<open>str(exc)\<close> of the exceptions the handlers translate.\<close>

fun exn_text :: "exn \<Rightarrow> string" where
  "exn_text (ValueError m) = m"
| "exn_text (RunNotFoundError m) = m"
| "exn_text (RunNotSucceededError m) = m"
| "exn_text (InvalidCursorError m) = m"
| "exn_text (QuotaExceededError m) = m"
| "exn_text (IdempotencyConflictError m) = m"
| "exn_text (EvaluationConfigurationError m) = m"
| "exn_text (KeyDestroyedError m) = m"
| "exn_text _ = []"

record run_response =
  rr_run_id :: uuid
  rr_execution_status :: execution_status
  rr_evaluation_status :: evaluation_status
  rr_created_at :: time
  rr_started_at :: "time option"
  rr_completed_at :: "time option"
  rr_replay_of :: "uuid option"
  rr_error_code :: "string option"
  rr_routing_decision :: "dict option"

record attempt_response =
  ra_attempt_id :: uuid
  ra_number :: int
  ra_provider :: string
  ra_started_at :: time
  ra_finished_at :: "time option"
  ra_outcome :: "string option"
  ra_error_code :: "string option"
  ra_retryable :: "bool option"
  ra_latency_ms :: "int option"

record event_response =
  re_event_id :: uuid
  re_attempt_id :: "uuid option"
  re_type :: string
  re_metadata :: "dict option"
  re_created_at :: time

record evaluation_response =
  rv_evaluation_id :: uuid
  rv_evaluator :: string
  rv_status :: evaluation_status
  rv_score :: "rat option"
  rv_result :: "dict option"
  rv_details :: "dict option"
  rv_created_at :: time
  rv_completed_at :: "time option"

datatype api_body =
    Created_Body uuid execution_status bool "dict option"
  | Run_Body run_response
  | Attempts_Body "attempt_response list"
  | Events_Body "event_response list"
  | Evaluation_Body evaluation_response
  | Evaluations_Body "evaluation_response list"
  | Replay_Body uuid execution_status uuid bool
  | Job_Body dict
  | Error_Body string string
  | Validation_Body "dict list"

record http_response =
  rp_status :: int
  rp_body :: api_body
  rp_headers :: "(string \<times> string) list"

definition to_run_response :: "run_snapshot \<Rightarrow> run_response" where
  "to_run_response s = \<lparr>rr_run_id = s_id s, rr_execution_status = s_execution_status s, rr_evaluation_status = s_evaluation_status s,
     rr_created_at = s_created_at s, rr_started_at = s_started_at s, rr_completed_at = s_completed_at s,
     rr_replay_of = s_replay_of s, rr_error_code = s_error_code s, rr_routing_decision = s_routing_decision s\<rparr>"

definition to_attempt_response :: "attempt_snapshot \<Rightarrow> attempt_response" where
  "to_attempt_response a = \<lparr>ra_attempt_id = as_id a, ra_number = as_number a, ra_provider = as_provider a,
     ra_started_at = as_started_at a, ra_finished_at = as_finished_at a, ra_outcome = as_outcome a,
     ra_error_code = as_error_code a, ra_retryable = as_retryable a, ra_latency_ms = as_latency_ms a\<rparr>"

definition to_event_response :: "event_snapshot \<Rightarrow> event_response" where
  "to_event_response e = \<lparr>re_event_id = es_id e, re_attempt_id = es_attempt_id e, re_type = es_type e,
     re_metadata = es_metadata e, re_created_at = es_created_at e\<rparr>"

definition to_evaluation_response :: "evaluation_snapshot \<Rightarrow> evaluation_response" where
  "to_evaluation_response v = \<lparr>rv_evaluation_id = vs_id v, rv_evaluator = vs_evaluator v, rv_status = vs_status v,
     rv_score = vs_score v, rv_result = vs_result v, rv_details = vs_details v, rv_created_at = vs_created_at v,
     rv_completed_at = vs_completed_at v\<rparr>"

definition ok_response :: "int \<Rightarrow> api_body \<Rightarrow> http_response" where
  "ok_response st body = \<lparr>rp_status = st, rp_body = body, rp_headers = []\<rparr>"

definition security_error :: "int \<Rightarrow> string \<Rightarrow> string \<Rightarrow> (string \<times> string) list \<Rightarrow> http_response" where
  "security_error st error_code message headers = \<lparr>rp_status = st, rp_body = Error_Body error_code message, rp_headers = headers\<rparr>"

section \<open>Who is calling\<close>

text \<open>The identity the boundary put into \<open>request.state\<close>: tenant and principal.\<close>

type_synonym identity = "string option \<times> string option"

definition required_client_id :: "api_settings \<Rightarrow> identity \<Rightarrow> string option \<Rightarrow> string api" where
  "required_client_id st who client_id =
     (if auth_mode (ap_auth st) = ''api_key'' then
        (case fst who of Some t \<Rightarrow> Inr t | None \<Rightarrow> Inl (Raised (RuntimeError ''Missing authenticated tenant'')))
      else (case client_id of
        Some c \<Rightarrow> if strip c = [] then Inl (ApiProblem 422 ''MISSING_CLIENT_ID'' ''X-Client-Id is required in local-development mode.'')
                 else Inr (strip c)
      | None \<Rightarrow> Inl (ApiProblem 422 ''MISSING_CLIENT_ID'' ''X-Client-Id is required in local-development mode.'')))"

definition principal_id :: "api_settings \<Rightarrow> identity \<Rightarrow> string \<Rightarrow> string api" where
  "principal_id st who tenant = (case snd who of
     Some p \<Rightarrow> Inr p
   | None \<Rightarrow> if auth_mode (ap_auth st) = ''disabled'' then Inr (''local-'' @ sha256_hexdigest (utf8_encode tenant))
            else Inl (Raised (RuntimeError ''Missing authenticated principal'')))"

definition is_idempotency_key :: "string \<Rightarrow> bool" where
  "is_idempotency_key s \<longleftrightarrow> 8 \<le> length s \<and> length s \<le> 255 \<and> is_ascii_alnum (hd s) \<and>
     list_all (\<lambda>d. is_ascii_alnum d \<or> d \<in> set ''._:-'') (tl s)"

definition validate_idempotency_key :: "string \<Rightarrow> string api" where
  "validate_idempotency_key value =
     (if is_idempotency_key value then Inr value
      else Inl (ApiProblem 422 ''INVALID_IDEMPOTENCY_KEY'' ''Idempotency-Key must contain 8-255 URL-safe characters.''))"

section \<open>Handlers\<close>

text \<open>The parsed body of a regression request: its dataset as the mapping it dumps to.\<close>

record regression_request =
  rg_dataset :: dict
  rg_case_count :: int
  rg_baseline :: target
  rg_candidate :: target
  rg_gates :: dict

text \<open>What the router makes of a request.\<close>

datatype api_call =
    Healthz
  | Create_Run dict dict "string option"
  | Get_Run uuid
  | Get_Attempts uuid int "uuid option"
  | Get_Events uuid int "uuid option"
  | Evaluate_Run uuid "dict list"
  | Get_Evaluations uuid int "uuid option"
  | Run_Regression regression_request "string option"
  | Get_Job uuid
  | Replay_Run uuid "string option"
  | Invalid_Call "dict list"
  | No_Route int

definition policy_limits_of :: "api_settings \<Rightarrow> policy_limits" where
  "policy_limits_of st = (ap_policy st)\<lparr>lim_available := Some (''deterministic'' # (if ap_openai_key st then [''openai''] else []))\<rparr>"

text \<open>The \<open>except\<close> clauses of the submitting handlers, and those of the reads.\<close>

fun submit_errors :: "string \<Rightarrow> 'a api \<Rightarrow> 'a api" where
  "submit_errors error_code (Inl (Raised e)) =
     (case e of
        IdempotencyConflictError m \<Rightarrow> Inl (ApiProblem 409 ''IDEMPOTENCY_KEY_REUSED'' m)
      | QuotaExceededError m \<Rightarrow> Inl (Raised e)
      | _ \<Rightarrow> if is_ValueError e then Inl (ApiProblem 422 error_code (exn_text e)) else Inl (Raised e))"
| "submit_errors error_code out = out"

fun not_found :: "string \<Rightarrow> 'a api \<Rightarrow> 'a api" where
  "not_found error_code (Inl (Raised (RunNotFoundError m))) = Inl (ApiProblem 404 error_code m)"
| "not_found error_code out = out"

fun not_succeeded :: "'a api \<Rightarrow> 'a api" where
  "not_succeeded (Inl (Raised (RunNotSucceededError m))) = Inl (ApiProblem 409 ''RUN_NOT_SUCCEEDED'' m)"
| "not_succeeded out = out"

fun key_reused :: "'a api \<Rightarrow> 'a api" where
  "key_reused (Inl (Raised (IdempotencyConflictError m))) = Inl (ApiProblem 409 ''IDEMPOTENCY_KEY_REUSED'' m)"
| "key_reused out = out"

definition missing_key :: "string \<Rightarrow> api_exn" where
  "missing_key message = ApiProblem 422 ''MISSING_IDEMPOTENCY_KEY'' message"

definition create_run ::
  "api_settings \<Rightarrow> ctx \<Rightarrow> identity \<Rightarrow> string option \<Rightarrow> dict \<Rightarrow> dict \<Rightarrow> string option \<Rightarrow> db \<Rightarrow> (http_response \<times> db) api" where
  "create_run st c who client_id inp policy key d = (case key of
     None \<Rightarrow> Inl (missing_key ''Idempotency-Key header is required.'')
   | Some k \<Rightarrow>
       api_bind (required_client_id st who client_id) (\<lambda>tenant.
       api_bind (submit_errors ''INVALID_RETRY_POLICY''
         (api_bind (lift_res (build_policy_snapshot policy (policy_limits_of st))) (\<lambda>snapshot.
          api_bind (principal_id st who tenant) (\<lambda>p.
          api_bind (validate_idempotency_key k) (\<lambda>k.
            lift_res (submit c (ap_quotas st) tenant k inp snapshot (Some p) ''execution'' d)))))) (\<lambda>((run, replayed), d').
         Inr (ok_response 202 (Created_Body (s_id run) (s_execution_status run) replayed (s_routing_decision run)), d'))))"

definition get_run_handler :: "api_settings \<Rightarrow> identity \<Rightarrow> string option \<Rightarrow> uuid \<Rightarrow> db \<Rightarrow> (http_response \<times> db) api" where
  "get_run_handler st who client_id i d =
     api_bind (not_found ''RUN_NOT_FOUND'' (api_bind (required_client_id st who client_id) (\<lambda>tenant. lift_res (get_run tenant i d)))) (\<lambda>run.
       Inr (ok_response 200 (Run_Body (to_run_response run)), d))"

text \<open>A page of a history: the next cursor is announced when the page is full.\<close>

definition page_handler ::
  "api_settings \<Rightarrow> identity \<Rightarrow> string option \<Rightarrow> int \<Rightarrow> (string \<Rightarrow> 'r list res) \<Rightarrow> ('r \<Rightarrow> uuid) \<Rightarrow> ('r list \<Rightarrow> api_body) \<Rightarrow> db \<Rightarrow>
    (http_response \<times> db) api" where
  "page_handler st who client_id limit read_page ident body d =
     api_bind (not_found ''RUN_NOT_FOUND'' (api_bind (required_client_id st who client_id) (\<lambda>tenant. lift_res (read_page tenant)))) (\<lambda>rows.
       Inr ((ok_response 200 (body rows))\<lparr>rp_headers :=
         if int (length rows) = limit then [(''X-Next-Cursor'', uuid_str (ident (last rows)))] else []\<rparr>, d))"

definition get_attempts_handler where
  "get_attempts_handler st who client_id i limit cursor d =
     page_handler st who client_id limit (\<lambda>tenant. get_attempts tenant i limit cursor d) as_id
       (\<lambda>rows. Attempts_Body (map to_attempt_response rows)) d"

definition get_events_handler where
  "get_events_handler st who client_id i limit cursor d =
     page_handler st who client_id limit (\<lambda>tenant. get_events tenant i limit cursor d) es_id
       (\<lambda>rows. Events_Body (map to_event_response rows)) d"

definition get_evaluations_handler where
  "get_evaluations_handler st who client_id i limit cursor d =
     page_handler st who client_id limit (\<lambda>tenant. get_evaluations tenant i limit cursor d) vs_id
       (\<lambda>rows. Evaluations_Body (map to_evaluation_response rows)) d"

definition evaluate_run ::
  "(json \<Rightarrow> bool) \<Rightarrow> api_settings \<Rightarrow> ctx \<Rightarrow> identity \<Rightarrow> string option \<Rightarrow> uuid \<Rightarrow> dict list \<Rightarrow> db \<Rightarrow> (http_response \<times> db) api" where
  "evaluate_run schema_ok st c who client_id i rules d =
     api_bind (not_succeeded (not_found ''RUN_NOT_FOUND''
       (api_bind (required_client_id st who client_id) (\<lambda>tenant.
        api_bind (principal_id st who tenant) (\<lambda>p.
          lift_res (evaluate schema_ok c (ap_quotas st) (ap_job_timeout st) tenant i rules (Some p) d)))))) (\<lambda>(evaluation, d').
       Inr (ok_response 202 (Evaluation_Body (to_evaluation_response evaluation)), d'))"

fun validate_regression_targets :: "api_settings \<Rightarrow> target list \<Rightarrow> unit res" where
  "validate_regression_targets st [] = Inr ()"
| "validate_regression_targets st (t # ts) =
     (if t_provider t \<notin> {''deterministic'', ''openai''}
      then Inl (ValueError (''provider '' @ [CHR 39] @ t_provider t @ [CHR 39] @ '' is not configured''))
      else if t_provider t = ''openai'' \<and> \<not> ap_openai_key st then Inl (ValueError ''openai target requires APP_OPENAI_API_KEY'')
      else validate_regression_targets st ts)"

definition regression_payload :: "regression_request \<Rightarrow> dict" where
  "regression_payload g = [(''dataset'', JDict (rg_dataset g)), (''baseline'', JDict (target_as_dict (rg_baseline g))),
     (''candidate'', JDict (target_as_dict (rg_candidate g))), (''gates'', JDict (rg_gates g))]"

definition make_target :: "target \<Rightarrow> target res" where
  "make_target t = ProviderModelTarget (t_provider t) (t_model t) (t_cost t)"

definition run_evaluation_regression ::
  "api_settings \<Rightarrow> ctx \<Rightarrow> identity \<Rightarrow> regression_request \<Rightarrow> string option \<Rightarrow> db \<Rightarrow> (http_response \<times> db) api" where
  "run_evaluation_regression st c who g key d =
     (if auth_mode (ap_auth st) \<noteq> ''api_key''
      then Inl (ApiProblem 401 ''AUTHENTICATION_REQUIRED'' ''Regression jobs require API-key mode.'')
      else api_bind (required_client_id st who None) (\<lambda>tenant.
        if rg_case_count g > ap_max_cases st \<or> 2 * rg_case_count g > ap_call_budget st
        then Inl (ApiProblem 422 ''REGRESSION_BUDGET_EXCEEDED'' ''Regression exceeds the server provider-call budget.'')
        else (case key of
          None \<Rightarrow> Inl (missing_key ''Idempotency-Key is required.'')
        | Some k \<Rightarrow>
            api_bind (submit_errors ''INVALID_REGRESSION_REQUEST''
              (api_bind (lift_res (from_mapping (rg_dataset g))) (\<lambda>_.
               api_bind (lift_res (make_target (rg_baseline g))) (\<lambda>baseline.
               api_bind (lift_res (make_target (rg_candidate g))) (\<lambda>candidate.
               api_bind (lift_res (validate_regression_targets st [baseline, candidate])) (\<lambda>_.
               api_bind (principal_id st who tenant) (\<lambda>p.
               api_bind (validate_idempotency_key k) (\<lambda>k.
                 lift_res (submit_regression c (ap_quotas st) (ap_job_timeout st) tenant p (regression_payload g) k d)))))))))
              (\<lambda>((job, replayed), d').
                Inr (ok_response 202 (Job_Body [(''job_id'', JStr (uuid_str (s_id job))),
                  (''execution_status'', JStr (execution_status_value (s_execution_status job))),
                  (''replayed'', JBool replayed), (''status_url'', JStr (''/v1/jobs/'' @ uuid_str (s_id job)))]), d')))))"

definition get_job :: "api_settings \<Rightarrow> identity \<Rightarrow> string option \<Rightarrow> uuid \<Rightarrow> db \<Rightarrow> (http_response \<times> db) api" where
  "get_job st who client_id i d =
     api_bind (not_found ''JOB_NOT_FOUND''
       (api_bind (required_client_id st who client_id) (\<lambda>tenant.
        api_bind (lift_res (get_run tenant i d)) (\<lambda>job.
          if s_work_kind job \<notin> {''evaluation'', ''regression''} then Inl (Raised (RunNotFoundError ''Job was not found'')) else Inr job)))) (\<lambda>job.
       Inr (ok_response 200 (Job_Body [(''job_id'', JStr (uuid_str (s_id job))),
         (''execution_status'', JStr (execution_status_value (s_execution_status job))),
         (''result'', jopt (map_option JDict (s_result_payload job))), (''error_code'', jstr_opt (s_error_code job))]), d))"

definition replay_run ::
  "api_settings \<Rightarrow> ctx \<Rightarrow> identity \<Rightarrow> string option \<Rightarrow> uuid \<Rightarrow> string option \<Rightarrow> db \<Rightarrow> (http_response \<times> db) api" where
  "replay_run st c who client_id i key d = (case key of
     None \<Rightarrow> Inl (missing_key ''Idempotency-Key header is required.'')
   | Some k \<Rightarrow>
       api_bind (key_reused (not_found ''RUN_NOT_FOUND''
         (api_bind (required_client_id st who client_id) (\<lambda>tenant.
          api_bind (principal_id st who tenant) (\<lambda>p.
          api_bind (validate_idempotency_key k) (\<lambda>k.
            lift_res (replay c (ap_quotas st) tenant i k (Some p) d))))))) (\<lambda>((run, replayed), d').
         case s_replay_of run of
           None \<Rightarrow> Inl (Raised (RuntimeError ''Replay must retain its source run''))
         | Some source \<Rightarrow> Inr (ok_response 202 (Replay_Body (s_id run) (s_execution_status run) source replayed), d')))"

section \<open>Dispatch and exception handlers\<close>

fun run_handler ::
  "(json \<Rightarrow> bool) \<Rightarrow> api_settings \<Rightarrow> ctx \<Rightarrow> identity \<Rightarrow> string option \<Rightarrow> api_call \<Rightarrow> db \<Rightarrow> (http_response \<times> db) api" where
  "run_handler schema_ok st c who client_id Healthz d =
     Inr (ok_response 200 (Job_Body [(''status'', JStr ''ok''), (''service'', JStr ''api'')]), d)"
| "run_handler schema_ok st c who client_id (Create_Run inp policy key) d = create_run st c who client_id inp policy key d"
| "run_handler schema_ok st c who client_id (Get_Run i) d = get_run_handler st who client_id i d"
| "run_handler schema_ok st c who client_id (Get_Attempts i limit cursor) d = get_attempts_handler st who client_id i limit cursor d"
| "run_handler schema_ok st c who client_id (Get_Events i limit cursor) d = get_events_handler st who client_id i limit cursor d"
| "run_handler schema_ok st c who client_id (Evaluate_Run i rules) d = evaluate_run schema_ok st c who client_id i rules d"
| "run_handler schema_ok st c who client_id (Get_Evaluations i limit cursor) d = get_evaluations_handler st who client_id i limit cursor d"
| "run_handler schema_ok st c who client_id (Run_Regression g key) d = run_evaluation_regression st c who g key d"
| "run_handler schema_ok st c who client_id (Get_Job i) d = get_job st who client_id i d"
| "run_handler schema_ok st c who client_id (Replay_Run i key) d = replay_run st c who client_id i key d"
| "run_handler schema_ok st c who client_id (Invalid_Call details) d = Inr (ok_response 422 (Validation_Body details), d)"
| "run_handler schema_ok st c who client_id (No_Route status) d = Inr (ok_response status (Error_Body [] []), d)"

text \<open>The registered exception handlers; other exceptions leave the application.\<close>

fun exception_response :: "api_settings \<Rightarrow> api_exn \<Rightarrow> http_response option" where
  "exception_response st (ApiProblem status error_code message) = Some (ok_response status (Error_Body error_code message))"
| "exception_response st (Raised (QuotaExceededError m)) =
     Some (security_error 429 ''RESOURCE_QUOTA_EXCEEDED'' m [(''Retry-After'', show_int (window_seconds (ap_quotas st)))])"
| "exception_response st (Raised (InvalidCursorError m)) = Some (security_error 422 ''INVALID_CURSOR'' m [])"
| "exception_response st (Raised e) = None"

fun raised_exn :: "api_exn \<Rightarrow> exn" where
  "raised_exn (Raised e) = e"
| "raised_exn (ApiProblem _ _ m) = RuntimeError m"

text \<open>The application behind the boundary: a response or an unhandled exception, and the database after it.\<close>

definition run_app ::
  "(json \<Rightarrow> bool) \<Rightarrow> api_settings \<Rightarrow> ctx \<Rightarrow> identity \<Rightarrow> string option \<Rightarrow> api_call \<Rightarrow> db \<Rightarrow> http_response res \<times> db" where
  "run_app schema_ok st c who client_id call d = (case run_handler schema_ok st c who client_id call d of
     Inr (resp, d') \<Rightarrow> (Inr resp, d')
   | Inl e \<Rightarrow> (case exception_response st e of Some resp \<Rightarrow> (Inr resp, d) | None \<Rightarrow> (Inl (raised_exn e), d)))"

end
