(* ===== verification/Request_Guards.thy ===== *)
theory Request_Guards
  imports Py_Bytes
begin

text \<open>
  The two guards in front of the API: the fixed-window rate limiter of \<open>infrastructure/redis/rate_limiter.py\<close>
  over Redis, whose commands are a parameter with their documented laws, and the request-body bound of
  \<open>api/body_limit.py\<close> over the messages of the ASGI server.
\<close>

section \<open>The rate limiter\<close>

text \<open>
  The commands of the script: \<open>INCR\<close> returns the new value, \<open>TTL\<close> the seconds left (negative for a key that does
  not exist or never expires), \<open>EXPIRE\<close> sets them; \<open>elapse\<close> lets seconds pass and \<open>counter\<close> reads a key.
\<close>

record 's redis =
  incr :: "string \<Rightarrow> 's \<Rightarrow> int \<times> 's"
  ttl :: "string \<Rightarrow> 's \<Rightarrow> int"
  expire :: "string \<Rightarrow> int \<Rightarrow> 's \<Rightarrow> 's"
  elapse :: "nat \<Rightarrow> 's \<Rightarrow> 's"
  counter :: "string \<Rightarrow> 's \<Rightarrow> int"

definition redis_laws :: "'s redis \<Rightarrow> bool" where
  "redis_laws R \<longleftrightarrow>
     (\<forall>k s. fst (incr R k s) = counter R k s + 1) \<and>
     (\<forall>k k' s. counter R k' (snd (incr R k s)) = (if k' = k then counter R k s + 1 else counter R k' s)) \<and>
     (\<forall>k k' s. 0 \<le> ttl R k' s \<longrightarrow> ttl R k' (snd (incr R k s)) = ttl R k' s) \<and>
     (\<forall>k k' s. ttl R k' s < 0 \<longrightarrow> ttl R k' (snd (incr R k s)) < 0) \<and>
     (\<forall>k k' w s. counter R k' (expire R k w s) = counter R k' s) \<and>
     (\<forall>k k' w s. 0 < w \<longrightarrow> ttl R k' (expire R k w s) = (if k' = k then w else ttl R k' s)) \<and>
     (\<forall>k n s. ttl R k s < 0 \<longrightarrow> ttl R k (elapse R n s) < 0 \<and> counter R k (elapse R n s) = counter R k s) \<and>
     (\<forall>k n s. 0 \<le> ttl R k s \<and> int n < ttl R k s \<longrightarrow>
        ttl R k (elapse R n s) = ttl R k s - int n \<and> counter R k (elapse R n s) = counter R k s) \<and>
     (\<forall>k n s. 0 \<le> ttl R k s \<and> ttl R k s \<le> int n \<longrightarrow> ttl R k (elapse R n s) < 0 \<and> counter R k (elapse R n s) = 0)"

record rate_decision =
  rd_allowed :: bool
  rd_retry_after :: int

definition rate_script :: "'s redis \<Rightarrow> string \<Rightarrow> int \<Rightarrow> 's \<Rightarrow> (int \<times> int) \<times> 's" where
  "rate_script R key window s = (case incr R key s of (current, s1) \<Rightarrow>
     let left = ttl R key s1 in
     if left < 0 then ((current, window), expire R key window s1) else ((current, left), s1))"

definition rate_key :: "string \<Rightarrow> string" where
  "rate_key client_id = ''arr:rate-limit:'' @ sha256_hexdigest (utf8_encode client_id)"

text \<open>How one evaluation fares on the network; a lost reply is an error after the script has run.\<close>

datatype link = Replied | Refused | Reply_Lost

definition check_rate :: "'s redis \<Rightarrow> int \<Rightarrow> int \<Rightarrow> link \<Rightarrow> string \<Rightarrow> 's \<Rightarrow> rate_decision res \<times> 's" where
  "check_rate R limit window net client_id s =
     (let unavailable = Inl (RateLimitUnavailable ''Redis rate limiter is unavailable'');
          ran = rate_script R (rate_key client_id) window s
      in case net of
        Refused \<Rightarrow> (unavailable, s)
      | Reply_Lost \<Rightarrow> (unavailable, snd ran)
      | Replied \<Rightarrow> (case fst ran of (current, left) \<Rightarrow>
          (Inr \<lparr>rd_allowed = (current \<le> limit), rd_retry_after = max 1 (if left > 0 then left else window)\<rparr>, snd ran)))"

definition noop_check :: "string \<Rightarrow> rate_decision" where
  "noop_check client_id = \<lparr>rd_allowed = True, rd_retry_after = 0\<rparr>"

text \<open>A history of the shared store: requests of clients and time passing. The requests of one client let through.\<close>

datatype traffic = Arrive link string | Pass nat

fun elapsed :: "traffic list \<Rightarrow> int" where
  "elapsed [] = 0"
| "elapsed (Arrive net c # es) = elapsed es"
| "elapsed (Pass n # es) = int n + elapsed es"

fun let_through :: "'s redis \<Rightarrow> int \<Rightarrow> int \<Rightarrow> string \<Rightarrow> traffic list \<Rightarrow> 's \<Rightarrow> int" where
  "let_through R limit window client [] s = 0"
| "let_through R limit window client (Pass n # es) s = let_through R limit window client es (elapse R n s)"
| "let_through R limit window client (Arrive net c # es) s = (case check_rate R limit window net c s of (d, s') \<Rightarrow>
     (case d of Inr dec \<Rightarrow> if c = client \<and> rd_allowed dec then 1 else 0 | Inl _ \<Rightarrow> 0) + let_through R limit window client es s')"

section \<open>The body bound\<close>

datatype asgi_message = Disconnect | Chunk bytes bool

datatype guard_outcome =
    Not_Http
  | Reject int string
  | Dropped
  | Handled bytes "asgi_message list"

text \<open>
  The headers' verdict: the declared length, if one is declared. Header names and values are byte strings, on
  which \<open>isdigit\<close> accepts the ASCII digits only.
\<close>

definition declared_length :: "(string \<times> string) list \<Rightarrow> nat option option" where
  "declared_length headers =
     (let lengths = map snd (filter (\<lambda>(k, v). lower k = ''content-length'') headers);
          transfer = list_ex (\<lambda>(k, v). lower k = ''transfer-encoding'') headers
      in case lengths of
        [] \<Rightarrow> Some None
      | [v] \<Rightarrow> if transfer \<or> v = [] \<or> \<not> list_all is_ascii_digit v \<or> 10 < length v then None else Some (Some (digits_value v))
      | _ \<Rightarrow> None)"

text \<open>
  The reading loop. The messages are those that arrive before the time limit, which interrupts the wait for the
  one after the last of them.
\<close>

fun read_body :: "nat \<Rightarrow> bytes \<Rightarrow> asgi_message list \<Rightarrow> guard_outcome" where
  "read_body max_bytes body [] = Reject 408 ''REQUEST_BODY_TIMEOUT''"
| "read_body max_bytes body (Disconnect # ms) = Dropped"
| "read_body max_bytes body (Chunk c more_body # ms) =
     (if length body + length c > max_bytes then Reject 413 ''REQUEST_TOO_LARGE''
      else if more_body then read_body max_bytes (body @ c) ms
      else Handled (body @ c) ms)"

definition body_limit :: "nat \<Rightarrow> bool \<Rightarrow> (string \<times> string) list \<Rightarrow> asgi_message list \<Rightarrow> guard_outcome" where
  "body_limit max_bytes http headers ms =
     (if \<not> http then Not_Http
      else (case declared_length headers of
        None \<Rightarrow> Reject 400 ''INVALID_CONTENT_LENGTH''
      | Some declared \<Rightarrow>
          if (case declared of Some n \<Rightarrow> n > max_bytes | None \<Rightarrow> False) then Reject 413 ''REQUEST_TOO_LARGE''
          else (case read_body max_bytes [] ms of
            Handled body rest \<Rightarrow>
              if (case declared of Some n \<Rightarrow> n \<noteq> length body | None \<Rightarrow> False) then Reject 400 ''INVALID_CONTENT_LENGTH''
              else Handled body rest
          | out \<Rightarrow> out)))"

text \<open>What the application receives: the whole body in one message, then whatever the server sends next.\<close>

fun bounded_receive :: "guard_outcome \<Rightarrow> asgi_message list" where
  "bounded_receive (Handled body rest) = Chunk body False # rest"
| "bounded_receive _ = []"

section \<open>The window bound\<close>

lemma redis_lawsD:
  assumes "redis_laws R"
  shows "fst (incr R k s) = counter R k s + 1"
    and "counter R k' (snd (incr R k s)) = (if k' = k then counter R k s + 1 else counter R k' s)"
    and "0 \<le> ttl R k' s \<Longrightarrow> ttl R k' (snd (incr R k s)) = ttl R k' s"
    and "ttl R k' s < 0 \<Longrightarrow> ttl R k' (snd (incr R k s)) < 0"
    and "counter R k' (expire R k w s) = counter R k' s"
    and "0 < w \<Longrightarrow> ttl R k' (expire R k w s) = (if k' = k then w else ttl R k' s)"
    and "ttl R k s < 0 \<Longrightarrow> ttl R k (elapse R n s) < 0 \<and> counter R k (elapse R n s) = counter R k s"
    and "0 \<le> ttl R k s \<Longrightarrow> int n < ttl R k s \<Longrightarrow>
      ttl R k (elapse R n s) = ttl R k s - int n \<and> counter R k (elapse R n s) = counter R k s"
    and "0 \<le> ttl R k s \<Longrightarrow> ttl R k s \<le> int n \<Longrightarrow> ttl R k (elapse R n s) < 0 \<and> counter R k (elapse R n s) = 0"
  using assms by (simp_all add: redis_laws_def)

lemma rate_script_effect:
  assumes "redis_laws R" "0 < window"
  shows "fst (fst (rate_script R k window s)) = counter R k s + 1"
    and "counter R k' (snd (rate_script R k window s)) = (if k' = k then counter R k s + 1 else counter R k' s)"
    and "0 \<le> ttl R k' s \<Longrightarrow> ttl R k' (snd (rate_script R k window s)) = ttl R k' s"
    and "ttl R k s < 0 \<Longrightarrow> ttl R k (snd (rate_script R k window s)) = window"
    and "k' \<noteq> k \<Longrightarrow> ttl R k' s < 0 \<Longrightarrow> ttl R k' (snd (rate_script R k window s)) < 0"
proof -
  note L = redis_lawsD [OF assms(1)]
  obtain cur s1 where i: "incr R k s = (cur, s1)" by fastforce
  have ran: "rate_script R k window s = (if ttl R k s < 0 then ((cur, window), expire R k window s1) else ((cur, ttl R k s), s1))"
    using L(3) [of k s k] L(4) [of k s k] i by (simp add: rate_script_def)
  show "fst (fst (rate_script R k window s)) = counter R k s + 1"
    using L(1) [of k s] by (simp add: ran i)
  show "counter R k' (snd (rate_script R k window s)) = (if k' = k then counter R k s + 1 else counter R k' s)"
    using L(2) [of k' k s] L(5) by (cases "k' = k") (simp_all add: ran i)
  show "0 \<le> ttl R k' s \<Longrightarrow> ttl R k' (snd (rate_script R k window s)) = ttl R k' s"
    using L(3) [of k' s k] L(6) [OF assms(2), of k' k s1] by (auto simp: ran i)
  show "ttl R k s < 0 \<Longrightarrow> ttl R k (snd (rate_script R k window s)) = window"
    using L(6) [OF assms(2), of k k s1] by (simp add: ran)
  show "k' \<noteq> k \<Longrightarrow> ttl R k' s < 0 \<Longrightarrow> ttl R k' (snd (rate_script R k window s)) < 0"
    using L(4) [of k' s k] L(6) [OF assms(2), of k' k s1] by (simp add: ran i)
qed

lemma check_rate_state: "snd (check_rate R limit window net c s) = (if net = Refused then s else snd (rate_script R (rate_key c) window s))"
  by (cases net) (simp_all add: check_rate_def Let_def split: prod.split)

lemma let_through_Arrive:
  assumes "redis_laws R" "0 < window"
  shows "let_through R limit window client (Arrive net c # es) s =
    (if c = client \<and> net = Replied \<and> counter R (rate_key c) s + 1 \<le> limit then 1 else 0) +
    let_through R limit window client es (if net = Refused then s else snd (rate_script R (rate_key c) window s))"
  using rate_script_effect(1) [OF assms, of "rate_key c" s]
  by (cases net) (auto simp: check_rate_def Let_def split: prod.split)

lemma elapsed_nonneg: "0 \<le> elapsed es"
  by (induction es rule: elapsed.induct) simp_all

text \<open>While the client's key lives, the counter bounds what is let through.\<close>

lemma let_through_live:
  assumes "redis_laws R" "0 < window" "elapsed es < window"
    and "ttl R (rate_key client) s < 0 \<or> elapsed es < ttl R (rate_key client) s"
  shows "let_through R limit window client es s \<le> max 0 (limit - counter R (rate_key client) s)"
  using assms(3,4)
proof (induction es arbitrary: s rule: elapsed.induct)
  case (2 net c es)
  let ?k = "rate_key client"
  let ?s = "if net = Refused then s else snd (rate_script R (rate_key c) window s)"
  have "ttl R ?k ?s < 0 \<or> elapsed es < ttl R ?k ?s"
    using 2(2,3) rate_script_effect(3) [OF assms(1,2), of ?k s "rate_key c"] rate_script_effect(4) [OF assms(1,2), of ?k s]
      rate_script_effect(5) [OF assms(1,2), of ?k "rate_key c" s]
    by (cases "?k = rate_key c"; cases "ttl R ?k s < 0") auto
  then have "let_through R limit window client es ?s \<le> max 0 (limit - counter R ?k ?s)" using 2 by simp
  moreover have "counter R ?k ?s = (if net \<noteq> Refused \<and> rate_key c = ?k then counter R ?k s + 1 else counter R ?k s)"
    using rate_script_effect(2) [OF assms(1,2), of ?k "rate_key c" s] by auto
  ultimately show ?case by (simp only: let_through_Arrive [OF assms(1,2)]) (auto split: if_splits)
next
  case (3 n es)
  let ?k = "rate_key client"
  have nn: "0 \<le> elapsed es" by (rule elapsed_nonneg)
  have "counter R ?k (elapse R n s) = counter R ?k s \<and>
    (ttl R ?k (elapse R n s) < 0 \<or> elapsed es < ttl R ?k (elapse R n s))"
    using 3(2,3) nn redis_lawsD(7,8) [OF assms(1), of ?k s n] by (cases "ttl R ?k s < 0") auto
  moreover have "elapsed es < window" using 3(2) by simp
  ultimately show ?case using "3.IH" [of "elapse R n s"] by simp
qed simp

lemma let_through_two_windows:
  assumes "redis_laws R" "0 < window" "0 \<le> limit" "elapsed es < window"
  shows "let_through R limit window client es s \<le> max 0 (limit - counter R (rate_key client) s) + limit"
  using assms(4)
proof (induction es arbitrary: s rule: elapsed.induct)
  case 1
  then show ?case using assms(3) by simp
next
  case (2 net c es)
  let ?k = "rate_key client"
  let ?s = "if net = Refused then s else snd (rate_script R (rate_key c) window s)"
  have "let_through R limit window client es ?s \<le> max 0 (limit - counter R ?k ?s) + limit" using 2 by simp
  moreover have "counter R ?k ?s = (if net \<noteq> Refused \<and> rate_key c = ?k then counter R ?k s + 1 else counter R ?k s)"
    using rate_script_effect(2) [OF assms(1,2), of ?k "rate_key c" s] by auto
  ultimately show ?case by (simp only: let_through_Arrive [OF assms(1,2)]) (auto split: if_splits)
next
  case (3 n es)
  let ?k = "rate_key client"
  have later: "elapsed es < window" using 3(2) by simp
  show ?case
  proof (cases "0 \<le> ttl R ?k s \<and> ttl R ?k s \<le> int n")
    case True
    then have "ttl R ?k (elapse R n s) < 0 \<and> counter R ?k (elapse R n s) = 0" using redis_lawsD(9) [OF assms(1)] by blast
    then have "let_through R limit window client es (elapse R n s) \<le> max 0 limit"
      using let_through_live [OF assms(1,2) later, of client "elapse R n s" limit] by simp
    then show ?thesis using assms(3) by simp
  next
    case False
    then have "counter R ?k (elapse R n s) = counter R ?k s"
      using redis_lawsD(7,8) [OF assms(1), of ?k s n] by (cases "ttl R ?k s < 0") auto
    then show ?thesis using "3.IH" [OF later, of "elapse R n s"] by simp
  qed
qed

section \<open>Complete bodies\<close>

definition body_of :: "bytes \<Rightarrow> asgi_message list \<Rightarrow> bytes \<Rightarrow> asgi_message list \<Rightarrow> bool" where
  "body_of start ms body rest \<longleftrightarrow> (\<exists>chunks lst. ms = map (\<lambda>c. Chunk c True) chunks @ Chunk lst False # rest \<and>
     body = start @ concat chunks @ lst)"

lemma body_of_simps [simp]:
  "\<not> body_of start [] body rest"
  "\<not> body_of start (Disconnect # ms) body rest"
  "body_of start (Chunk c True # ms) body rest \<longleftrightarrow> body_of (start @ c) ms body rest"
  "body_of start (Chunk c False # ms) body rest \<longleftrightarrow> ms = rest \<and> body = start @ c"
proof -
  show "body_of start (Chunk c True # ms) body rest \<longleftrightarrow> body_of (start @ c) ms body rest"
  proof
    assume "body_of start (Chunk c True # ms) body rest"
    then obtain chunks lst where m: "Chunk c True # ms = map (\<lambda>c. Chunk c True) chunks @ Chunk lst False # rest"
      "body = start @ concat chunks @ lst" by (auto simp: body_of_def)
    then obtain cs where "chunks = c # cs" by (cases chunks) auto
    then show "body_of (start @ c) ms body rest" using m by (auto simp: body_of_def)
  next
    assume "body_of (start @ c) ms body rest"
    then obtain chunks lst where "ms = map (\<lambda>c. Chunk c True) chunks @ Chunk lst False # rest"
      "body = (start @ c) @ concat chunks @ lst" by (auto simp: body_of_def)
    then show "body_of start (Chunk c True # ms) body rest"
      unfolding body_of_def by (intro exI [of _ "c # chunks"] exI [of _ lst]) simp
  qed
qed (auto simp: body_of_def Cons_eq_append_conv)

lemma body_of_length: "body_of start ms body rest \<Longrightarrow> length start \<le> length body"
  by (auto simp: body_of_def)

lemma read_body_Handled:
  "read_body max_bytes start ms = Handled body rest \<longleftrightarrow> body_of start ms body rest \<and> length body \<le> max_bytes"
proof (induction max_bytes start ms rule: read_body.induct)
  case (3 max_bytes start c more_body ms)
  then show ?case
    using body_of_length [of "start @ c" ms body rest] by (cases more_body) auto
qed simp_all

section \<open>Properties\<close>

text \<open>
  C24. The limiter bounds every client, however requests of all clients, failures of Redis and time
  interleave: within one window length at most twice the limit is let through, and at most the limit when the
  client starts with a fresh counter; a window in force is never extended. Redis keeps its documented laws.
\<close>

theorem rate_limit_bound:
  assumes "redis_laws R" "0 < window" "0 \<le> limit" "elapsed es < window" "0 \<le> counter R (rate_key client) s"
  shows "let_through R limit window client es s \<le> 2 * limit \<and>
    (ttl R (rate_key client) s < 0 \<and> counter R (rate_key client) s = 0 \<longrightarrow> let_through R limit window client es s \<le> limit) \<and>
    (0 \<le> ttl R (rate_key client) s \<longrightarrow>
      ttl R (rate_key client) (snd (check_rate R limit window net client s)) = ttl R (rate_key client) s)"
  using let_through_two_windows [OF assms(1-4), of client s] let_through_live [OF assms(1,2,4), of client s limit]
    rate_script_effect(3) [OF assms(1,2), of "rate_key client" s "rate_key client"] assms(3,5)
  by (auto simp: check_rate_state)

text \<open>A store that keeps the laws: every key has a counter and the seconds it still lives.\<close>

definition sample_redis :: "(string \<Rightarrow> int \<times> int) redis" where
  "sample_redis = \<lparr>incr = (\<lambda>k s. (fst (s k) + 1, s(k := (fst (s k) + 1, snd (s k))))), ttl = (\<lambda>k s. snd (s k)),
     expire = (\<lambda>k w s. s(k := (fst (s k), w))),
     elapse = (\<lambda>n s k. if snd (s k) < 0 then s k else if int n < snd (s k) then (fst (s k), snd (s k) - int n) else (0, -1)),
     counter = (\<lambda>k s. fst (s k))\<rparr>"

lemma sample_redis_laws: "redis_laws sample_redis"
  by (simp add: redis_laws_def sample_redis_def)

theorem rate_limit_bound_witness:
  "let_through sample_redis 1 60 ''alice'' [Arrive Replied ''alice'', Pass 30, Arrive Reply_Lost ''bob'', Arrive Replied ''alice''] (\<lambda>_. (0, -1)) \<le> 1"
  using rate_limit_bound [OF sample_redis_laws, of 60 1 "[Arrive Replied ''alice'', Pass 30, Arrive Reply_Lost ''bob'', Arrive Replied ''alice'']"
    "''alice''" "\<lambda>_. (0, -1)" Replied]
  by (simp add: sample_redis_def del: let_through.simps)

text \<open>
  C25. A handler runs exactly on the requests whose body arrived completely within the bound and matches the
  declared length, if one is declared; it then receives the received bytes, and no larger body ever reaches it.
\<close>

theorem handled_body_exact:
  "body_limit max_bytes True headers ms = Handled body rest \<longleftrightarrow>
    declared_length headers \<in> {Some None, Some (Some (length body))} \<and> length body \<le> max_bytes \<and>
    (\<exists>chunks lst. ms = map (\<lambda>c. Chunk c True) chunks @ Chunk lst False # rest \<and> body = concat chunks @ lst)"
proof -
  have "body_limit max_bytes True headers ms = Handled body rest \<longleftrightarrow>
    declared_length headers \<in> {Some None, Some (Some (length body))} \<and> read_body max_bytes [] ms = Handled body rest"
    using read_body_Handled [of max_bytes "[]" ms body rest]
    by (cases "declared_length headers") (auto simp: body_limit_def split: option.splits guard_outcome.splits)
  then show ?thesis unfolding read_body_Handled body_of_def by auto
qed

end
