(* ===== verification/Api_Boundary.thy ===== *)
theory Api_Boundary
  imports Api_Handlers Request_Guards Security_Audit Service_Invariants
begin

text \<open>
  The security boundary of \<open>api/main.py\<close>, the middleware every request passes: authentication, rate limiting and
  auditing around the application of \<open>Api_Handlers\<close>. A request is described by what the boundary reads of it and
  by the call the router makes of it. How the audit writes and the exchange with Redis fare is an argument.
\<close>

section \<open>Requests and surroundings\<close>

record api_request =
  rq_method :: string
  rq_path :: string
  rq_client_ids :: "string list"
  rq_api_key :: "string option"
  rq_authorization :: "string option"
  rq_call :: api_call

record 's api_state =
  at_redis :: 's
  at_audit :: "audit_row list"
  at_db :: db

text \<open>An audit write succeeds, fails, or fails after the row was stored (a late timeout).\<close>

datatype audit_io = Stored | Lost | Stored_Late

record api_env =
  ae_ctx :: ctx
  ae_now :: time
  ae_link :: link
  ae_audit :: "nat \<Rightarrow> audit_io"
  ae_audit_id :: "nat \<Rightarrow> uuid"
  ae_audit_time :: "nat \<Rightarrow> time"

definition PUBLIC_ENDPOINTS :: "(string \<times> string) list" where
  "PUBLIC_ENDPOINTS = [(''GET'', ''/healthz'')]"

section \<open>The boundary\<close>

text \<open>The paths whose reads leave a trace of their own: \<open>SENSITIVE_READ_PATH\<close>.\<close>

definition is_uuid_char :: "char \<Rightarrow> bool" where
  "is_uuid_char c \<longleftrightarrow> is_lower_hex c \<or> 65 \<le> code c \<and> code c \<le> 70 \<or> c = CHR ''-''"

definition sensitive_read_target :: "string \<Rightarrow> string \<Rightarrow> (uuid \<times> string) option" where
  "sensitive_read_target method path =
     (let kind = take 9 path; ident = take 36 (drop 9 path); rest = drop 45 path in
      if method \<noteq> ''GET'' \<or> kind \<notin> {''/v1/runs/'', ''/v1/jobs/''} \<or> length ident \<noteq> 36 \<or> \<not> list_all is_uuid_char ident \<or>
         rest \<notin> {[], ''/attempts'', ''/events'', ''/evaluations''} then None
      else (case UUID ident of
        Inl _ \<Rightarrow> None
      | Inr target \<Rightarrow> Some (target, if rest \<noteq> [] then tl rest else if kind = ''/v1/jobs/'' then ''job'' else ''run'')))"

definition write_security_audit :: "api_settings \<Rightarrow> api_env \<Rightarrow> nat \<Rightarrow> audit_record \<Rightarrow> 's api_state \<Rightarrow> bool \<times> 's api_state" where
  "write_security_audit st env k a s =
     (let stored = s\<lparr>at_audit := record_audit (ae_audit_id env k) (ae_audit_time env k) a (at_audit s)\<rparr> in
      case ae_audit env k of
        Stored \<Rightarrow> (True, stored)
      | Lost \<Rightarrow> (ap_fail_open st, s)
      | Stored_Late \<Rightarrow> (ap_fail_open st, stored))"

definition audit_of :: "string \<Rightarrow> string \<Rightarrow> string \<Rightarrow> string option \<Rightarrow> string option \<Rightarrow> audit_record" where
  "audit_of event outcome why client fp = \<lparr>ad_event_type = event, ad_outcome = outcome, ad_reason = why,
     ad_client_id = client, ad_fingerprint = fp, ad_principal_id = None, ad_target_run_id = None, ad_resource = None\<rparr>"

definition allowed_audit :: "auth_result \<Rightarrow> audit_record" where
  "allowed_audit a = (audit_of ''AUTHENTICATION'' ''ALLOWED'' ''AUTHENTICATED'' (ar_tenant_id a) (ar_fingerprint a))
     \<lparr>ad_principal_id := ar_principal_id a\<rparr>"

definition read_audit :: "auth_result \<Rightarrow> uuid \<Rightarrow> string \<Rightarrow> int \<Rightarrow> audit_record" where
  "read_audit a target kind status =
     (let outcome = (if status < 400 then ''ALLOWED'' else if status \<ge> 500 then ''ERROR'' else ''DENIED'') in
      (audit_of ''SENSITIVE_READ'' outcome (if outcome = ''ALLOWED'' then ''READ_COMPLETED'' else ''READ_REJECTED'')
        (ar_tenant_id a) (ar_fingerprint a))
      \<lparr>ad_principal_id := ar_principal_id a, ad_target_run_id := Some target, ad_resource := Some kind\<rparr>)"

definition audit_read ::
  "api_settings \<Rightarrow> api_env \<Rightarrow> auth_result \<Rightarrow> (uuid \<times> string) option \<Rightarrow> int \<Rightarrow> 's api_state \<Rightarrow> bool \<times> 's api_state" where
  "audit_read st env a read_target status s = (case read_target of
     None \<Rightarrow> (True, s)
   | Some (target, kind) \<Rightarrow> write_security_audit st env 1 (read_audit a target kind status) s)"

definition audit_unavailable :: http_response where
  "audit_unavailable = security_error 503 ''AUDIT_UNAVAILABLE'' ''Security audit is unavailable.'' []"

type_synonym 's application = "identity \<Rightarrow> 's api_state \<Rightarrow> http_response res \<times> 's api_state"

text \<open>The handler and the read audit after it.\<close>

definition call_audited ::
  "api_settings \<Rightarrow> api_env \<Rightarrow> auth_result \<Rightarrow> (uuid \<times> string) option \<Rightarrow> 's application \<Rightarrow> 's api_state \<Rightarrow> http_response res \<times> 's api_state" where
  "call_audited st env a read_target call_next s =
     (case call_next (ar_tenant_id a, ar_principal_id a) s of
        (Inl e, s1) \<Rightarrow> (Inl e, snd (audit_read st env a read_target 500 s1))
      | (Inr resp, s1) \<Rightarrow> (case audit_read st env a read_target (rp_status resp) s1 of
          (ok, s2) \<Rightarrow> (Inr (if ok then resp else audit_unavailable), s2)))"

text \<open>An authenticated request within its rate: the audit before the handler, unless the read leaves one after it.\<close>

definition serve_authenticated ::
  "api_settings \<Rightarrow> api_env \<Rightarrow> api_request \<Rightarrow> auth_result \<Rightarrow> 's application \<Rightarrow> 's api_state \<Rightarrow> http_response res \<times> 's api_state" where
  "serve_authenticated st env req a call_next s =
     (let read_target = sensitive_read_target (rq_method req) (rq_path req) in
      if auth_mode (ap_auth st) = ''api_key'' \<and> read_target = None
      then (case write_security_audit st env 0 (allowed_audit a) s of
        (ok, s1) \<Rightarrow> if \<not> ok then (Inr audit_unavailable, s1) else call_audited st env a read_target call_next s1)
      else call_audited st env a read_target call_next s)"

definition limit_rate ::
  "'s redis \<Rightarrow> api_settings \<Rightarrow> api_env \<Rightarrow> api_request \<Rightarrow> auth_result \<Rightarrow> 's application \<Rightarrow> 's api_state \<Rightarrow> http_response res \<times> 's api_state" where
  "limit_rate R st env req a call_next s =
     (if auth_mode (ap_auth st) \<noteq> ''api_key'' then serve_authenticated st env req a call_next s
      else (case (ar_principal_id a, ar_tenant_id a) of
        (Some p, Some t) \<Rightarrow>
          (case check_rate R (ap_rate_limit st) (ap_rate_window st) (ae_link env) p (at_redis s) of
            (Inl (RateLimitUnavailable m), r) \<Rightarrow>
              (Inr (security_error 503 ''RATE_LIMIT_UNAVAILABLE'' ''Request rate limiting is temporarily unavailable.'' []),
               snd (write_security_audit st env 0 (audit_of ''RATE_LIMIT'' ''ERROR'' ''RATE_LIMIT_UNAVAILABLE'' (Some t) (ar_fingerprint a)) (s\<lparr>at_redis := r\<rparr>)))
          | (Inl e, r) \<Rightarrow> (Inl e, s\<lparr>at_redis := r\<rparr>)
          | (Inr decision, r) \<Rightarrow>
              if \<not> rd_allowed decision
              then (Inr (security_error 429 ''RATE_LIMIT_EXCEEDED'' ''Request rate limit exceeded.'' [(''Retry-After'', show_int (rd_retry_after decision))]),
                    snd (write_security_audit st env 0 (audit_of ''RATE_LIMIT'' ''DENIED'' ''RATE_LIMIT_EXCEEDED'' (Some t) (ar_fingerprint a)) (s\<lparr>at_redis := r\<rparr>)))
              else serve_authenticated st env req a call_next (s\<lparr>at_redis := r\<rparr>))
      | _ \<Rightarrow> (Inl (RuntimeError ''Authenticated credential has no identity binding''), s)))"

definition deny :: "api_settings \<Rightarrow> api_env \<Rightarrow> auth_result \<Rightarrow> 's api_state \<Rightarrow> http_response res \<times> 's api_state" where
  "deny st env a s =
     (let why = (case ar_failure_code a of Some f \<Rightarrow> f | None \<Rightarrow> ''INVALID_CREDENTIAL'');
          status = (if ar_failure_code a = Some ''AUTHENTICATION_REQUIRED'' then 401 else 403)
      in (Inr (security_error status why (if status = 401 then ''Authentication is required.'' else ''Credential is not accepted.'') []),
          snd (write_security_audit st env 0 (audit_of ''AUTHENTICATION'' ''DENIED'' why None (ar_fingerprint a)) s)))"

definition client_ids_ok :: "string list \<Rightarrow> bool" where
  "client_ids_ok ids \<longleftrightarrow> length ids \<le> 1 \<and> list_all is_client_id ids"

definition enforce_security_boundary ::
  "'s redis \<Rightarrow> api_settings \<Rightarrow> api_env \<Rightarrow> api_request \<Rightarrow> 's application \<Rightarrow> 's api_state \<Rightarrow> http_response res \<times> 's api_state" where
  "enforce_security_boundary R st env req call_next s =
     (if (rq_method req, rq_path req) \<in> set PUBLIC_ENDPOINTS then call_next (None, None) s
      else if \<not> client_ids_ok (rq_client_ids req)
      then (Inr (security_error 422 ''INVALID_CLIENT_ID'' ''X-Client-Id must contain 1-128 URL-safe identity characters.'' []), s)
      else (case authenticate_api_key (ap_auth st) (ae_now env) (rq_api_key req) (rq_authorization req) of
        Inl e \<Rightarrow> (Inl e, s)
      | Inr a \<Rightarrow> if \<not> ar_authenticated a then deny st env a s else limit_rate R st env req a call_next s))"

text \<open>The whole application; an exception nothing handled is answered by \<open>internal_error_handler\<close>.\<close>

definition internal_error :: http_response where
  "internal_error = security_error 500 ''INTERNAL_ERROR'' ''An internal error occurred.'' []"

definition app_of :: "(json \<Rightarrow> bool) \<Rightarrow> api_settings \<Rightarrow> api_env \<Rightarrow> api_request \<Rightarrow> 's application" where
  "app_of schema_ok st env req who s =
     (case run_app schema_ok st (ae_ctx env) who (case rq_client_ids req of [] \<Rightarrow> None | x # _ \<Rightarrow> Some x) (rq_call req) (at_db s) of
        (out, d) \<Rightarrow> (out, s\<lparr>at_db := d\<rparr>))"

definition api_handle ::
  "(json \<Rightarrow> bool) \<Rightarrow> 's redis \<Rightarrow> api_settings \<Rightarrow> api_env \<Rightarrow> api_request \<Rightarrow> 's api_state \<Rightarrow> http_response \<times> 's api_state" where
  "api_handle schema_ok R st env req s =
     (case enforce_security_boundary R st env req (app_of schema_ok st env req) s of
        (Inr resp, s') \<Rightarrow> (resp, s')
      | (Inl e, s') \<Rightarrow> (internal_error, s'))"

section \<open>The caller's header does not matter\<close>

lemma required_client_id_key: "auth_mode (ap_auth st) = ''api_key'' \<Longrightarrow> required_client_id st who client = required_client_id st who client'"
  by (simp add: required_client_id_def)

lemma run_handler_client:
  assumes "auth_mode (ap_auth st) = ''api_key''"
  shows "run_handler schema_ok st c who client call d = run_handler schema_ok st c who client' call d"
  using required_client_id_key [OF assms, of who client client']
  by (cases call) (simp_all add: create_run_def get_run_handler_def page_handler_def get_attempts_handler_def
    get_events_handler_def get_evaluations_handler_def evaluate_run_def get_job_def replay_run_def split: option.split)

lemma run_app_client:
  assumes "auth_mode (ap_auth st) = ''api_key''"
  shows "run_app schema_ok st c who client call d = run_app schema_ok st c who client' call d"
  by (simp only: run_app_def run_handler_client [OF assms, of schema_ok c who client call d client'])

lemma app_of_client:
  assumes "auth_mode (ap_auth st) = ''api_key''"
  shows "app_of schema_ok st env (req\<lparr>rq_client_ids := ids\<rparr>) = app_of schema_ok st env (req\<lparr>rq_client_ids := ids'\<rparr>)"
  using run_app_client [OF assms, where client = "case ids of [] \<Rightarrow> None | x # _ \<Rightarrow> Some x" and client' = "case ids' of [] \<Rightarrow> None | x # _ \<Rightarrow> Some x"]
  by (intro ext) (simp add: app_of_def)

section \<open>What a handler does to the database\<close>

fun is_write :: "api_call \<Rightarrow> bool" where
  "is_write (Create_Run _ _ _) = True"
| "is_write (Evaluate_Run _ _) = True"
| "is_write (Run_Regression _ _) = True"
| "is_write (Replay_Run _ _) = True"
| "is_write _ = False"

lemma api_bind_Inr [simp]: "api_bind m f = Inr y \<longleftrightarrow> (\<exists>x. m = Inr x \<and> f x = Inr y)"
  by (cases m) auto

lemma lift_res_Inr [simp]: "lift_res m = Inr x \<longleftrightarrow> m = Inr x"
  by (cases m) auto

lemma submit_errors_Inr [simp]: "submit_errors k m = Inr x \<longleftrightarrow> m = Inr x"
  by (cases "(k, m)" rule: submit_errors.cases) (auto split: exn.splits if_splits)

lemma not_found_Inr [simp]: "not_found k m = Inr x \<longleftrightarrow> m = Inr x"
  by (cases "(k, m)" rule: not_found.cases) auto

lemma not_succeeded_Inr [simp]: "not_succeeded m = Inr x \<longleftrightarrow> m = Inr x"
  by (cases m rule: not_succeeded.cases) auto

lemma key_reused_Inr [simp]: "key_reused m = Inr x \<longleftrightarrow> m = Inr x"
  by (cases m rule: key_reused.cases) auto

text \<open>Reads leave the database alone, and a write is one committed transaction of the run service.\<close>

lemma run_handler_steps:
  assumes "run_handler schema_ok st c who client call d = Inr (resp, d')" "exec_quotas cfg = ap_quotas st"
  shows "if is_write call then svc_step cfg d d' else d' = d"
proof (cases call)
  case (Create_Run inp policy key)
  then show ?thesis
    using assms(1) by (auto simp: create_run_def simp flip: assms(2) split: option.splits intro: step_submit)
next
  case (Evaluate_Run i rules)
  then show ?thesis using assms(1) by (auto simp: evaluate_run_def simp flip: assms(2) intro: step_evaluate)
next
  case (Run_Regression g key)
  then show ?thesis
    using assms(1) by (auto simp: run_evaluation_regression_def submit_regression_def simp flip: assms(2) split: option.splits if_splits intro: step_submit)
next
  case (Replay_Run i key)
  then show ?thesis using assms(1) by (auto simp: replay_run_def simp flip: assms(2) split: option.splits intro: step_replay)
qed (use assms in \<open>auto simp: get_run_handler_def page_handler_def get_attempts_handler_def get_events_handler_def
  get_evaluations_handler_def get_job_def\<close>)

lemma run_app_steps:
  assumes "exec_quotas cfg = ap_quotas st"
  shows "snd (run_app schema_ok st c who client call d) = d \<or>
    is_write call \<and> svc_step cfg d (snd (run_app schema_ok st c who client call d))"
  using run_handler_steps [OF _ assms, of schema_ok c who client call d]
  by (auto simp: run_app_def split: sum.splits option.splits prod.splits if_splits)

section \<open>Passing the boundary\<close>

text \<open>What it takes for a request in key mode to be served.\<close>

definition admits :: "'s redis \<Rightarrow> api_settings \<Rightarrow> api_env \<Rightarrow> credential \<Rightarrow> 's \<Rightarrow> 's \<Rightarrow> bool" where
  "admits R st env r red red' \<longleftrightarrow> r \<in> set (auth_credentials (ap_auth st)) \<and> is_active_credential (ae_now env) r \<and>
     (\<exists>dec. check_rate R (ap_rate_limit st) (ap_rate_window st) (ae_link env) (cr_principal_id r) red = (Inr dec, red') \<and> rd_allowed dec)"

lemma authenticated_record:
  assumes "authenticate_api_key st now x_api_key authorization = Inr a" "ar_authenticated a" "auth_mode st = ''api_key''"
  obtains r where "r \<in> set (auth_credentials st)" "is_active_credential now r" "a = grant (fingerprint r) r"
proof -
  obtain raw where "verify_credential st now raw = Inr a"
    using assms by (auto simp: authenticate_api_key_def auth_failure_def split: option.splits)
  then show ?thesis
  proof (cases rule: verify_credential_cases)
    case 1
    then show ?thesis using assms(2) by (simp add: auth_failure_def)
  qed (use that in blast)
qed

lemma audit_keeps_db: "at_db (snd (write_security_audit st env k a s)) = at_db s"
  by (simp add: write_security_audit_def Let_def split: audit_io.split)

text \<open>The boundary itself writes nothing to the database.\<close>

lemma boundary_keeps_db:
  assumes next_keeps: "\<And>who s1. at_db (snd (next who s1)) = at_db s1"
  shows "at_db (snd (enforce_security_boundary R st env req next s)) = at_db s"
proof -
  have read: "at_db (snd (audit_read st env a t status s1)) = at_db s1" for a t status s1
    by (simp add: audit_read_def audit_keeps_db split: option.split)
  have called: "at_db (snd (call_audited st env a t next s1)) = at_db s1" for a t s1
  proof -
    obtain out s2 where n: "next (ar_tenant_id a, ar_principal_id a) s1 = (out, s2)" by fastforce
    then have s2: "at_db s2 = at_db s1" using next_keeps [of "(ar_tenant_id a, ar_principal_id a)" s1] by simp
    show ?thesis
    proof (cases out)
      case (Inr resp)
      obtain ok s3 where "audit_read st env a t (rp_status resp) s2 = (ok, s3)" by fastforce
      then show ?thesis using read [of a t "rp_status resp" s2] n Inr s2 by (simp add: call_audited_def)
    qed (use n s2 read [of a t 500 s2] in \<open>simp add: call_audited_def\<close>)
  qed
  have served: "at_db (snd (serve_authenticated st env req a next s1)) = at_db s1" for a s1
  proof -
    obtain ok s2 where "write_security_audit st env 0 (allowed_audit a) s1 = (ok, s2)" by fastforce
    then show ?thesis
      using called [of a] audit_keeps_db [of st env 0 "allowed_audit a" s1] by (simp add: serve_authenticated_def Let_def)
  qed
  have "at_db (snd (limit_rate R st env req a next s)) = at_db s" for a
  proof (cases "auth_mode (ap_auth st) = ''api_key'' \<and> ar_principal_id a \<noteq> None \<and> ar_tenant_id a \<noteq> None")
    case True
    then obtain p t where id: "ar_principal_id a = Some p" "ar_tenant_id a = Some t" by blast
    obtain d red where c: "check_rate R (ap_rate_limit st) (ap_rate_window st) (ae_link env) p (at_redis s) = (d, red)" by fastforce
    show ?thesis
    proof (cases d)
      case (Inl e)
      then show ?thesis using c True id by (cases e) (simp_all add: limit_rate_def audit_keeps_db)
    qed (use c True id served in \<open>simp add: limit_rate_def audit_keeps_db\<close>)
  qed (use served in \<open>auto simp: limit_rate_def split: option.split\<close>)
  then show ?thesis
    using next_keeps by (simp add: enforce_security_boundary_def deny_def audit_keeps_db Let_def split: sum.split)
qed

text \<open>A request is answered with an error and without touching the database, or it is served for an admitted record.\<close>

lemma limit_rate_cases:
  assumes "limit_rate R st env req (grant fp r) next s = (out, s')" "auth_mode (ap_auth st) = ''api_key''"
    and "r \<in> set (auth_credentials (ap_auth st))" "is_active_credential (ae_now env) r"
  obtains (refused) "at_db s' = at_db s" "\<And>resp. out = Inr resp \<Longrightarrow> 400 \<le> rp_status resp"
  | (served) red where "admits R st env r (at_redis s) red"
      "serve_authenticated st env req (grant fp r) next (s\<lparr>at_redis := red\<rparr>) = (out, s')"
proof -
  obtain d red where c: "check_rate R (ap_rate_limit st) (ap_rate_window st) (ae_link env) (cr_principal_id r) (at_redis s) = (d, red)" by fastforce
  show ?thesis
  proof (cases d)
    case (Inl e)
    then have "at_db s' = at_db s \<and> (\<forall>resp. out = Inr resp \<longrightarrow> 400 \<le> rp_status resp)"
      using assms(1,2) c by (cases e) (auto simp: limit_rate_def grant_def security_error_def audit_keeps_db)
    then show ?thesis using refused by blast
  next
    case (Inr dec)
    show ?thesis
    proof (cases "rd_allowed dec")
      case True
      then have "admits R st env r (at_redis s) red" using assms(3,4) c Inr by (auto simp: admits_def)
      then show ?thesis using served assms(1,2) c Inr True by (simp add: limit_rate_def grant_def)
    next
      case False
      then show ?thesis using refused assms(1,2) c Inr by (auto simp: limit_rate_def grant_def security_error_def audit_keeps_db)
    qed
  qed
qed

lemma boundary_cases:
  assumes "api_handle schema_ok R st env req s = (resp, s')" "auth_mode (ap_auth st) = ''api_key''"
    and "(rq_method req, rq_path req) \<notin> set PUBLIC_ENDPOINTS"
  obtains (refused) "at_db s' = at_db s" "400 \<le> rp_status resp"
  | (served) r red out where "admits R st env r (at_redis s) red"
      "serve_authenticated st env req (grant (fingerprint r) r) (app_of schema_ok st env req) (s\<lparr>at_redis := red\<rparr>) = (out, s')"
      "resp = (case out of Inr x \<Rightarrow> x | Inl _ \<Rightarrow> internal_error)"
proof -
  let ?next = "app_of schema_ok st env req"
  obtain out where out: "enforce_security_boundary R st env req ?next s = (out, s')"
    and resp: "resp = (case out of Inr x \<Rightarrow> x | Inl _ \<Rightarrow> internal_error)"
    using assms(1) by (auto simp: api_handle_def split: prod.splits sum.splits)
  have ierr: "400 \<le> rp_status internal_error" by (simp add: internal_error_def security_error_def)
  show ?thesis
  proof (cases "client_ids_ok (rq_client_ids req)")
    case False
    then show ?thesis using refused out assms(3) resp by (auto simp: enforce_security_boundary_def security_error_def)
  next
    case ids: True
    show ?thesis
    proof (cases "authenticate_api_key (ap_auth st) (ae_now env) (rq_api_key req) (rq_authorization req)")
      case (Inl e)
      then show ?thesis using refused out assms(3) resp ids ierr by (auto simp: enforce_security_boundary_def)
    next
      case (Inr a)
      show ?thesis
      proof (cases "ar_authenticated a")
        case False
        then show ?thesis using refused out assms(3) resp ids Inr
          by (auto simp: enforce_security_boundary_def deny_def security_error_def audit_keeps_db Let_def)
      next
        case True
        then obtain r where r: "r \<in> set (auth_credentials (ap_auth st))" "is_active_credential (ae_now env) r" "a = grant (fingerprint r) r"
          using authenticated_record [OF Inr _ assms(2)] by blast
        then have "limit_rate R st env req (grant (fingerprint r) r) ?next s = (out, s')"
          using out assms(3) ids Inr True by (simp add: enforce_security_boundary_def)
        then show ?thesis using assms(2) r(1,2)
          by (cases rule: limit_rate_cases) (use refused served resp ierr in \<open>auto split: sum.splits\<close>)
      qed
    qed
  qed
qed

text \<open>The two ways a served request is audited: before its handler, or after a sensitive read.\<close>

lemma serve_audited_before:
  assumes "serve_authenticated st env req a next s = (out, s')" "auth_mode (ap_auth st) = ''api_key''"
    and "sensitive_read_target (rq_method req) (rq_path req) = None"
  obtains (withheld) "at_db s' = at_db s"
  | (called) s1 where "at_db s1 = at_db s" "next (ar_tenant_id a, ar_principal_id a) s1 = (out, s')"
      "ap_fail_open st \<or> at_audit s1 = record_audit (ae_audit_id env 0) (ae_audit_time env 0) (allowed_audit a) (at_audit s)"
proof -
  obtain ok s1 where w: "write_security_audit st env 0 (allowed_audit a) s = (ok, s1)" by fastforce
  have db: "at_db s1 = at_db s" using audit_keeps_db [of st env 0 "allowed_audit a" s] w by simp
  show ?thesis
  proof (cases ok)
    case False
    then show ?thesis using withheld assms w db by (simp add: serve_authenticated_def)
  next
    case True
    then have "call_audited st env a None next s1 = (out, s')" using assms w by (simp add: serve_authenticated_def)
    then have "next (ar_tenant_id a, ar_principal_id a) s1 = (out, s')"
      by (auto simp: call_audited_def audit_read_def split: prod.splits sum.splits)
    moreover have "ap_fail_open st \<or> at_audit s1 = record_audit (ae_audit_id env 0) (ae_audit_time env 0) (allowed_audit a) (at_audit s)"
      using w True by (auto simp: write_security_audit_def Let_def split: audit_io.splits)
    ultimately show ?thesis using called db by blast
  qed
qed

lemma serve_audited_after:
  assumes "serve_authenticated st env req a next s = (out, s')"
    and "sensitive_read_target (rq_method req) (rq_path req) = Some (target, kind)" "\<not> ap_fail_open st" "out = Inr resp" "rp_status resp < 400"
  obtains s1 where "next (ar_tenant_id a, ar_principal_id a) s = (out, s1)"
    "at_audit s' = record_audit (ae_audit_id env 1) (ae_audit_time env 1) (read_audit a target kind (rp_status resp)) (at_audit s1)"
proof -
  obtain out1 s1 where n: "next (ar_tenant_id a, ar_principal_id a) s = (out1, s1)" by fastforce
  have called: "call_audited st env a (Some (target, kind)) next s = (out, s')" using assms(1,2) by (simp add: serve_authenticated_def)
  then obtain resp1 where o: "out1 = Inr resp1" using n assms(4) by (cases out1) (simp_all add: call_audited_def)
  obtain ok s2 where w: "write_security_audit st env 1 (read_audit a target kind (rp_status resp1)) s1 = (ok, s2)" by fastforce
  have e: "resp = (if ok then resp1 else audit_unavailable)" "s' = s2"
    using called n o w assms(4) by (auto simp: call_audited_def audit_read_def)
  have ok using e(1) assms(5) by (auto simp: audit_unavailable_def security_error_def split: if_splits)
  then have "ae_audit env 1 = Stored" using w assms(3) by (auto simp: write_security_audit_def Let_def split: audit_io.splits)
  then have "at_audit s' = record_audit (ae_audit_id env 1) (ae_audit_time env 1) (read_audit a target kind (rp_status resp)) (at_audit s1)"
    using w e \<open>ok\<close> by (auto simp: write_security_audit_def Let_def)
  then show ?thesis using that n o e(1) \<open>ok\<close> assms(4) by simp
qed

lemma app_of_effect:
  "app_of schema_ok st env req who s = (out, s') \<Longrightarrow>
    at_audit s' = at_audit s \<and> at_db s' = snd (run_app schema_ok st (ae_ctx env) who (case rq_client_ids req of [] \<Rightarrow> None | x # _ \<Rightarrow> Some x) (rq_call req) (at_db s))"
  by (auto simp: app_of_def split: prod.splits)

lemma grant_simps [simp]:
  "ar_tenant_id (grant fp r) = Some (cr_tenant_id r)" "ar_principal_id (grant fp r) = Some (cr_principal_id r)"
  "ar_fingerprint (grant fp r) = Some fp" "ar_authenticated (grant fp r)"
  by (simp_all add: grant_def)

section \<open>Properties\<close>

text \<open>A deployment in key mode, its surroundings and a request to apply the properties to.\<close>

definition sample_api :: api_settings where
  "sample_api = \<lparr>ap_auth = \<lparr>auth_mode = ''api_key'', auth_credentials = [sample_record], auth_pepper = Some sample_pepper\<rparr>,
     ap_quotas = default_quotas, ap_policy = \<lparr>lim_max_attempts = 3, lim_attempt_timeout = 60,
       lim_initial_backoff = 1, lim_max_backoff = 60, lim_available = None, lim_max_output_tokens = 2048\<rparr>, ap_job_timeout = 60, ap_openai_key = False, ap_max_cases = 10,
     ap_call_budget = 20, ap_rate_limit = 60, ap_rate_window = 60, ap_fail_open = False\<rparr>"

definition sample_api_env :: api_env where
  "sample_api_env = \<lparr>ae_ctx = sample_ctx, ae_now = 0, ae_link = Replied, ae_audit = (\<lambda>_. Stored), ae_audit_id = of_nat, ae_audit_time = (\<lambda>_. 0)\<rparr>"

definition sample_request :: api_request where
  "sample_request = \<lparr>rq_method = ''GET'', rq_path = ''/v1/runs/00000000-0000-0000-0000-000000000001'', rq_client_ids = [],
     rq_api_key = Some ''guess'', rq_authorization = None, rq_call = Get_Run 1\<rparr>"

definition sample_submission :: api_request where
  "sample_submission = \<lparr>rq_method = ''POST'', rq_path = ''/v1/runs'', rq_client_ids = [], rq_api_key = Some ''guess'',
     rq_authorization = None, rq_call = Create_Run [(''prompt'', JStr ''hi'')] [] (Some ''order-0001'')\<rparr>"

definition sample_api_state :: "(string \<Rightarrow> int \<times> int) api_state" where
  "sample_api_state = \<lparr>at_redis = (\<lambda>_. (0, -1)), at_audit = [], at_db = empty_db\<rparr>"


text \<open>
  C19. A caller cannot choose its tenant: in key mode the answer to a request and everything it changes are
  the same whatever well-formed client header it carries.
\<close>

theorem caller_header_is_irrelevant:
  assumes "auth_mode (ap_auth st) = ''api_key''" "client_ids_ok ids" "client_ids_ok ids'"
  shows "api_handle schema_ok R st env (req\<lparr>rq_client_ids := ids\<rparr>) s = api_handle schema_ok R st env (req\<lparr>rq_client_ids := ids'\<rparr>) s"
proof -
  have serve: "serve_authenticated st env (req\<lparr>rq_client_ids := ids\<rparr>) a app s1 = serve_authenticated st env (req\<lparr>rq_client_ids := ids'\<rparr>) a app s1" for a app s1
    by (simp add: serve_authenticated_def)
  have "limit_rate R st env (req\<lparr>rq_client_ids := ids\<rparr>) a app s = limit_rate R st env (req\<lparr>rq_client_ids := ids'\<rparr>) a app s" for a app
    unfolding limit_rate_def serve ..
  then have "enforce_security_boundary R st env (req\<lparr>rq_client_ids := ids\<rparr>) app s =
      enforce_security_boundary R st env (req\<lparr>rq_client_ids := ids'\<rparr>) app s" for app
    using assms(2,3) by (simp add: enforce_security_boundary_def split: sum.split)
  then show ?thesis by (simp only: api_handle_def app_of_client [OF assms(1), where ids = ids and ids' = ids'])
qed

theorem caller_header_is_irrelevant_witness:
  "api_handle (\<lambda>_. True) sample_redis sample_api sample_api_env (sample_request\<lparr>rq_client_ids := [''acme'']\<rparr>) sample_api_state =
   api_handle (\<lambda>_. True) sample_redis sample_api sample_api_env (sample_request\<lparr>rq_client_ids := []\<rparr>) sample_api_state"
proof -
  have "client_ids_ok [''acme'']" "client_ids_ok []" by code_simp+
  then show ?thesis by (intro caller_header_is_irrelevant) (simp_all add: sample_api_def)
qed



text \<open>
  C21. No sensitive read goes unrecorded: in key mode, unless the deployment fails open, a read of a run, a job
  or one of its histories is answered with an error or leaves an audit row of its own that names the active record's
  principal and tenant, the run and the resource.
\<close>

theorem sensitive_reads_are_audited:
  assumes "api_handle schema_ok R st env req s = (resp, s')" "auth_mode (ap_auth st) = ''api_key''" "\<not> ap_fail_open st"
    and "sensitive_read_target (rq_method req) (rq_path req) = Some (target, kind)"
  shows "400 \<le> rp_status resp \<or>
    (\<exists>r red. admits R st env r (at_redis s) red \<and>
      at_audit s' = record_audit (ae_audit_id env 1) (ae_audit_time env 1) (read_audit (grant (fingerprint r) r) target kind (rp_status resp)) (at_audit s))"
proof (cases "400 \<le> rp_status resp")
  case False
  have "(rq_method req, rq_path req) \<notin> set PUBLIC_ENDPOINTS" using assms(4) by (auto simp: PUBLIC_ENDPOINTS_def sensitive_read_target_def Let_def)
  with assms(1,2) show ?thesis
  proof (cases rule: boundary_cases)
    case (served r red out)
    have out: "out = Inr resp" using served(3) False by (cases out) (simp_all add: internal_error_def security_error_def)
    obtain s1 where s1: "app_of schema_ok st env req (Some (cr_tenant_id r), Some (cr_principal_id r)) (s\<lparr>at_redis := red\<rparr>) = (out, s1)"
      "at_audit s' = record_audit (ae_audit_id env 1) (ae_audit_time env 1) (read_audit (grant (fingerprint r) r) target kind (rp_status resp)) (at_audit s1)"
      using serve_audited_after [OF served(2) assms(4,3) out] False by auto
    then show ?thesis using served(1) app_of_effect [OF s1(1)] by auto
  qed (use False in simp)
qed simp

theorem sensitive_reads_are_audited_witness:
  "\<exists>resp s'. api_handle (\<lambda>_. True) sample_redis sample_api sample_api_env sample_request sample_api_state = (resp, s') \<and>
    (400 \<le> rp_status resp \<or> (\<exists>r red. admits sample_redis sample_api sample_api_env r (at_redis sample_api_state) red))"
proof -
  obtain resp s' where out: "api_handle (\<lambda>_. True) sample_redis sample_api sample_api_env sample_request sample_api_state = (resp, s')"
    by fastforce
  have "sensitive_read_target (rq_method sample_request) (rq_path sample_request) = Some (1, ''run'')" by code_simp
  then show ?thesis using sensitive_reads_are_audited [OF out] out by (auto simp: sample_api_def)
qed

text \<open>A read whose identifier is written without hyphens is served all the same but not recognised as sensitive.\<close>

lemma unhyphenated_read_not_recognised:
  "sensitive_read_target ''GET'' (''/v1/runs/'' @ ''00000000000000000000000000000001'') = None"
  by code_simp

end
