(* ===== verification/Client_Sdk.thy ===== *)
theory Client_Sdk
  imports Py_Json_Parse Py_Uuid Run_States Api_Handlers
begin

text \<open>
  The synchronous client of \<open>client.py\<close>: requests, the reading of responses, and polling for a terminal run. The
  exchange of one request (httpx, the network and the server) is an argument over a state of its own; the clock
  readings of \<open>wait_for_terminal\<close> are one too.
\<close>

section \<open>Errors, requests and replies\<close>

datatype client_exn =
    TransportError string
  | ClientApiError int string string
  | ClientValueError string
  | ClientTimeout string

type_synonym 'a client = "client_exn + 'a"

fun client_bind :: "'a client \<Rightarrow> ('a \<Rightarrow> 'b client) \<Rightarrow> 'b client" where
  "client_bind (Inl e) f = Inl e"
| "client_bind (Inr x) f = f x"

record sdk_request =
  sq_method :: string
  sq_url :: string
  sq_headers :: "(string \<times> string) list"
  sq_json :: "json option"

datatype sdk_reply = No_Reply | Reply int string "(string \<times> string) list"

type_synonym 's exchange = "sdk_request \<Rightarrow> 's \<Rightarrow> sdk_reply \<times> 's"

record sdk_client =
  sdk_base_url :: string
  sdk_client_id :: string
  sdk_api_key :: "string option"

definition AgentRuntimeClient :: "string \<Rightarrow> string \<Rightarrow> string option \<Rightarrow> rat \<Rightarrow> sdk_client client" where
  "AgentRuntimeClient base_url client_id api_key timeout_seconds =
     (if strip client_id = [] then Inl (ClientValueError ''client_id must be a non-empty string'')
      else if timeout_seconds \<le> 0 then Inl (ClientValueError ''timeout_seconds must be positive'')
      else Inr \<lparr>sdk_base_url = rev (dropWhile (\<lambda>c. c = CHR ''/'') (rev base_url)), sdk_client_id = client_id, sdk_api_key = api_key\<rparr>)"

definition TERMINAL_STATUSES :: "string list" where
  "TERMINAL_STATUSES = [''SUCCEEDED'', ''FAILED'', ''DEAD_LETTERED'']"

record submitted_run =
  sub_run_id :: uuid
  sub_execution_status :: string
  sub_replayed :: bool
  sub_idempotency_key :: string
  sub_routing_decision :: "dict option"

record run_details =
  rd_run_id :: uuid
  rd_execution_status :: string
  rd_evaluation_status :: string
  rd_error_code :: "string option"
  rd_routing_decision :: "dict option"
  rd_raw :: dict

definition is_terminal :: "run_details \<Rightarrow> bool" where
  "is_terminal run \<longleftrightarrow> rd_execution_status run \<in> set TERMINAL_STATUSES"

record replayed_run =
  rep_run_id :: uuid
  rep_execution_status :: string
  rep_replay_of :: uuid
  rep_replayed :: bool
  rep_idempotency_key :: string

record history =
  hp_items :: "dict list"
  hp_next_cursor :: "string option"

section \<open>Reading fields\<close>

definition string_field :: "dict \<Rightarrow> string \<Rightarrow> string client" where
  "string_field payload fld = (case dget payload fld of
     Some (JStr s) \<Rightarrow> Inr s
   | _ \<Rightarrow> Inl (TransportError (''API response was missing string '' @ fld)))"

definition uuid_field :: "dict \<Rightarrow> string \<Rightarrow> uuid client" where
  "uuid_field payload fld = client_bind (string_field payload fld) (\<lambda>s. case UUID s of
     Inr u \<Rightarrow> Inr u
   | Inl _ \<Rightarrow> Inl (TransportError (''API response had an invalid '' @ fld)))"

definition boolean_field :: "dict \<Rightarrow> string \<Rightarrow> bool client" where
  "boolean_field payload fld = (case dget payload fld of
     Some (JBool b) \<Rightarrow> Inr b
   | _ \<Rightarrow> Inl (TransportError (''API response was missing boolean '' @ fld)))"

definition optional_string :: "dict \<Rightarrow> string \<Rightarrow> string option client" where
  "optional_string payload fld = (case dget payload fld of
     None \<Rightarrow> Inr None
   | Some JNull \<Rightarrow> Inr None
   | Some (JStr s) \<Rightarrow> Inr (Some s)
   | _ \<Rightarrow> Inl (TransportError (''API response had invalid '' @ fld)))"

definition optional_object :: "dict \<Rightarrow> string \<Rightarrow> dict option client" where
  "optional_object payload fld = (case dget payload fld of
     None \<Rightarrow> Inr None
   | Some JNull \<Rightarrow> Inr None
   | Some (JDict d) \<Rightarrow> Inr (Some d)
   | _ \<Rightarrow> Inl (TransportError (''API response had invalid '' @ fld)))"

section \<open>Requests\<close>

definition api_error :: "int \<Rightarrow> string \<Rightarrow> client_exn" where
  "api_error status body =
     (let error = (case loads body of Inr (JDict payload) \<Rightarrow> (case dget payload ''error'' of Some (JDict e) \<Rightarrow> e | _ \<Rightarrow> []) | _ \<Rightarrow> [])
      in ClientApiError status (case dget error ''code'' of Some (JStr c) \<Rightarrow> c | _ \<Rightarrow> ''HTTP_ERROR'')
           (case dget error ''message'' of Some (JStr m) \<Rightarrow> m | _ \<Rightarrow> ''API request failed''))"

text \<open>\<open>request_headers.update\<close> keeps the position of a header it replaces.\<close>

definition send ::
  "'s exchange \<Rightarrow> sdk_client \<Rightarrow> string \<Rightarrow> string \<Rightarrow> (string \<times> string) list \<Rightarrow> json option \<Rightarrow> 's \<Rightarrow>
    (string \<times> (string \<times> string) list) client \<times> 's" where
  "send io cl method path headers body s =
     (let own = (''X-Client-Id'', sdk_client_id cl) # (case sdk_api_key cl of None \<Rightarrow> [] | Some k \<Rightarrow> [(''X-API-Key'', k)]);
          all = fold (\<lambda>(k, v) hs. AList.update k v hs) headers own
      in case io \<lparr>sq_method = method, sq_url = sdk_base_url cl @ path, sq_headers = all, sq_json = body\<rparr> s of
           (No_Reply, s') \<Rightarrow> (Inl (TransportError ''API request could not be completed''), s')
         | (Reply status text hs, s') \<Rightarrow>
             (if 400 \<le> status \<and> status \<le> 599 then Inl (api_error status text) else Inr (text, hs), s'))"

definition read_object :: "string \<Rightarrow> dict client" where
  "read_object text = (case loads text of
     Inl _ \<Rightarrow> Inl (TransportError ''API response was not JSON'')
   | Inr (JDict payload) \<Rightarrow> Inr payload
   | Inr _ \<Rightarrow> Inl (TransportError ''API response was not an object''))"

fun all_objects :: "json list \<Rightarrow> dict list option" where
  "all_objects [] = Some []"
| "all_objects (JDict d # vs) = map_option (\<lambda>ds. d # ds) (all_objects vs)"
| "all_objects _ = None"

definition read_object_list :: "string \<Rightarrow> dict list client" where
  "read_object_list text = (case loads text of
     Inl _ \<Rightarrow> Inl (TransportError ''API response was not JSON'')
   | Inr (JList vs) \<Rightarrow> (case all_objects vs of Some ds \<Rightarrow> Inr ds | None \<Rightarrow> Inl (TransportError ''API response was not an object list''))
   | Inr _ \<Rightarrow> Inl (TransportError ''API response was not an object list''))"

definition request ::
  "'s exchange \<Rightarrow> sdk_client \<Rightarrow> string \<Rightarrow> string \<Rightarrow> (string \<times> string) list \<Rightarrow> json option \<Rightarrow> 's \<Rightarrow> dict client \<times> 's" where
  "request io cl method path headers body s = (case send io cl method path headers body s of
     (out, s') \<Rightarrow> (client_bind out (\<lambda>(text, _). read_object text), s'))"

definition request_list :: "'s exchange \<Rightarrow> sdk_client \<Rightarrow> string \<Rightarrow> string \<Rightarrow> 's \<Rightarrow> dict list client \<times> 's" where
  "request_list io cl method path s = (case send io cl method path [] None s of
     (out, s') \<Rightarrow> (client_bind out (\<lambda>(text, _). read_object_list text), s'))"

section \<open>Operations\<close>

definition sdk_healthz :: "'s exchange \<Rightarrow> sdk_client \<Rightarrow> 's \<Rightarrow> (string \<times> string) list client \<times> 's" where
  "sdk_healthz io cl s = (case request io cl ''GET'' ''/healthz'' [] None s of
     (out, s') \<Rightarrow> (client_bind out (\<lambda>payload. Inr (concat (map (\<lambda>(k, v). case v of JStr t \<Rightarrow> [(k, t)] | _ \<Rightarrow> []) payload))), s'))"

text \<open>The generated key is an argument: the hexadecimal digits of \<open>uuid4\<close>.\<close>

definition sdk_run ::
  "'s exchange \<Rightarrow> sdk_client \<Rightarrow> uuid \<Rightarrow> dict \<Rightarrow> dict \<Rightarrow> string option \<Rightarrow> 's \<Rightarrow> submitted_run client \<times> 's" where
  "sdk_run io cl fresh inp policy key s =
     (let k = (case key of Some x \<Rightarrow> if x = [] then ''sdk-'' @ uuid_hex fresh else x | None \<Rightarrow> ''sdk-'' @ uuid_hex fresh)
      in case request io cl ''POST'' ''/v1/runs'' [(''Idempotency-Key'', k)]
             (Some (JDict [(''input'', JDict inp), (''policy'', JDict policy)])) s of
        (out, s') \<Rightarrow> (client_bind out (\<lambda>payload.
          client_bind (uuid_field payload ''run_id'') (\<lambda>i.
          client_bind (string_field payload ''execution_status'') (\<lambda>status.
          client_bind (boolean_field payload ''replayed'') (\<lambda>replayed.
          client_bind (optional_object payload ''routing_decision'') (\<lambda>routing.
            Inr \<lparr>sub_run_id = i, sub_execution_status = status, sub_replayed = replayed, sub_idempotency_key = k,
                 sub_routing_decision = routing\<rparr>))))), s'))"

definition read_run :: "dict \<Rightarrow> run_details client" where
  "read_run payload =
     client_bind (uuid_field payload ''run_id'') (\<lambda>i.
     client_bind (string_field payload ''execution_status'') (\<lambda>status.
     client_bind (string_field payload ''evaluation_status'') (\<lambda>evaluation.
     client_bind (optional_string payload ''error_code'') (\<lambda>error.
     client_bind (optional_object payload ''routing_decision'') (\<lambda>routing.
       Inr \<lparr>rd_run_id = i, rd_execution_status = status, rd_evaluation_status = evaluation, rd_error_code = error,
            rd_routing_decision = routing, rd_raw = payload\<rparr>)))))"

definition sdk_get_run :: "'s exchange \<Rightarrow> sdk_client \<Rightarrow> string \<Rightarrow> 's \<Rightarrow> run_details client \<times> 's" where
  "sdk_get_run io cl run_id s = (case request io cl ''GET'' (''/v1/runs/'' @ run_id) [] None s of
     (out, s') \<Rightarrow> (client_bind out read_run, s'))"

definition sdk_get_attempts :: "'s exchange \<Rightarrow> sdk_client \<Rightarrow> string \<Rightarrow> 's \<Rightarrow> dict list client \<times> 's" where
  "sdk_get_attempts io cl run_id s = request_list io cl ''GET'' (''/v1/runs/'' @ run_id @ ''/attempts'') s"

definition sdk_get_events :: "'s exchange \<Rightarrow> sdk_client \<Rightarrow> string \<Rightarrow> 's \<Rightarrow> dict list client \<times> 's" where
  "sdk_get_events io cl run_id s = request_list io cl ''GET'' (''/v1/runs/'' @ run_id @ ''/events'') s"

definition get_history_page ::
  "'s exchange \<Rightarrow> sdk_client \<Rightarrow> string \<Rightarrow> string \<Rightarrow> int \<Rightarrow> string option \<Rightarrow> 's \<Rightarrow> history client \<times> 's" where
  "get_history_page io cl run_id resource limit cursor s =
     (if resource \<notin> {''attempts'', ''events'', ''evaluations''} then (Inl (ClientValueError ''Unsupported history resource''), s)
      else if \<not> (1 \<le> limit \<and> limit \<le> 100) then (Inl (ClientValueError ''limit must be between 1 and 100''), s)
      else (case (case cursor of None \<Rightarrow> Inr [] | Some c \<Rightarrow> res_bind (UUID c) (\<lambda>u. Inr (''&cursor='' @ uuid_str u))) of
        Inl e \<Rightarrow> (Inl (ClientValueError (exn_text e)), s)
      | Inr suffix \<Rightarrow>
          (case send io cl ''GET'' (''/v1/runs/'' @ run_id @ ''/'' @ resource @ ''?limit='' @ show_int limit @ suffix) [] None s of
            (out, s') \<Rightarrow> (client_bind out (\<lambda>(text, hs). client_bind (read_object_list text) (\<lambda>items.
              Inr \<lparr>hp_items = items, hp_next_cursor = map_of hs ''X-Next-Cursor''\<rparr>)), s'))))"

definition sdk_get_job :: "'s exchange \<Rightarrow> sdk_client \<Rightarrow> string \<Rightarrow> 's \<Rightarrow> dict client \<times> 's" where
  "sdk_get_job io cl job_id s = request io cl ''GET'' (''/v1/jobs/'' @ job_id) [] None s"

definition sdk_replay :: "'s exchange \<Rightarrow> sdk_client \<Rightarrow> uuid \<Rightarrow> string \<Rightarrow> string option \<Rightarrow> 's \<Rightarrow> replayed_run client \<times> 's" where
  "sdk_replay io cl fresh run_id key s =
     (let generated = ''sdk-replay-'' @ uuid_hex fresh;
          k = (case key of Some x \<Rightarrow> if x = [] then generated else x | None \<Rightarrow> generated)
      in case request io cl ''POST'' (''/v1/runs/'' @ run_id @ ''/replay'') [(''Idempotency-Key'', k)] None s of
        (out, s') \<Rightarrow> (client_bind out (\<lambda>payload.
          client_bind (uuid_field payload ''run_id'') (\<lambda>i.
          client_bind (string_field payload ''execution_status'') (\<lambda>status.
          client_bind (uuid_field payload ''replay_of_run_id'') (\<lambda>source.
          client_bind (boolean_field payload ''replayed'') (\<lambda>replayed.
            Inr \<lparr>rep_run_id = i, rep_execution_status = status, rep_replay_of = source, rep_replayed = replayed,
                 rep_idempotency_key = k\<rparr>))))), s'))"

section \<open>Polling\<close>

text \<open>
  The loop of \<open>wait_for_terminal\<close>: poll \<open>k\<close> compares the reading \<open>clock (2 k)\<close> with the deadline; the reading after
  it only sizes the pause. A wait that never ends has the value \<open>None\<close>.
\<close>

partial_function (option) wait_loop ::
  "'s exchange \<Rightarrow> sdk_client \<Rightarrow> string \<Rightarrow> string \<Rightarrow> rat \<Rightarrow> (nat \<Rightarrow> rat) \<Rightarrow> nat \<Rightarrow> 's \<Rightarrow> (run_details client \<times> 's) option" where
  "wait_loop io cl run_id late deadline clock k s =
     (case sdk_get_run io cl run_id s of
        (Inl e, s') \<Rightarrow> Some (Inl e, s')
      | (Inr run, s') \<Rightarrow>
          if is_terminal run then Some (Inr run, s')
          else if deadline \<le> clock (2 * k) then Some (Inl (ClientTimeout late), s')
          else wait_loop io cl run_id late deadline clock (k + 1) s')"

definition wait_for_terminal ::
  "'s exchange \<Rightarrow> sdk_client \<Rightarrow> string \<Rightarrow> rat \<Rightarrow> rat \<Rightarrow> rat \<Rightarrow> (nat \<Rightarrow> rat) \<Rightarrow> 's \<Rightarrow> (run_details client \<times> 's) option" where
  "wait_for_terminal io cl run_id timeout_seconds poll_seconds started clock s =
     (if timeout_seconds \<le> 0 \<or> poll_seconds \<le> 0
      then Some (Inl (ClientValueError ''timeout_seconds and poll_seconds must be positive''), s)
      else wait_loop io cl run_id (''Run '' @ run_id @ '' did not reach a terminal state in '' @ float_repr timeout_seconds @ ''s'')
        (fl (started + timeout_seconds)) clock 0 s)"

section \<open>What the client makes of the API's answers\<close>

text \<open>The object a run response is serialised to; the text of a moment is the serialiser's.\<close>

definition run_json :: "(time \<Rightarrow> string) \<Rightarrow> run_response \<Rightarrow> dict" where
  "run_json moment r =
     [(''run_id'', JStr (uuid_str (rr_run_id r))), (''execution_status'', JStr (execution_status_value (rr_execution_status r))),
      (''evaluation_status'', JStr (evaluation_status_value (rr_evaluation_status r))), (''created_at'', JStr (moment (rr_created_at r))),
      (''started_at'', jstr_opt (map_option moment (rr_started_at r))), (''completed_at'', jstr_opt (map_option moment (rr_completed_at r))),
      (''replay_of_run_id'', jstr_opt (map_option uuid_str (rr_replay_of r))), (''error_code'', jstr_opt (rr_error_code r)),
      (''routing_decision'', jopt (map_option JDict (rr_routing_decision r)))]"

lemma plain_opt: "plain (jstr_opt x)"
  by (cases x) (simp_all add: jstr_opt_def plain_null plain_str)

lemma plain_run_json:
  assumes "\<And>d. rr_routing_decision r = Some d \<Longrightarrow> plain (JDict d)"
  shows "plain (JDict (run_json moment r))"
proof (rule plain_dict)
  have "plain (jopt (map_option JDict (rr_routing_decision r)))"
    using assms by (cases "rr_routing_decision r") (simp_all add: jopt_def plain_null)
  then show "\<And>kv. kv \<in> set (run_json moment r) \<Longrightarrow> plain (snd kv)"
    by (auto simp: run_json_def plain_str plain_opt)
qed (simp add: run_json_def)

lemma read_run_json:
  "read_run (run_json moment r) = Inr \<lparr>rd_run_id = rr_run_id r, rd_execution_status = execution_status_value (rr_execution_status r),
     rd_evaluation_status = evaluation_status_value (rr_evaluation_status r), rd_error_code = rr_error_code r,
     rd_routing_decision = rr_routing_decision r, rd_raw = run_json moment r\<rparr>"
  by (cases "rr_error_code r"; cases "rr_routing_decision r")
    (simp_all add: read_run_def run_json_def uuid_field_def string_field_def optional_string_def optional_object_def
      UUID_uuid_str jstr_opt_def jopt_def)

text \<open>The client reads back the run the API served, and takes it for terminal exactly when it is.\<close>

theorem client_reads_served_run:
  assumes "io \<lparr>sq_method = ''GET'', sq_url = sdk_base_url cl @ ''/v1/runs/'' @ run_id,
      sq_headers = (''X-Client-Id'', sdk_client_id cl) # (case sdk_api_key cl of None \<Rightarrow> [] | Some k \<Rightarrow> [(''X-API-Key'', k)]), sq_json = None\<rparr> s =
      (Reply 200 (json_dump False ascii (JDict (run_json moment r))) hs, s')"
    and "\<And>d. rr_routing_decision r = Some d \<Longrightarrow> plain (JDict d)"
  shows "\<exists>run. sdk_get_run io cl run_id s = (Inr run, s') \<and> rd_run_id run = rr_run_id r \<and> rd_error_code run = rr_error_code r \<and>
    rd_routing_decision run = rr_routing_decision r \<and> (is_terminal run \<longleftrightarrow> is_terminal_execution_status (rr_execution_status r))"
proof -
  have l: "loads (json_dump False ascii (JDict (run_json moment r))) = Inr (JDict (run_json moment r))"
    using loads_dumps [OF plain_run_json [OF assms(2)]] by simp
  have "sdk_get_run io cl run_id s = (read_run (run_json moment r), s')"
    using assms(1) l by (simp add: sdk_get_run_def request_def send_def read_object_def)
  moreover have "execution_status_value st \<in> set TERMINAL_STATUSES \<longleftrightarrow> is_terminal_execution_status st" for st
    by (cases st) (simp_all add: TERMINAL_STATUSES_def is_terminal_execution_status_def TERMINAL_EXECUTION_STATUSES_def)
  ultimately show ?thesis by (simp add: read_run_json is_terminal_def)
qed

section \<open>Waiting ends\<close>

lemma wait_loop_ends:
  assumes "deadline \<le> clock (2 * (k + n))"
  shows "\<exists>out s'. wait_loop io cl run_id late deadline clock k s = Some (out, s') \<and>
    (case out of Inr run \<Rightarrow> is_terminal run | Inl e \<Rightarrow> True)"
  using assms
proof (induction n arbitrary: k s)
  case 0
  then show ?case by (subst wait_loop.simps) (auto split: prod.splits sum.splits)
next
  case (Suc n)
  obtain out s' where g: "sdk_get_run io cl run_id s = (out, s')" by fastforce
  show ?case
  proof (cases "isl out \<or> is_terminal (projr out) \<or> deadline \<le> clock (2 * k)")
    case True
    then show ?thesis using g by (subst wait_loop.simps) (auto split: sum.splits)
  next
    case False
    then obtain run where "out = Inr run" by (cases out) auto
    then have "wait_loop io cl run_id late deadline clock k s = wait_loop io cl run_id late deadline clock (k + 1) s'"
      using g False by (subst wait_loop.simps) simp
    then show ?thesis using Suc.IH [of "k + 1" s'] Suc.prems by simp
  qed
qed

text \<open>
  C35. Waiting for a run ends once the clock has passed the deadline, whatever the server answers, and a
  run it returns is terminal.
\<close>

theorem wait_for_terminal_ends:
  assumes "fl (started + timeout_seconds) \<le> clock (2 * n)"
  shows "\<exists>out s'. wait_for_terminal io cl run_id timeout_seconds poll_seconds started clock s = Some (out, s') \<and>
    (case out of Inr run \<Rightarrow> is_terminal run | Inl e \<Rightarrow> True)"
proof (cases "timeout_seconds \<le> 0 \<or> poll_seconds \<le> 0")
  case False
  have "fl (started + timeout_seconds) \<le> clock (2 * (0 + n))" using assms by simp
  note ends = wait_loop_ends [where clock = clock and k = 0, OF this]
  show ?thesis unfolding wait_for_terminal_def using False by (simp only: if_False ends simp_thms)
qed (simp add: wait_for_terminal_def)

theorem wait_for_terminal_ends_witness:
  "\<exists>out s'. wait_for_terminal (\<lambda>req s. (No_Reply, s)) \<lparr>sdk_base_url = ''http://api'', sdk_client_id = ''acme'', sdk_api_key = None\<rparr>
    ''7'' 30 1 5 of_nat (0 :: nat) = Some (out, s') \<and> (case out of Inr run \<Rightarrow> is_terminal run | Inl e \<Rightarrow> True)"
proof -
  have "fl (5 + 30) \<le> (of_nat (2 * 20) :: rat)" by code_simp
  then show ?thesis by (rule wait_for_terminal_ends [where clock = of_nat and n = 20])
qed

end
