(* ===== verification/Command_Lines.thy ===== *)
theory Command_Lines
  imports Api_Handlers Py_Json_Parse
begin

text \<open>
  The operator commands \<open>evaluation/cli.py\<close> and \<open>security/cli.py\<close> behind their argument parsers: what they do with
  the parsed arguments and how they exit. The text of the dataset file is an argument, or the error of reading it.
\<close>

datatype exit_status = Exit_Ok dict | Exit_Failed dict | Exit_Invalid string | Exit_Raised exn

section \<open>The regression command\<close>

fun validate_configured_targets :: "bool \<Rightarrow> target list \<Rightarrow> unit res" where
  "validate_configured_targets openai [] = Inr ()"
| "validate_configured_targets openai (t # ts) =
     (if t_provider t \<notin> {''deterministic'', ''openai''}
      then Inl (ValueError (''provider '' @ [CHR 39] @ t_provider t @ [CHR 39] @ '' is not configured''))
      else if t_provider t = ''openai'' \<and> \<not> openai then Inl (ValueError ''openai target requires APP_OPENAI_API_KEY'')
      else validate_configured_targets openai ts)"

definition load_json :: "string res \<Rightarrow> dict res" where
  "load_json file = res_bind file (\<lambda>text. res_bind (loads text) (\<lambda>v.
     case v of JDict d \<Rightarrow> Inr d | _ \<Rightarrow> Inl (ValueError ''dataset root must be an object'')))"

definition os_error :: exn where
  "os_error = ForeignError ''OSError'' None"

definition cli_regression ::
  "(json \<Rightarrow> bool) \<Rightarrow> (json \<Rightarrow> json \<Rightarrow> bool) \<Rightarrow> 's runner \<Rightarrow> (nat \<Rightarrow> rat) \<Rightarrow> (nat \<Rightarrow> rat) \<Rightarrow> bool \<Rightarrow> string res \<Rightarrow> target \<Rightarrow> target
    \<Rightarrow> json \<Rightarrow> json \<Rightarrow> json \<Rightarrow> 's \<Rightarrow> dict res \<times> 's" where
  "cli_regression schema_ok conforms exec ticks ticks' openai file base cand quality latency cost s =
     (case res_bind (load_json file) (\<lambda>d.
           res_bind (from_mapping d) (\<lambda>ds.
           res_bind (make_target base) (\<lambda>b.
           res_bind (make_target cand) (\<lambda>c.
           res_bind (validate_configured_targets openai [b, c]) (\<lambda>_.
           res_bind (RegressionGates quality latency cost) (\<lambda>g. Inr (ds, b, c, g))))))) of
        Inl e \<Rightarrow> (Inl e, s)
      | Inr (ds, b, c, g) \<Rightarrow> run_regression schema_ok conforms exec ticks ticks' ds b c (Some g) s)"

definition regression_main where
  "regression_main schema_ok conforms exec ticks ticks' openai file base cand quality latency cost s =
     (case cli_regression schema_ok conforms exec ticks ticks' openai file base cand quality latency cost s of
        (Inl e, s') \<Rightarrow>
          (if is_ValueError e \<or> e = os_error then Exit_Invalid (''Evaluation regression request is invalid: '' @ exn_text e)
           else Exit_Raised e, s')
      | (Inr report, s') \<Rightarrow> (if dget report ''passed'' = Some (JBool True) then Exit_Ok report else Exit_Failed report, s'))"

section \<open>The credential command\<close>

text \<open>The exported record; the text of its expiry is the serialiser's.\<close>

definition registry_entry :: "(time \<Rightarrow> string) \<Rightarrow> credential \<Rightarrow> dict" where
  "registry_entry moment r = [(''key_id'', JStr (cr_key_id r)), (''principal_id'', JStr (cr_principal_id r)),
     (''tenant_id'', JStr (cr_tenant_id r)), (''scheme'', JStr (cr_scheme r)), (''salt'', JStr (cr_salt r)),
     (''verifier'', JStr (cr_verifier r)), (''enabled'', JBool (cr_enabled r)),
     (''expires_at'', jstr_opt (map_option moment (cr_expires_at r)))]"

definition credential_main :: "(time \<Rightarrow> string) \<Rightarrow> string \<Rightarrow> string \<Rightarrow> string \<Rightarrow> string \<Rightarrow> string \<Rightarrow> string \<Rightarrow> time option \<Rightarrow> exit_status" where
  "credential_main moment key_id secret salt prin tenant pepper expires_at =
     (case issue_credential key_id secret salt prin tenant pepper expires_at of
        Inr (raw_key, r) \<Rightarrow> Exit_Ok [(''api_key'', JStr raw_key), (''credential'', JDict (registry_entry moment r))]
      | Inl e \<Rightarrow> if is_ValueError e
          then Exit_Invalid ''Use valid identities, a timezone-aware expiry and APP_AUTH_PEPPER (32+ chars)'' else Exit_Raised e)"

section \<open>The command and the API accept the same targets\<close>

lemma configured_targets_agree:
  "validate_configured_targets (ap_openai_key st) ts = validate_regression_targets st ts"
  by (induction ts) auto

text \<open>A credential that was issued exits with success, and only then.\<close>

lemma credential_main_issues:
  "(\<exists>out. credential_main moment key_id secret salt prin tenant pepper expires_at = Exit_Ok out) \<longleftrightarrow>
    32 \<le> length pepper \<and> is_token_hex key_id \<and> is_client_id prin \<and> is_client_id tenant \<and> is_token_hex salt"
proof -
  let ?raw = "''arr_'' @ key_id @ ''.'' @ secret"
  have ok: "DEFAULT_SCHEME \<in> set SUPPORTED_SCHEMES" by (simp add: DEFAULT_SCHEME_def SUPPORTED_SCHEMES_def)
  have "\<exists>v. derive_verifier ?raw salt pepper DEFAULT_SCHEME = Inr v" if "is_token_hex salt"
    using fromhex_even [of salt] that by (auto simp: derive_verifier_def DEFAULT_SCHEME_def is_token_hex_def)
  then show ?thesis
    by (cases "derive_verifier ?raw salt pepper DEFAULT_SCHEME")
      (auto simp: credential_main_def issue_credential_def CredentialRecord_def valid_record_def ok Let_def)
qed

end
