(* ===== verification/Spec2Isabelle.thy ===== *)
theory Spec2Isabelle
  imports Runtime_System Run_Reads Idempotency Evaluation_Jobs Table_Growth Resource_Executor Regression_Gates
    Envelope Api_Boundary Client_Sdk Command_Lines
begin

text \<open>
  A verification development of the agent reliability runtime (\<open>src/src/agent_runtime\<close>).

  \<^bold>\<open>The program.\<close> Clients submit runs over HTTP. The API process stores a run, an event and an outbox row in one
  PostgreSQL transaction; the dispatcher publishes outbox rows to RabbitMQ; workers claim a run under a lease,
  execute it with a provider and record the outcome; the recovery process returns expired leases and due retries to
  the queue. Evaluations of a run's output and regression suites are runs of their own. In front of the API stand
  the body bound, authentication, the rate limiter and the audit; beside it stand the envelope encryption of tenant
  data, the retention tools and a client library.

  \<^bold>\<open>How it is modelled.\<close> Definitions follow the Python functions and keep their names. An exception is a value of
  \<open>exn\<close>, and fallible code returns \<open>'a res\<close>. Each transaction of a service is one function from the database (a
  record of tables, lists of row records) to a result and the database after it; a transaction that raises leaves
  the database as it was, which is what its rollback does. Transactions are the atomic steps of the transition
  relations \<open>svc_step\<close> and \<open>sys_step\<close>; everything proved about reachable states holds for every interleaving of
  them. JSON values are the datatype \<open>json\<close>, Python's integers are \<open>int\<close>, floats are rationals rounded by \<open>fl\<close> to the
  nearest double with the infinities and NaN apart, moments are microseconds since the epoch, identifiers are 128-bit
  words, SHA-256 is computed on 32-bit words. Strings are lists of characters, so code points above 255 are outside
  the model. Clock readings, random values, \<open>uuid4\<close>, the network and other third parties (httpx, RabbitMQ, Redis,
  jsonschema, AES-GCM, pydantic's parsers) are arguments; where a theorem needs something of them, their documented
  behaviour is a named hypothesis (\<open>confirms\<close>, \<open>redis_laws\<close>, \<open>aead_laws\<close>, \<open>wrapper_laws\<close>) that a concrete instance satisfies.

  \<^bold>\<open>Prelude and library of Python.\<close> \<open>Runtime_Prelude\<close> has exceptions, results and keyed rows; \<open>Py_Text\<close>, \<open>Py_Value\<close>,
  \<open>Py_Float\<close>, \<open>Py_Float_Error\<close>, \<open>Py_Float_Text\<close>, \<open>Py_Time\<close>, \<open>Py_Uuid\<close>, \<open>Sha256\<close>, \<open>Py_Bytes\<close>, \<open>Py_Json\<close> and \<open>Py_Json_Parse\<close> model what the
  sources use of the language: text methods, JSON values and their printing and parsing (with the round trip), floats
  with their error bounds and shortest texts, dates, UUIDs, hashes, HMAC, PBKDF2 and Base64.

  \<^bold>\<open>Domain.\<close> \<open>Run_States\<close> (\<open>domain/states.py\<close>), \<open>Routing\<close> (\<open>domain/routing.py\<close>), \<open>Retry\<close> (\<open>domain/retry.py\<close>, \<open>domain/policy.py\<close>):
  the transition table, routing decisions that list exactly the available candidates in order, stored policies within
  the deployment's limits, the retry schedule, and which failures are retried.

  \<^bold>\<open>Database and services.\<close> \<open>Db_Model\<close> has the tables of \<open>infrastructure/database/models.py\<close>; \<open>Quotas\<close>, \<open>Run_Service\<close> and
  \<open>Execution_Service\<close> have the transactions of \<open>quotas.py\<close>, \<open>run_service.py\<close> and \<open>execution_service.py\<close>. \<open>Run_Lifecycle\<close> is an
  abstract state machine of one run with its attempts; \<open>Lifecycle_Refinement\<close> and \<open>Service_Refinement\<close> show that
  every transaction is a step of it for some runs and leaves the others alone; \<open>Service_Invariants\<close> lifts its invariant to all
  reachable databases; \<open>Service_Properties\<close> states what follows: the lifecycle invariant, the quotas, the transitions
  and the finality of terminal runs. \<open>Table_Growth\<close> and \<open>Transaction_Units\<close> treat what every transaction appends, \<open>Idempotency\<close>,
  \<open>Evaluation_Jobs\<close> and \<open>Run_Reads\<close> the bindings of idempotency keys, the evaluation jobs and the reads. \<open>Sample_Run\<close> is a
  concrete reachable history on which the properties are instantiated. The locales \<open>inductive_invariant\<close>,
  \<open>statement_relation\<close> and \<open>unit_relation\<close> are the interfaces through which one proof about the statements of a transaction
  serves all transactions; they are interpreted on the services.

  \<^bold>\<open>Messaging and execution.\<close> \<open>Outbox_Dispatch\<close> (\<open>dispatcher.py\<close>, \<open>publisher.py\<close>), \<open>Worker\<close> (\<open>worker.py\<close>) and \<open>Runtime_System\<close> compose
  the services with the broker: a message is read back as written, an acknowledged execution is in the database, a redelivery
  is harmless, and no run is lost (with \<open>Announcements\<close>). \<open>Providers\<close> and \<open>Resource_Executor\<close> have the provider adapters and the executor with
  its budgets; \<open>Evaluation_Safety\<close>, \<open>Evaluation_Engine\<close>, \<open>Regression\<close>, \<open>Regression_Runs\<close> and \<open>Regression_Gates\<close> have \<open>evaluation/\<close>.
  The locales \<open>execution_store\<close> and \<open>runner_relation\<close> are the interfaces of the worker to the execution service and of the
  regression runner to its executor.

  \<^bold>\<open>Boundary, security and tools.\<close> \<open>Authentication\<close> (\<open>security/credentials.py\<close>, \<open>security/authentication.py\<close>, the registry checks of
  \<open>settings.py\<close>), \<open>Request_Guards\<close> (\<open>rate_limiter.py\<close>, \<open>body_limit.py\<close>), \<open>Api_Handlers\<close> and \<open>Api_Boundary\<close> (\<open>api/main.py\<close>, \<open>api/schemas.py\<close>) follow
  a request from its bytes to the transaction it commits: an issued key authenticates its owner, admission is bounded
  per window, the caller's header selects nothing, every change is authorised and audited. \<open>Security_Audit\<close>
  (\<open>security/audit.py\<close>, \<open>security/audit_retention.py\<close> and the trigger of the migrations) has the audit table and its purge, \<open>Envelope\<close>
  (\<open>security/envelope.py\<close>, \<open>security/retention_cli.py\<close>) the sealing of tenant data and the erasure of keys, \<open>Client_Sdk\<close> the
  client library, \<open>Command_Lines\<close> the operator commands. \<open>Telemetry\<close> has the sanitised trace context.

  \<^bold>\<open>Loops and fuel.\<close> Structural loops are recursive functions, and the work list of the value traversal ends by the node bound
  of the source. The purge and the client's polling may run forever and are partial functions into \<open>option\<close>; that
  they return is proved. The JSON parser recurses on fuel, one more than the length of its input: each call consumes
  a character, and the round-trip theorem shows it returns the printed value. The shortest text of a float is searched
  among at most seventeen digits, which always suffice for a double. Following the pages of a history takes a count
  larger than the number of rows.

  \<^bold>\<open>Not modelled.\<close>
  \<^item> \<open>observability/\<close> apart from the trace context: log lines, metrics, heartbeat files and spans go to the operator, and no
    other part of the program reads them.
  \<^item> \<open>processes.py\<close>, \<open>session.py\<close> and the rest of \<open>create_app\<close>: object construction, resource cleanup and endless
    loops whose turns are the steps of \<open>Runtime_System\<close>.
  \<^item> The routing and body parsing of FastAPI and pydantic, including the bounds that \<open>settings.py\<close> and \<open>api/schemas.py\<close> only declare:
    they are third-party code, and a request is modelled from the call of its handler.
  \<^item> \<open>RabbitMqWorker.run\<close>, which declares the topology and waits; deliveries are steps of the system.
  \<^item> Column lengths, indexes, collation orders other than by code point, isolation anomalies below the row locks and advisory locks the
    code takes, and power failures of the database.
  \<^item> Cancellation of coroutines in the middle of a handler and exhaustion of the interpreter's stack by deeply nested JSON.
\<close>

end
